theory Spec2Isabelle
  imports Main "HOL-Library.Word" "HOL-Library.Multiset" "HOL-Library.Product_Lexorder"
    "HOL-Library.List_Lexorder" "HOL-Library.Char_ord"
begin

section \<open>Rollback to stable: data model\<close>

text \<open>
  The development embeds \<^verbatim>\<open>src/third_party/wiredtiger/src/txn/txn_rollback_to_stable.c\<close>.
  Timestamps and transaction ids are the C type \<^verbatim>\<open>uint64_t\<close>, compared unsigned;
  a B-tree id is \<^verbatim>\<open>uint32_t\<close>. A \<^verbatim>\<open>WT_ITEM\<close> (key or value bytes) is a string.
  A C function that returns \<^verbatim>\<open>int\<close> and mutates its arguments becomes a function that
  returns the return code together with the mutated objects; \<open>0\<close> is success.
\<close>

type_synonym wt_timestamp = "64 word"
type_synonym wt_txnid = "64 word"
type_synonym wt_item = string

text \<open>
  Modelled from the spec: the sentinels of section 3 (``0 denotes none'', ``a sentinel
  ABORTED'', ``a sentinel NONE'', ``stop\_ts = max''). They are macros of
  \<^verbatim>\<open>wt_internal.h\<close>, which is not among the sources.
\<close>

definition WT_TS_NONE :: wt_timestamp where
  "WT_TS_NONE = 0"

definition WT_TS_MAX :: wt_timestamp where
  "WT_TS_MAX = - 1"

definition WT_TXN_NONE :: wt_txnid where
  "WT_TXN_NONE = 0"

definition WT_TXN_ABORTED :: wt_txnid where
  "WT_TXN_ABORTED = - 1"

definition WT_TXN_MAX :: wt_txnid where
  "WT_TXN_MAX = - 11"

text \<open>Return codes. \<^verbatim>\<open>WT_NOTFOUND\<close> ends a cursor scan; the others are failures.\<close>

definition WT_NOTFOUND :: int where
  "WT_NOTFOUND = - 31803"

definition WT_ERROR :: int where
  "WT_ERROR = - 31802"

definition ENOENT :: int where
  "ENOENT = 2"

definition EINVAL :: int where
  "EINVAL = 22"

datatype upd_type =
  WT_UPDATE_INVALID | WT_UPDATE_MODIFY | WT_UPDATE_RESERVE | WT_UPDATE_STANDARD | WT_UPDATE_TOMBSTONE

datatype prepare_state =
  WT_PREPARE_INIT | WT_PREPARE_INPROGRESS | WT_PREPARE_LOCKED | WT_PREPARE_RESOLVED

datatype upd_flag =
  WT_UPDATE_HS | WT_UPDATE_RESTORED_FROM_HS | WT_UPDATE_RESTORED_FROM_DS

text \<open>
  \<^verbatim>\<open>WT_UPDATE\<close>. The \<^verbatim>\<open>next\<close> pointer is the list structure: an update chain is the list
  of its updates in \<^verbatim>\<open>next\<close> order, head (newest) first. The flag word is the set of
  flags that are set.
\<close>

record wt_update =
  upd_txnid :: wt_txnid
  upd_durable_ts :: wt_timestamp
  upd_start_ts :: wt_timestamp
  upd_prepare_state :: prepare_state
  upd_type :: upd_type
  upd_flags :: "upd_flag set"
  upd_data :: wt_item

type_synonym upd_chain = "wt_update list"

text \<open>\<^verbatim>\<open>WT_TIME_WINDOW\<close>, as unpacked from an on-disk cell or a history store record.\<close>

record wt_time_window =
  tw_start_ts :: wt_timestamp
  tw_durable_start_ts :: wt_timestamp
  tw_start_txn :: wt_txnid
  tw_stop_ts :: wt_timestamp
  tw_durable_stop_ts :: wt_timestamp
  tw_stop_txn :: wt_txnid
  tw_prepare :: bool

text \<open>
  A history store record: the key \<^verbatim>\<open>(btree_id, key, start_ts, counter)\<close> read by
  \<^verbatim>\<open>get_key\<close>, the value \<^verbatim>\<open>(stop_durable_ts, durable_ts, type, value)\<close> read by
  \<^verbatim>\<open>get_value\<close>, and the time window given by \<^verbatim>\<open>__wt_hs_upd_time_window\<close>.
  The history store is the list of its records.
\<close>

record hs_entry =
  hs_btree_id :: "32 word"
  hs_key :: wt_item
  hs_start_ts :: wt_timestamp
  hs_counter :: "64 word"
  hs_stop_durable_ts :: wt_timestamp
  hs_durable_ts :: wt_timestamp
  hs_type :: upd_type
  hs_value :: wt_item
  hs_tw :: wt_time_window

type_synonym hs_store = "hs_entry list"

text \<open>
  What the functions read from the session and its connection: the connection flags
  (\<^verbatim>\<open>WT_CONN_RECOVERING\<close>, \<^verbatim>\<open>WT_CONN_IN_MEMORY\<close>, \<^verbatim>\<open>WT_CONN_CLOSING_TIMESTAMP\<close>), the
  recovered checkpoint snapshot, and the data handle they run on (\<^verbatim>\<open>WT_IS_HS\<close>,
  \<^verbatim>\<open>S2BT(session)->id\<close>).

  The functions call into layers whose code is not among the sources and which can fail.
  The return codes of these calls are part of the environment, so that each
  \<^verbatim>\<open>WT_RET\<close> and \<^verbatim>\<open>WT_ERR\<close> around them is a branch of the embedding:
  \<^item> \<open>buf_ret\<close>: the scratch buffer and cell calls (\<^verbatim>\<open>__wt_scr_alloc\<close>,
    \<^verbatim>\<open>__wt_row_leaf_key\<close>, \<^verbatim>\<open>__wt_vpack_uint\<close>, \<^verbatim>\<open>__wt_page_cell_data_ref\<close>, \<^verbatim>\<open>__wt_buf_set\<close>),
    modelled once, where a function first makes such a call;
  \<^item> \<open>curhs_open_ret\<close>: \<^verbatim>\<open>__wt_curhs_open\<close>;
  \<^item> \<open>curhs_get_ret e\<close>: reading the record \<open>e\<close> under the cursor (\<^verbatim>\<open>get_key\<close>,
    \<^verbatim>\<open>get_value\<close> and, in the key fixer, applying it to the value buffer);
  \<^item> \<open>curhs_remove_ret e\<close>: \<^verbatim>\<open>remove\<close> on the record \<open>e\<close>;
  \<^item> \<open>upd_alloc_ret\<close>: \<^verbatim>\<open>__wt_upd_alloc\<close> and \<^verbatim>\<open>__wt_upd_alloc_tombstone\<close>;
  \<^item> \<open>page_modify_init_ret\<close>, \<open>update_serial_ret\<close>: \<^verbatim>\<open>__wt_page_modify_init\<close> (with the
    allocation of the update array) and \<^verbatim>\<open>__wt_update_serial\<close>;
  \<^item> \<open>col_modify_ret\<close>: \<^verbatim>\<open>__wt_col_search\<close> and \<^verbatim>\<open>__wt_col_modify\<close>.

  Closing the cursor and freeing buffers are taken to succeed. \<open>modify_apply_item\<close> is
  \<^verbatim>\<open>__wt_modify_apply_item\<close>: it maps a value and a modify record to the modified value.
\<close>

record rts_env =
  conn_recovering :: bool
  conn_in_memory :: bool
  conn_closing_timestamp :: bool
  recovery_ckpt_snap_min :: wt_txnid
  recovery_ckpt_snap_max :: wt_txnid
  recovery_ckpt_snapshot :: "wt_txnid list"
  dhandle_is_hs :: bool
  btree_id :: "32 word"
  buf_ret :: int
  curhs_open_ret :: int
  curhs_get_ret :: "hs_entry \<Rightarrow> int"
  curhs_remove_ret :: "hs_entry \<Rightarrow> int"
  upd_alloc_ret :: int
  page_modify_init_ret :: int
  update_serial_ret :: int
  col_modify_ret :: int
  modify_apply_item :: "wt_item \<Rightarrow> wt_item \<Rightarrow> wt_item"

section \<open>The history store cursor\<close>

text \<open>
  Modelled from the spec: the cursor wrapper of section 4.2, whose code
  (\<^verbatim>\<open>__wt_curhs_open\<close>, \<^verbatim>\<open>__wt_curhs_search_near_before\<close>, \<^verbatim>\<open>prev\<close>, \<^verbatim>\<open>remove\<close>) is not
  among the sources. \<open>search_before(btree_id, key)\<close> positions the cursor at the largest
  \<open>(btree_id, key, ts, counter)\<close>, and \<open>prev()\<close> then yields the older versions of this
  key: the cursor yields the records of this B-tree and key in descending
  \<open>(start_ts, counter)\<close> order. The function gives that sequence, the record the cursor
  is positioned on first; when it is exhausted the cursor returns \<^verbatim>\<open>WT_NOTFOUND\<close>.
\<close>

definition curhs_search_near_before :: "32 word \<Rightarrow> wt_item \<Rightarrow> hs_store \<Rightarrow> hs_entry list" where
  "curhs_search_near_before bid key hs =
     rev (sort_key (\<lambda>e. (hs_start_ts e, hs_counter e))
            (filter (\<lambda>e. hs_btree_id e = bid \<and> hs_key e = key) hs))"

text \<open>
  Modelled from the spec: \<open>search_after(btree_id)\<close> positions at the smallest record of
  the B-tree and \<open>next()\<close> yields its records in ascending order; the wrapper never
  returns a record of another B-tree.
\<close>

definition curhs_search_near_after :: "32 word \<Rightarrow> hs_store \<Rightarrow> hs_entry list" where
  "curhs_search_near_after bid hs =
     sort_key (\<lambda>e. (hs_key e, hs_start_ts e, hs_counter e))
       (filter (\<lambda>e. hs_btree_id e = bid) hs)"

text \<open>Modelled from the spec: \<open>remove()\<close> deletes the record the cursor is positioned on.\<close>

definition curhs_remove :: "hs_entry \<Rightarrow> hs_store \<Rightarrow> hs_store" where
  "curhs_remove e hs = remove1 e hs"

section \<open>Deleting a key's newer history: \<^verbatim>\<open>__rollback_delete_hs\<close>\<close>

text \<open>
  The loop \<^verbatim>\<open>for (; ret == 0; ret = hs_cursor->prev(hs_cursor))\<close>: the argument is what the
  cursor still yields. \<open>Inl ret\<close> is a \<^verbatim>\<open>WT_ERR\<close> that jumps to \<^verbatim>\<open>err\<close> with \<open>ret\<close>;
  \<open>Inr ret\<close> is the loop left with \<open>ret\<close>: 0 at the \<^verbatim>\<open>break\<close> on the first record older
  than \<open>ts\<close>, \<^verbatim>\<open>WT_NOTFOUND\<close> when the cursor runs off the key's records.
\<close>

fun rollback_delete_hs_loop ::
  "rts_env \<Rightarrow> wt_timestamp \<Rightarrow> hs_entry list \<Rightarrow> hs_store \<Rightarrow> (int + int) \<times> hs_store" where
  "rollback_delete_hs_loop env ts [] hs = (Inr WT_NOTFOUND, hs)"
| "rollback_delete_hs_loop env ts (e # es) hs =
     (if curhs_get_ret env e \<noteq> 0 then (Inl (curhs_get_ret env e), hs)
      else if hs_start_ts e < ts then (Inr 0, hs)
      else if curhs_remove_ret env e \<noteq> 0 then (Inl (curhs_remove_ret env e), hs)
      else rollback_delete_hs_loop env ts es (curhs_remove e hs))"

text \<open>\<^verbatim>\<open>WT_ERR_NOTFOUND_OK(ret, false)\<close>: running off the end is success.\<close>

definition notfound_ok :: "int \<Rightarrow> int" where
  "notfound_ok ret = (if ret = WT_NOTFOUND then 0 else ret)"

definition rollback_delete_hs ::
  "rts_env \<Rightarrow> wt_item \<Rightarrow> wt_timestamp \<Rightarrow> hs_store \<Rightarrow> int \<times> hs_store" where
  "rollback_delete_hs env key ts hs =
     (if curhs_open_ret env \<noteq> 0 then (curhs_open_ret env, hs)
      else if buf_ret env \<noteq> 0 then (buf_ret env, hs)
      else case rollback_delete_hs_loop env ts (curhs_search_near_before (btree_id env) key hs) hs of
             (Inl ret, hs') \<Rightarrow> (ret, hs')
           | (Inr ret, hs') \<Rightarrow> (notfound_ok ret, hs'))"

section \<open>The update chain editor: \<^verbatim>\<open>__rollback_abort_update\<close>\<close>

definition F_ISSET :: "wt_update \<Rightarrow> upd_flag \<Rightarrow> bool" where
  "F_ISSET upd f = (f \<in> upd_flags upd)"

definition F_SET :: "wt_update \<Rightarrow> upd_flag \<Rightarrow> wt_update" where
  "F_SET upd f = upd\<lparr>upd_flags := insert f (upd_flags upd)\<rparr>"

definition F_CLR :: "wt_update \<Rightarrow> upd_flag \<Rightarrow> wt_update" where
  "F_CLR upd f = upd\<lparr>upd_flags := upd_flags upd - {f}\<rparr>"

text \<open>The three assignments of the abort branch.\<close>

definition upd_abort :: "wt_update \<Rightarrow> wt_update" where
  "upd_abort upd =
     upd\<lparr>upd_txnid := WT_TXN_ABORTED, upd_durable_ts := WT_TS_NONE, upd_start_ts := WT_TS_NONE\<rparr>"

text \<open>
  The first loop, \<^verbatim>\<open>for (upd = first_upd; upd != NULL; upd = upd->next)\<close>. The result is the
  part of the chain the loop has walked over, as it leaves it, and the rest of the chain
  from \<^verbatim>\<open>stable_upd\<close> on; the rest is empty when the loop ends with \<^verbatim>\<open>stable_upd == NULL\<close>.
\<close>

fun rollback_abort_update_scan ::
  "wt_timestamp \<Rightarrow> upd_chain \<Rightarrow> upd_chain \<times> upd_chain" where
  "rollback_abort_update_scan rollback_timestamp [] = ([], [])"
| "rollback_abort_update_scan rollback_timestamp (upd # rest) =
     (if upd_txnid upd = WT_TXN_ABORTED then
        (case rollback_abort_update_scan rollback_timestamp rest of
           (walked, kept) \<Rightarrow> (upd # walked, kept))
      else if rollback_timestamp < upd_durable_ts upd
            \<or> upd_prepare_state upd = WT_PREPARE_INPROGRESS then
        (case rollback_abort_update_scan rollback_timestamp rest of
           (walked, kept) \<Rightarrow> (upd_abort upd # walked, kept))
      else ([], upd # rest))"

text \<open>
  The second loop, which looks for the update following a stable tombstone: the aborted
  updates it steps over, and the chain from the first update that is not aborted.
\<close>

fun rollback_abort_update_next :: "upd_chain \<Rightarrow> upd_chain \<times> upd_chain" where
  "rollback_abort_update_next [] = ([], [])"
| "rollback_abort_update_next (upd # rest) =
     (if upd_txnid upd \<noteq> WT_TXN_ABORTED then ([], upd # rest)
      else case rollback_abort_update_next rest of
             (skipped, kept) \<Rightarrow> (upd # skipped, kept))"

text \<open>
  The function returns \<open>(ret, chain, hs, stable_update_found)\<close>: the return code, the
  chain and the history store as it leaves them, and the value it stores through
  \<^verbatim>\<open>stable_update_found\<close> (a caller that passes \<^verbatim>\<open>NULL\<close> drops it). \<^verbatim>\<open>WT_RET\<close> around
  \<^verbatim>\<open>__rollback_delete_hs\<close> returns before the flags are cleared and before
  \<^verbatim>\<open>*stable_update_found = true\<close>.
\<close>

definition rollback_abort_update ::
  "rts_env \<Rightarrow> wt_item \<Rightarrow> upd_chain \<Rightarrow> wt_timestamp \<Rightarrow> hs_store
     \<Rightarrow> int \<times> upd_chain \<times> hs_store \<times> bool" where
  "rollback_abort_update env key first_upd rollback_timestamp hs =
     (case rollback_abort_update_scan rollback_timestamp first_upd of
        (walked, []) \<Rightarrow> (0, walked, hs, False)
      | (walked, stable_upd # rest) \<Rightarrow>
          if F_ISSET stable_upd WT_UPDATE_HS then
            if upd_type stable_upd = WT_UPDATE_TOMBSTONE then
              (case rollback_abort_update_next rest of
                 (skipped, []) \<Rightarrow>
                   (case rollback_delete_hs env key (upd_start_ts stable_upd) hs of
                      (ret, hs') \<Rightarrow>
                        if ret \<noteq> 0 then (ret, walked @ stable_upd # rest, hs', False)
                        else (0, walked @ F_CLR stable_upd WT_UPDATE_HS # skipped, hs', True))
               | (skipped, stable_upd2 # rest2) \<Rightarrow>
                   (case rollback_delete_hs env key (upd_start_ts stable_upd2) hs of
                      (ret, hs') \<Rightarrow>
                        if ret \<noteq> 0 then (ret, walked @ stable_upd # rest, hs', False)
                        else (0, walked @ F_CLR stable_upd WT_UPDATE_HS # skipped
                                   @ F_CLR stable_upd2 WT_UPDATE_HS # rest2, hs', True)))
            else
              (case rollback_delete_hs env key (upd_start_ts stable_upd) hs of
                 (ret, hs') \<Rightarrow>
                   if ret \<noteq> 0 then (ret, walked @ stable_upd # rest, hs', False)
                   else (0, walked @ F_CLR stable_upd WT_UPDATE_HS # rest, hs', True))
          else (0, walked @ stable_upd # rest, hs, True))"

section \<open>Visibility: \<^verbatim>\<open>__rollback_txn_visible_id\<close>\<close>

text \<open>
  Modelled from the spec: \<^verbatim>\<open>__wt_txn_visible_id_snapshot\<close>, whose code is not among the
  sources, by the rule of section 4.1: ``txnid < min: visible; txnid \<ge> max: invisible;
  else visible iff not in id\_list''.
\<close>

definition wt_txn_visible_id_snapshot ::
  "wt_txnid \<Rightarrow> wt_txnid \<Rightarrow> wt_txnid \<Rightarrow> wt_txnid list \<Rightarrow> bool" where
  "wt_txn_visible_id_snapshot txnid snap_min snap_max snapshot =
     (if txnid < snap_min then True
      else if snap_max \<le> txnid then False
      else txnid \<notin> set snapshot)"

definition rollback_txn_visible_id :: "rts_env \<Rightarrow> wt_txnid \<Rightarrow> bool" where
  "rollback_txn_visible_id env txnid =
     (if \<not> conn_recovering env then True
      else if recovery_ckpt_snap_min env = WT_TXN_NONE \<and> recovery_ckpt_snap_max env = WT_TXN_NONE
        then True
      else wt_txn_visible_id_snapshot txnid (recovery_ckpt_snap_min env)
             (recovery_ckpt_snap_max env) (recovery_ckpt_snapshot env))"

text \<open>\<^verbatim>\<open>WT_CHECK_RECOVERY_FLAG_TXNID\<close>.\<close>

definition WT_CHECK_RECOVERY_FLAG_TXNID :: "rts_env \<Rightarrow> wt_txnid \<Rightarrow> bool" where
  "WT_CHECK_RECOVERY_FLAG_TXNID env txnid =
     (conn_recovering env \<and> recovery_ckpt_snap_min env \<le> txnid)"

section \<open>Prepending to a key's update chain\<close>

text \<open>
  An on-disk key as the fixer sees it: whether it is a row-store key (\<^verbatim>\<open>rip != NULL\<close>) or
  a column-store key (\<^verbatim>\<open>cip != NULL\<close>), its key bytes (from \<^verbatim>\<open>__wt_row_leaf_key\<close>, or the
  packed record number), the time window and the value of its unpacked on-disk cell, and
  its update chain on the page.
\<close>

record ondisk_key =
  key_is_row :: bool
  key_item :: wt_item
  key_tw :: wt_time_window
  key_value :: wt_item
  key_upd :: upd_chain

text \<open>
  Modelled from the spec: the update allocator of section 6, \<open>alloc(value, kind)\<close> and
  \<open>alloc_tombstone()\<close> (\<^verbatim>\<open>__wt_upd_alloc\<close> and \<^verbatim>\<open>__wt_upd_alloc_tombstone\<close> are not among the
  sources). A fresh update has the given type and value and every other field zero.
\<close>

definition wt_upd_alloc :: "wt_item \<Rightarrow> upd_type \<Rightarrow> wt_update" where
  "wt_upd_alloc v ty =
     \<lparr>upd_txnid = WT_TXN_NONE, upd_durable_ts = WT_TS_NONE, upd_start_ts = WT_TS_NONE,
      upd_prepare_state = WT_PREPARE_INIT, upd_type = ty, upd_flags = {}, upd_data = v\<rparr>"

definition wt_upd_alloc_tombstone :: wt_update where
  "wt_upd_alloc_tombstone = wt_upd_alloc [] WT_UPDATE_TOMBSTONE"

text \<open>
  \<^verbatim>\<open>__rollback_row_modify\<close>: the new updates \<open>upd\<close> (one update, or a tombstone and an
  update) go in front of the chain \<open>*upd_entry\<close>. Before \<^verbatim>\<open>__wt_update_serial\<close> the
  function links the old chain behind the last new update and, when there is a second
  new update, points \<open>*upd_entry\<close> at it; when the serialization fails it cuts the link
  behind the last new update again, which leaves \<open>*upd_entry\<close> at the second new update
  alone, or at the old chain when there is only one new update.
\<close>

definition rollback_row_modify :: "rts_env \<Rightarrow> upd_chain \<Rightarrow> upd_chain \<Rightarrow> int \<times> upd_chain" where
  "rollback_row_modify env upd upd_entry =
     (if page_modify_init_ret env \<noteq> 0 then (page_modify_init_ret env, upd_entry)
      else if update_serial_ret env \<noteq> 0 then
        (update_serial_ret env, if tl upd \<noteq> [] then tl upd else upd_entry)
      else (0, upd @ upd_entry))"

text \<open>
  \<^verbatim>\<open>__rollback_col_modify\<close>. Modelled from the spec: \<^verbatim>\<open>__wt_col_search\<close> and
  \<^verbatim>\<open>__wt_col_modify\<close>, not among the sources, ``search by recno then insert at head''.
\<close>

definition rollback_col_modify :: "rts_env \<Rightarrow> upd_chain \<Rightarrow> upd_chain \<Rightarrow> int \<times> upd_chain" where
  "rollback_col_modify env upd upd_entry =
     (if col_modify_ret env \<noteq> 0 then (col_modify_ret env, upd_entry)
      else (0, upd @ upd_entry))"

text \<open>The dispatch \<^verbatim>\<open>if (rip != NULL) ... else ...\<close> that ends both fixer functions.\<close>

definition rollback_modify :: "rts_env \<Rightarrow> ondisk_key \<Rightarrow> upd_chain \<Rightarrow> int \<times> upd_chain" where
  "rollback_modify env k upd =
     (if key_is_row k then rollback_row_modify env upd (key_upd k)
      else rollback_col_modify env upd (key_upd k))"

section \<open>The on-disk key fixer: \<^verbatim>\<open>__rollback_ondisk_fixup_key\<close>\<close>

text \<open>
  The scan of the history store, \<^verbatim>\<open>for (; ret == 0; ret = hs_cursor->prev(hs_cursor))\<close>.
  The arguments are the time window of the on-disk cell, the stable timestamp, what the
  cursor still yields, \<^verbatim>\<open>full_value\<close> and the history store. \<open>Inl ret\<close> is a \<^verbatim>\<open>WT_ERR\<close>
  that jumps to \<^verbatim>\<open>err\<close>. \<open>Inr (found, full_value)\<close> is the loop left: \<open>found\<close> is the
  record the cursor stands on when \<^verbatim>\<open>valid_update_found\<close> is set, and \<open>None\<close> when the
  cursor ran off the key's records. (\<^verbatim>\<open>newer_hs_durable_ts\<close> feeds only assertions and a
  statistic.)
\<close>

fun rollback_ondisk_fixup_key_scan ::
  "rts_env \<Rightarrow> wt_time_window \<Rightarrow> wt_timestamp \<Rightarrow> hs_entry list \<Rightarrow> wt_item \<Rightarrow> hs_store
     \<Rightarrow> (int + hs_entry option \<times> wt_item) \<times> hs_store" where
  "rollback_ondisk_fixup_key_scan env tw rollback_timestamp [] full_value hs =
     (Inr (None, full_value), hs)"
| "rollback_ondisk_fixup_key_scan env tw rollback_timestamp (e # es) full_value hs =
     (if curhs_get_ret env e \<noteq> 0 then (Inl (curhs_get_ret env e), hs)
      else
        let full_value' =
              (if hs_start_ts e \<le> tw_start_ts tw \<or> tw_prepare tw then
                 (if hs_type e = WT_UPDATE_MODIFY
                  then modify_apply_item env full_value (hs_value e)
                  else hs_value e)
               else full_value)
        in if rollback_txn_visible_id env (tw_start_txn (hs_tw e))
              \<and> hs_durable_ts e \<le> rollback_timestamp
           then (Inr (Some e, full_value'), hs)
           else if curhs_remove_ret env e \<noteq> 0 then (Inl (curhs_remove_ret env e), hs)
           else rollback_ondisk_fixup_key_scan env tw rollback_timestamp es full_value'
                  (curhs_remove e hs))"

text \<open>The update restored from a stable history store record, and its stable tombstone.\<close>

definition fixup_restored_upd :: "rts_env \<Rightarrow> hs_entry \<Rightarrow> wt_item \<Rightarrow> wt_update" where
  "fixup_restored_upd env e full_value =
     F_SET ((wt_upd_alloc full_value WT_UPDATE_STANDARD)
              \<lparr>upd_txnid := (if conn_recovering env then WT_TXN_NONE else tw_start_txn (hs_tw e)),
               upd_durable_ts := tw_durable_start_ts (hs_tw e),
               upd_start_ts := tw_start_ts (hs_tw e)\<rparr>)
       WT_UPDATE_RESTORED_FROM_HS"

definition fixup_restored_tombstone :: "rts_env \<Rightarrow> hs_entry \<Rightarrow> wt_update" where
  "fixup_restored_tombstone env e =
     F_SET (wt_upd_alloc_tombstone
              \<lparr>upd_txnid := (if conn_recovering env then WT_TXN_NONE else tw_stop_txn (hs_tw e)),
               upd_durable_ts := tw_durable_stop_ts (hs_tw e),
               upd_start_ts := tw_stop_ts (hs_tw e)\<rparr>)
       WT_UPDATE_RESTORED_FROM_HS"

text \<open>
  The function returns \<open>(ret, chain, hs)\<close>. Every \<^verbatim>\<open>WT_ERR\<close> before the scan leaves chain
  and history store as they were; one inside or after the scan leaves the history store
  without the records the scan has removed. The return code the loop ends with is
  overwritten by the next \<^verbatim>\<open>WT_ERR\<close>. The matched record is removed last, after the
  updates are on the chain.
\<close>

definition rollback_ondisk_fixup_key ::
  "rts_env \<Rightarrow> ondisk_key \<Rightarrow> wt_timestamp \<Rightarrow> hs_store \<Rightarrow> int \<times> upd_chain \<times> hs_store" where
  "rollback_ondisk_fixup_key env k rollback_timestamp hs =
     (if buf_ret env \<noteq> 0 then (buf_ret env, key_upd k, hs)
      else if curhs_open_ret env \<noteq> 0 then (curhs_open_ret env, key_upd k, hs)
      else
        case rollback_ondisk_fixup_key_scan env (key_tw k) rollback_timestamp
               (curhs_search_near_before (btree_id env) (key_item k) hs) (key_value k) hs of
          (Inl ret, hs') \<Rightarrow> (ret, key_upd k, hs')
        | (Inr (Some e, full_value), hs') \<Rightarrow>
            if upd_alloc_ret env \<noteq> 0 then (upd_alloc_ret env, key_upd k, hs')
            else
              let upd = fixup_restored_upd env e full_value;
                  upds = (if rollback_txn_visible_id env (tw_stop_txn (hs_tw e))
                             \<and> hs_stop_durable_ts e \<le> rollback_timestamp
                          then [fixup_restored_tombstone env e, upd] else [upd])
              in (case rollback_modify env k upds of
                    (ret, chain) \<Rightarrow>
                      if ret \<noteq> 0 then (ret, chain, hs')
                      else if curhs_remove_ret env e \<noteq> 0 then (curhs_remove_ret env e, chain, hs')
                      else (0, chain, curhs_remove e hs'))
        | (Inr (None, full_value), hs') \<Rightarrow>
            if upd_alloc_ret env \<noteq> 0 then (upd_alloc_ret env, key_upd k, hs')
            else (case rollback_modify env k [wt_upd_alloc_tombstone] of
                    (ret, chain) \<Rightarrow> (ret, chain, hs')))"

section \<open>Fixing the on-disk version of a key: \<^verbatim>\<open>__rollback_abort_ondisk_kv\<close>\<close>

text \<open>
  Modelled from the spec: \<^verbatim>\<open>WT_TIME_WINDOW_HAS_STOP\<close>, a macro that is not among the
  sources. By section 3 a cell without a stop side has the ``no stop'' sentinels on its
  stop side.
\<close>

definition WT_TIME_WINDOW_HAS_STOP :: "wt_time_window \<Rightarrow> bool" where
  "WT_TIME_WINDOW_HAS_STOP tw = (tw_stop_txn tw \<noteq> WT_TXN_MAX \<or> tw_stop_ts tw \<noteq> WT_TS_MAX)"

text \<open>The update that undoes the removal of the on-disk value.\<close>

definition ondisk_restored_upd :: "rts_env \<Rightarrow> ondisk_key \<Rightarrow> wt_update" where
  "ondisk_restored_upd env k =
     F_SET ((wt_upd_alloc (key_value k) WT_UPDATE_STANDARD)
              \<lparr>upd_txnid := (if conn_recovering env then WT_TXN_NONE else tw_start_txn (key_tw k)),
               upd_durable_ts := tw_durable_start_ts (key_tw k),
               upd_start_ts := tw_start_ts (key_tw k)\<rparr>)
       WT_UPDATE_RESTORED_FROM_DS"

text \<open>
  The tail of the function, reached with an allocated update: it puts the update on the
  chain and returns 0, or frees it and returns the error.
\<close>

definition abort_ondisk_kv_modify ::
  "rts_env \<Rightarrow> ondisk_key \<Rightarrow> wt_update \<Rightarrow> hs_store \<Rightarrow> int \<times> upd_chain \<times> hs_store \<times> bool" where
  "abort_ondisk_kv_modify env k upd hs =
     (case rollback_modify env k [upd] of (ret, chain) \<Rightarrow> (ret, chain, hs, False))"

text \<open>
  The function returns \<open>(ret, chain, hs, is_ondisk_stable)\<close>, the last being the value
  it stores through \<^verbatim>\<open>is_ondisk_stable\<close>.
\<close>

definition rollback_abort_ondisk_kv ::
  "rts_env \<Rightarrow> ondisk_key \<Rightarrow> wt_timestamp \<Rightarrow> hs_store \<Rightarrow> int \<times> upd_chain \<times> hs_store \<times> bool" where
  "rollback_abort_ondisk_kv env k rollback_timestamp hs =
     (let tw = key_tw k; prepared = tw_prepare tw in
      if dhandle_is_hs env then
        if rollback_timestamp < tw_durable_stop_ts tw \<or> tw_stop_ts tw = WT_TS_MAX then
          if upd_alloc_ret env \<noteq> 0 then (upd_alloc_ret env, key_upd k, hs, False)
          else abort_ondisk_kv_modify env k wt_upd_alloc_tombstone hs
        else (0, key_upd k, hs, False)
      else if rollback_timestamp < tw_durable_start_ts tw
              \<or> \<not> rollback_txn_visible_id env (tw_start_txn tw)
              \<or> (\<not> WT_TIME_WINDOW_HAS_STOP tw \<and> prepared) then
        if \<not> conn_in_memory env then
          (case rollback_ondisk_fixup_key env k rollback_timestamp hs of
             (ret, chain, hs') \<Rightarrow> (ret, chain, hs', False))
        else if upd_alloc_ret env \<noteq> 0 then (upd_alloc_ret env, key_upd k, hs, False)
        else abort_ondisk_kv_modify env k wt_upd_alloc_tombstone hs
      else if WT_TIME_WINDOW_HAS_STOP tw
              \<and> (rollback_timestamp < tw_durable_stop_ts tw
                  \<or> \<not> rollback_txn_visible_id env (tw_stop_txn tw) \<or> prepared) then
        if tw_start_ts tw = tw_stop_ts tw \<and> tw_durable_start_ts tw = tw_durable_stop_ts tw
           \<and> tw_start_txn tw = tw_stop_txn tw then
          if \<not> conn_in_memory env then
            (case rollback_ondisk_fixup_key env k rollback_timestamp hs of
               (ret, chain, hs') \<Rightarrow> (ret, chain, hs', False))
          else if upd_alloc_ret env \<noteq> 0 then (upd_alloc_ret env, key_upd k, hs, False)
          else abort_ondisk_kv_modify env k wt_upd_alloc_tombstone hs
        else if buf_ret env \<noteq> 0 then (buf_ret env, key_upd k, hs, False)
        else if upd_alloc_ret env \<noteq> 0 then (upd_alloc_ret env, key_upd k, hs, False)
        else abort_ondisk_kv_modify env k (ondisk_restored_upd env k) hs
      else (0, key_upd k, hs, True))"

section \<open>Deciding whether a page needs work: \<^verbatim>\<open>__rollback_page_needs_abort\<close>\<close>

text \<open>\<^verbatim>\<open>WT_TIME_AGGREGATE\<close>, as far as rollback to stable reads it.\<close>

record wt_time_aggregate =
  ta_newest_start_durable_ts :: wt_timestamp
  ta_newest_stop_durable_ts :: wt_timestamp
  ta_newest_stop_ts :: wt_timestamp
  ta_newest_txn :: wt_txnid
  ta_prepare :: bool

datatype rec_result = WT_PM_REC_REPLACE | WT_PM_REC_MULTIBLOCK | WT_PM_REC_OTHER

text \<open>
  \<^verbatim>\<open>WT_PAGE_MODIFY\<close>: the result of the last reconciliation, the time aggregate of the
  replacement address, and the time aggregates of the \<^verbatim>\<open>mod_multi_entries\<close> multi-block
  addresses.
\<close>

record wt_page_modify =
  mod_rec_result :: rec_result
  mod_replace_ta :: wt_time_aggregate
  mod_multi_ta :: "wt_time_aggregate list"

text \<open>
  \<^verbatim>\<open>ref->addr\<close>: \<^verbatim>\<open>NULL\<close>, an address cell on the parent's disk image (where
  \<^verbatim>\<open>__wt_off_page\<close> is false; the aggregate is the one \<^verbatim>\<open>__wt_cell_unpack_addr\<close> unpacks), or
  a \<^verbatim>\<open>WT_ADDR\<close> off the page with its aggregate. \<^verbatim>\<open>__wt_off_page\<close> is not among the sources;
  a \<^verbatim>\<open>NULL\<close> address does not point into a disk image, so it is off the page.
\<close>

datatype ref_addr = ADDR_NULL | ADDR_ON_PAGE wt_time_aggregate | ADDR_OFF_PAGE wt_time_aggregate

datatype ref_state = WT_REF_DISK | WT_REF_DELETED | WT_REF_LOCKED | WT_REF_MEM | WT_REF_SPLIT

text \<open>\<^verbatim>\<open>WT_PAGE_DELETED\<close>, the fast-truncate descriptor \<^verbatim>\<open>ref->ft_info.del\<close>.\<close>

record wt_page_deleted =
  del_txnid :: wt_txnid
  del_timestamp :: wt_timestamp
  del_durable_timestamp :: wt_timestamp

text \<open>
  \<^verbatim>\<open>WT_REF\<close>: its state, its fast-truncate descriptor (\<open>None\<close> is \<^verbatim>\<open>NULL\<close>), whether it has
  the flag \<^verbatim>\<open>WT_REF_FLAG_INTERNAL\<close>, the modify record of its page (\<open>None\<close> when
  \<^verbatim>\<open>ref->page\<close> or \<^verbatim>\<open>ref->page->modify\<close> is \<^verbatim>\<open>NULL\<close>) and its address.
\<close>

record wt_ref =
  ref_state :: ref_state
  ref_ft_info_del :: "wt_page_deleted option"
  ref_flag_internal :: bool
  ref_page_modify :: "wt_page_modify option"
  ref_addr :: ref_addr

definition rollback_get_ref_max_durable_timestamp ::
  "rts_env \<Rightarrow> wt_time_aggregate \<Rightarrow> wt_timestamp" where
  "rollback_get_ref_max_durable_timestamp env ta =
     (if dhandle_is_hs env then max (ta_newest_stop_durable_ts ta) (ta_newest_stop_ts ta)
      else max (ta_newest_start_durable_ts ta) (ta_newest_stop_durable_ts ta))"

text \<open>
  The loop over the multi-block addresses, from the running \<^verbatim>\<open>durable_ts\<close> and \<^verbatim>\<open>prepared\<close>
  to their values when it ends.
\<close>

fun page_needs_abort_multi ::
  "rts_env \<Rightarrow> wt_time_aggregate list \<Rightarrow> wt_timestamp \<times> bool \<Rightarrow> wt_timestamp \<times> bool" where
  "page_needs_abort_multi env [] (durable_ts, prepared) = (durable_ts, prepared)"
| "page_needs_abort_multi env (ta # multi) (durable_ts, prepared) =
     page_needs_abort_multi env multi
       (max durable_ts (rollback_get_ref_max_durable_timestamp env ta),
        if ta_prepare ta then True else prepared)"

text \<open>The two address branches (``on page cell'' and ``address''), which compute alike.\<close>

definition page_needs_abort_addr :: "rts_env \<Rightarrow> wt_time_aggregate \<Rightarrow> wt_timestamp \<Rightarrow> bool" where
  "page_needs_abort_addr env ta rollback_timestamp =
     (let durable_ts = rollback_get_ref_max_durable_timestamp env ta;
          prepared = ta_prepare ta;
          newest_txn = ta_newest_txn ta
      in rollback_timestamp < durable_ts \<or> prepared \<or> WT_CHECK_RECOVERY_FLAG_TXNID env newest_txn)"

text \<open>What the function does when the page has no replace or multi-block result.\<close>

definition page_needs_abort_by_addr :: "rts_env \<Rightarrow> wt_ref \<Rightarrow> wt_timestamp \<Rightarrow> bool" where
  "page_needs_abort_by_addr env ref rollback_timestamp =
     (case ref_addr ref of
        ADDR_ON_PAGE ta \<Rightarrow> page_needs_abort_addr env ta rollback_timestamp
      | ADDR_OFF_PAGE ta \<Rightarrow> page_needs_abort_addr env ta rollback_timestamp
      | ADDR_NULL \<Rightarrow> False)"

definition rollback_page_needs_abort :: "rts_env \<Rightarrow> wt_ref \<Rightarrow> wt_timestamp \<Rightarrow> bool" where
  "rollback_page_needs_abort env ref rollback_timestamp =
     (case ref_page_modify ref of
        None \<Rightarrow> page_needs_abort_by_addr env ref rollback_timestamp
      | Some pmod \<Rightarrow>
          if mod_rec_result pmod = WT_PM_REC_REPLACE then
            (let durable_ts = rollback_get_ref_max_durable_timestamp env (mod_replace_ta pmod);
                 prepared = ta_prepare (mod_replace_ta pmod)
             in rollback_timestamp < durable_ts \<or> prepared)
          else if mod_rec_result pmod = WT_PM_REC_MULTIBLOCK then
            (case page_needs_abort_multi env (mod_multi_ta pmod) (WT_TS_NONE, False) of
               (durable_ts, prepared) \<Rightarrow> rollback_timestamp < durable_ts \<or> prepared)
          else page_needs_abort_by_addr env ref rollback_timestamp)"

text \<open>\<^verbatim>\<open>__wt_rts_page_skip\<close>: the value it stores through \<^verbatim>\<open>skipp\<close>.\<close>

definition wt_rts_page_skip :: "rts_env \<Rightarrow> wt_ref \<Rightarrow> wt_timestamp \<Rightarrow> bool" where
  "wt_rts_page_skip env ref rollback_timestamp =
     (if ref_state ref \<noteq> WT_REF_DISK then False
      else \<not> rollback_page_needs_abort env ref rollback_timestamp)"

section \<open>Walking a tree\<close>

datatype page_type =
  WT_PAGE_COL_FIX | WT_PAGE_COL_VAR | WT_PAGE_COL_INT | WT_PAGE_ROW_INT | WT_PAGE_ROW_LEAF
  | WT_PAGE_INVALID

text \<open>
  A ref as the tree walk hands it to rollback to stable, with what the functions read
  of its page: the page's type, whether \<^verbatim>\<open>__wt_page_is_modified\<close> holds of it, and for an
  internal page its child refs (\<^verbatim>\<open>WT_INTL_FOREACH\<close>).
\<close>

record wt_walk_ref =
  walk_ref :: wt_ref
  walk_page_type :: page_type
  walk_page_is_modified :: bool
  walk_children :: "wt_ref list"

text \<open>
  The tree behind a data handle: \<^verbatim>\<open>btree->modified\<close>, whether
  \<^verbatim>\<open>__wt_btree_immediately_durable\<close> holds, whether the handle is a checkpoint handle
  (\<^verbatim>\<open>dhandle->checkpoint != NULL\<close>), and the refs of the tree in the order of the tree walk.
  A tree without refs is one whose \<^verbatim>\<open>root.page\<close> is \<^verbatim>\<open>NULL\<close>.
\<close>

record wt_btree =
  btree_modified :: bool
  btree_immediately_durable :: bool
  btree_checkpoint_handle :: bool
  btree_refs :: "wt_walk_ref list"

text \<open>\<^verbatim>\<open>WT_CONFIG_ITEM\<close>: the length and the numeric value of a configuration value.\<close>

record config_item =
  ci_len :: nat
  ci_val :: int

text \<open>
  One entry of the \<^verbatim>\<open>checkpoint=(...)\<close> list of an object's metadata: for each key the
  functions look up, the return code of \<^verbatim>\<open>__wt_config_subgets\<close> and the item it stores
  in \<^verbatim>\<open>value\<close> when it returns 0. A lookup that returns anything else leaves \<^verbatim>\<open>value\<close>
  as it was.
\<close>

record ckpt_entry =
  ck_newest_start_durable_ts :: "int \<times> config_item"
  ck_newest_stop_durable_ts :: "int \<times> config_item"
  ck_newest_stop_ts :: "int \<times> config_item"
  ck_prepare :: "int \<times> config_item"
  ck_newest_txn :: "int \<times> config_item"
  ck_addr :: "int \<times> config_item"

text \<open>
  An object's metadata value: the outcome of \<^verbatim>\<open>__wt_config_getones\<close> for \<^verbatim>\<open>checkpoint\<close>,
  the entries of that list, and the outcome of \<^verbatim>\<open>__wt_config_getones\<close> for \<^verbatim>\<open>id\<close>.
\<close>

record file_config =
  cfg_checkpoint_ret :: int
  cfg_checkpoint :: "ckpt_entry list"
  cfg_id :: "int \<times> config_item"

text \<open>
  The layers above the page functions call into code that is not among the sources.
  Their outcomes are collected here:
  \<^item> \<open>delete_page_rollback\<close>: \<^verbatim>\<open>__wt_delete_page_rollback\<close>, its return code and the ref as
    it leaves it;
  \<^item> \<open>tree_walk_ret\<close>: the return code of \<^verbatim>\<open>__wt_tree_walk_custom_skip\<close> when it moves to
    a ref it does not skip;
  \<^item> \<open>abort_leaf_page\<close>: the three leaf page functions (\<^verbatim>\<open>__rollback_abort_col_fix\<close>,
    \<^verbatim>\<open>__rollback_abort_col_var\<close>, \<^verbatim>\<open>__rollback_abort_row_leaf\<close>), which run the key
    functions above over a page for a rollback timestamp: the return code, the history
    store they leave, and
    whether they marked the page dirty (\<^verbatim>\<open>__wt_page_modify_set\<close>, which sets
    \<^verbatim>\<open>btree->modified\<close>);
  \<^item> \<open>illegal_value_ret\<close>: \<^verbatim>\<open>__wt_illegal_value\<close>;
  \<^item> \<open>conn_dhandle_find_ret\<close>, \<open>session_get_dhandle_ret\<close>: \<^verbatim>\<open>__wt_conn_dhandle_find\<close> and
    \<^verbatim>\<open>__wt_session_get_dhandle\<close> for a URI;
  \<^item> \<open>conn_data_corruption\<close>: the connection flag \<^verbatim>\<open>WT_CONN_DATA_CORRUPTION\<close>;
  \<^item> \<open>metadata_cursor_ret\<close>, \<open>metadata\<close>: \<^verbatim>\<open>__wt_metadata_cursor\<close> and the \<open>(uri, config)\<close>
    pairs the metadata cursor yields;
  \<^item> \<open>metadata_search_hs_ret\<close>, \<open>hs_config\<close>: \<^verbatim>\<open>__wt_metadata_search\<close> for the history
    store and the configuration it finds;
  \<^item> \<open>txn_activity_check_ret\<close>, \<open>txn_active\<close>: \<^verbatim>\<open>__wt_txn_activity_check\<close>;
  \<^item> \<open>cache_evict_flags\<close>: at each retry of the wait for eviction, whether the first and
    the second read of \<^verbatim>\<open>cache->flags\<close> find one of the history store eviction flags;
  \<^item> \<open>msg_ret\<close>: \<^verbatim>\<open>__wt_msg\<close>; \<open>checkpoint_ret\<close>: the forced checkpoint;
  \<^item> \<open>value_init\<close>: what the local variable \<^verbatim>\<open>value\<close> of
    \<^verbatim>\<open>__rollback_to_stable_btree_apply\<close> holds before the first lookup stores into it.
\<close>

record rts_sys =
  delete_page_rollback :: "wt_ref \<Rightarrow> int \<times> wt_ref"
  tree_walk_ret :: "wt_walk_ref \<Rightarrow> int"
  abort_leaf_page :: "wt_walk_ref \<Rightarrow> wt_timestamp \<Rightarrow> hs_store \<Rightarrow> int \<times> hs_store \<times> bool"
  illegal_value_ret :: int
  conn_dhandle_find_ret :: "string \<Rightarrow> int"
  session_get_dhandle_ret :: "string \<Rightarrow> int"
  conn_data_corruption :: bool
  metadata_cursor_ret :: int
  metadata :: "(string \<times> file_config) list"
  metadata_search_hs_ret :: int
  hs_config :: file_config
  txn_activity_check_ret :: int
  txn_active :: bool
  cache_evict_flags :: "nat \<Rightarrow> bool \<times> bool"
  msg_ret :: int
  checkpoint_ret :: int
  value_init :: config_item

subsection \<open>Internal pages: \<^verbatim>\<open>__rollback_abort_fast_truncate\<close>\<close>

text \<open>The condition under which the loop rolls a child back.\<close>

definition fast_truncate_unstable :: "wt_timestamp \<Rightarrow> wt_ref \<Rightarrow> bool" where
  "fast_truncate_unstable rollback_timestamp child_ref =
     (ref_state child_ref = WT_REF_DELETED \<and>
      (case ref_ft_info_del child_ref of
         None \<Rightarrow> False
       | Some del \<Rightarrow> rollback_timestamp < del_durable_timestamp del))"

text \<open>
  The loop over the child refs of an internal page. \<^verbatim>\<open>WT_RET\<close> returns at the first child
  whose rollback fails, with the children behind it as they were.
\<close>

fun rollback_abort_fast_truncate ::
  "rts_sys \<Rightarrow> wt_timestamp \<Rightarrow> wt_ref list \<Rightarrow> int \<times> wt_ref list" where
  "rollback_abort_fast_truncate sys rollback_timestamp [] = (0, [])"
| "rollback_abort_fast_truncate sys rollback_timestamp (child_ref # rest) =
     (if fast_truncate_unstable rollback_timestamp child_ref then
        (case delete_page_rollback sys child_ref of
           (ret, child_ref') \<Rightarrow>
             if ret \<noteq> 0 then (ret, child_ref' # rest)
             else (case rollback_abort_fast_truncate sys rollback_timestamp rest of
                     (ret', rest') \<Rightarrow> (ret', child_ref' # rest')))
      else (case rollback_abort_fast_truncate sys rollback_timestamp rest of
              (ret', rest') \<Rightarrow> (ret', child_ref # rest')))"

subsection \<open>Leaf pages: \<^verbatim>\<open>__rollback_abort_updates\<close>\<close>

text \<open>
  The function returns the return code, the history store, and whether the page was
  marked dirty. A clean page that needs no rollback is skipped; internal pages are left
  alone here.
\<close>

definition rollback_abort_updates ::
  "rts_sys \<Rightarrow> rts_env \<Rightarrow> wt_walk_ref \<Rightarrow> wt_timestamp \<Rightarrow> hs_store \<Rightarrow> int \<times> hs_store \<times> bool" where
  "rollback_abort_updates sys env r rollback_timestamp hs =
     (if \<not> walk_page_is_modified r
         \<and> \<not> rollback_page_needs_abort env (walk_ref r) rollback_timestamp
      then (0, hs, False)
      else case walk_page_type r of
             WT_PAGE_COL_FIX \<Rightarrow> abort_leaf_page sys r rollback_timestamp hs
           | WT_PAGE_COL_VAR \<Rightarrow> abort_leaf_page sys r rollback_timestamp hs
           | WT_PAGE_COL_INT \<Rightarrow> (0, hs, False)
           | WT_PAGE_ROW_INT \<Rightarrow> (0, hs, False)
           | WT_PAGE_ROW_LEAF \<Rightarrow> abort_leaf_page sys r rollback_timestamp hs
           | WT_PAGE_INVALID \<Rightarrow> (illegal_value_ret sys, hs, False))"

subsection \<open>\<^verbatim>\<open>__rollback_to_stable_btree_walk\<close> and \<^verbatim>\<open>__rollback_to_stable_btree\<close>\<close>

text \<open>
  Modelled from the spec: the tree walker of sections 4.6 and 6
  (\<^verbatim>\<open>__wt_tree_walk_custom_skip\<close> is not among the sources). It yields the refs of the tree
  in order, leaving out those for which the skip function \<^verbatim>\<open>__wt_rts_page_skip\<close> says so,
  and then \<^verbatim>\<open>NULL\<close> with return code 0; it can fail when it moves to a ref.

  The loop of \<^verbatim>\<open>__rollback_to_stable_btree_walk\<close> runs over what the walker yields. The
  arguments are the refs still ahead, the history store and \<^verbatim>\<open>btree->modified\<close>. For an
  internal ref the return code of \<^verbatim>\<open>__rollback_abort_fast_truncate\<close> is assigned to
  \<^verbatim>\<open>ret\<close> and then overwritten by the next call of the walker in the loop condition; for
  a leaf \<^verbatim>\<open>WT_RET\<close> returns an error at once.
\<close>

fun rollback_to_stable_btree_walk ::
  "rts_sys \<Rightarrow> rts_env \<Rightarrow> wt_timestamp \<Rightarrow> wt_walk_ref list \<Rightarrow> hs_store \<Rightarrow> bool
     \<Rightarrow> int \<times> wt_walk_ref list \<times> hs_store \<times> bool" where
  "rollback_to_stable_btree_walk sys env rollback_timestamp [] hs modified = (0, [], hs, modified)"
| "rollback_to_stable_btree_walk sys env rollback_timestamp (r # rest) hs modified =
     (if wt_rts_page_skip env (walk_ref r) rollback_timestamp then
        (case rollback_to_stable_btree_walk sys env rollback_timestamp rest hs modified of
           (ret, rest', hs', modified') \<Rightarrow> (ret, r # rest', hs', modified'))
      else if tree_walk_ret sys r \<noteq> 0 then (tree_walk_ret sys r, r # rest, hs, modified)
      else if ref_flag_internal (walk_ref r) then
        (case rollback_abort_fast_truncate sys rollback_timestamp (walk_children r) of
           (ret_overwritten, children') \<Rightarrow>
             (case rollback_to_stable_btree_walk sys env rollback_timestamp rest hs modified of
                (ret, rest', hs', modified') \<Rightarrow>
                  (ret, r\<lparr>walk_children := children'\<rparr> # rest', hs', modified')))
      else
        (case rollback_abort_updates sys env r rollback_timestamp hs of
           (ret, hs1, dirty) \<Rightarrow>
             if ret \<noteq> 0 then (ret, r # rest, hs1, modified \<or> dirty)
             else (case rollback_to_stable_btree_walk sys env rollback_timestamp rest hs1
                          (modified \<or> dirty) of
                     (ret', rest', hs', modified') \<Rightarrow> (ret', r # rest', hs', modified'))))"

text \<open>
  \<^verbatim>\<open>__rollback_to_stable_btree\<close> returns \<open>(ret, btree, hs)\<close>. It leaves alone a tree that
  is immediately durable, a checkpoint handle, and an empty tree.
\<close>

definition rollback_to_stable_btree ::
  "rts_sys \<Rightarrow> rts_env \<Rightarrow> wt_btree \<Rightarrow> wt_timestamp \<Rightarrow> hs_store \<Rightarrow> int \<times> wt_btree \<times> hs_store" where
  "rollback_to_stable_btree sys env btree rollback_timestamp hs =
     (if btree_immediately_durable btree then (0, btree, hs)
      else if btree_checkpoint_handle btree then (0, btree, hs)
      else if btree_refs btree = [] then (0, btree, hs)
      else case rollback_to_stable_btree_walk sys env rollback_timestamp (btree_refs btree) hs
                  (btree_modified btree) of
             (ret, refs', hs', modified') \<Rightarrow>
               (ret, btree\<lparr>btree_refs := refs', btree_modified := modified'\<rparr>, hs'))"

section \<open>One object: \<^verbatim>\<open>__rollback_to_stable_btree_apply\<close>\<close>

subsection \<open>\<^verbatim>\<open>__rollback_to_stable_btree_hs_truncate\<close>\<close>

text \<open>
  The loop over the cursor positioned by \<^verbatim>\<open>__wt_curhs_search_near_after\<close> on the first
  entry of the tree. \<open>Inl ret\<close> is \<^verbatim>\<open>goto err\<close>, \<open>Inr ret\<close> the end of the loop with the
  return code of the last cursor move.
\<close>

fun rollback_to_stable_btree_hs_truncate_loop ::
  "rts_env \<Rightarrow> hs_entry list \<Rightarrow> hs_store \<Rightarrow> (int + int) \<times> hs_store" where
  "rollback_to_stable_btree_hs_truncate_loop env [] hs = (Inr WT_NOTFOUND, hs)"
| "rollback_to_stable_btree_hs_truncate_loop env (e # es) hs =
     (if curhs_get_ret env e \<noteq> 0 then (Inl (curhs_get_ret env e), hs)
      else if curhs_remove_ret env e \<noteq> 0 then (Inl (curhs_remove_ret env e), hs)
      else rollback_to_stable_btree_hs_truncate_loop env es (curhs_remove e hs))"

definition rollback_to_stable_btree_hs_truncate ::
  "rts_env \<Rightarrow> 32 word \<Rightarrow> hs_store \<Rightarrow> int \<times> hs_store" where
  "rollback_to_stable_btree_hs_truncate env bid hs =
     (if buf_ret env \<noteq> 0 then (buf_ret env, hs)
      else if curhs_open_ret env \<noteq> 0 then (curhs_open_ret env, hs)
      else case rollback_to_stable_btree_hs_truncate_loop env (curhs_search_near_after bid hs) hs of
             (Inl ret, hs') \<Rightarrow> (ret, hs')
           | (Inr ret, hs') \<Rightarrow> (notfound_ok ret, hs'))"

subsection \<open>The checkpoint list of the object's metadata\<close>

text \<open>The local variables the loop over the checkpoint list assigns.\<close>

record ckpt_scan =
  sc_newest_start_durable_ts :: wt_timestamp
  sc_newest_stop_durable_ts :: wt_timestamp
  sc_durable_ts_found :: bool
  sc_prepared_updates :: bool
  sc_rollback_txnid :: wt_txnid
  sc_addr_size :: nat
  sc_value :: config_item

definition ckpt_scan_init :: "rts_sys \<Rightarrow> ckpt_scan" where
  "ckpt_scan_init sys =
     \<lparr> sc_newest_start_durable_ts = WT_TS_NONE, sc_newest_stop_durable_ts = WT_TS_NONE,
       sc_durable_ts_found = False, sc_prepared_updates = False,
       sc_rollback_txnid = 0, sc_addr_size = 0, sc_value = value_init sys \<rparr>"

text \<open>
  \<^verbatim>\<open>WT_RET_NOTFOUND_OK\<close> after a step that left the return code \<open>ret\<close> and the locals \<open>s\<close>:
  any return code other than 0 and \<^verbatim>\<open>WT_NOTFOUND\<close> is returned.
\<close>

definition ret_notfound_ok :: "int \<times> 'a \<Rightarrow> ('a \<Rightarrow> int + 'b) \<Rightarrow> int + 'b" where
  "ret_notfound_ok r f =
     (case r of (ret, s) \<Rightarrow> if ret \<noteq> 0 \<and> ret \<noteq> WT_NOTFOUND then Inl ret else f s)"

definition scan_newest_start_durable_ts :: "ckpt_entry \<Rightarrow> ckpt_scan \<Rightarrow> int \<times> ckpt_scan" where
  "scan_newest_start_durable_ts ck s =
     (case ck_newest_start_durable_ts ck of
        (ret, v) \<Rightarrow>
          (ret, if ret = 0
                then s\<lparr> sc_value := v,
                        sc_newest_start_durable_ts :=
                          max (sc_newest_start_durable_ts s) (word_of_int (ci_val v)),
                        sc_durable_ts_found := True \<rparr>
                else s))"

definition scan_newest_stop_durable_ts :: "ckpt_entry \<Rightarrow> ckpt_scan \<Rightarrow> int \<times> ckpt_scan" where
  "scan_newest_stop_durable_ts ck s =
     (case ck_newest_stop_durable_ts ck of
        (ret, v) \<Rightarrow>
          (ret, if ret = 0
                then s\<lparr> sc_value := v,
                        sc_newest_stop_durable_ts :=
                          max (sc_newest_stop_durable_ts s) (word_of_int (ci_val v)),
                        sc_durable_ts_found := True \<rparr>
                else s))"

definition scan_prepare :: "ckpt_entry \<Rightarrow> ckpt_scan \<Rightarrow> int \<times> ckpt_scan" where
  "scan_prepare ck s =
     (case ck_prepare ck of
        (ret, v) \<Rightarrow>
          (ret, if ret = 0
                then s\<lparr> sc_value := v,
                        sc_prepared_updates :=
                          (if ci_val v \<noteq> 0 then True else sc_prepared_updates s) \<rparr>
                else s))"

text \<open>
  The transaction id is taken from \<^verbatim>\<open>value\<close> whenever its length is not 0, whatever the
  lookup of \<^verbatim>\<open>newest_txn\<close> returned: after a lookup that found nothing, \<^verbatim>\<open>value\<close> is still
  what the last successful lookup stored.
\<close>

definition scan_newest_txn :: "ckpt_entry \<Rightarrow> ckpt_scan \<Rightarrow> int \<times> ckpt_scan" where
  "scan_newest_txn ck s =
     (case ck_newest_txn ck of
        (ret, v) \<Rightarrow>
          (let s1 = (if ret = 0 then s\<lparr> sc_value := v \<rparr> else s)
           in (ret, if ci_len (sc_value s1) \<noteq> 0
                    then s1\<lparr> sc_rollback_txnid := word_of_int (ci_val (sc_value s1)) \<rparr>
                    else s1)))"

definition scan_addr :: "ckpt_entry \<Rightarrow> ckpt_scan \<Rightarrow> int \<times> ckpt_scan" where
  "scan_addr ck s =
     (case ck_addr ck of
        (ret, v) \<Rightarrow>
          (ret, if ret = 0 then s\<lparr> sc_value := v, sc_addr_size := ci_len v \<rparr> else s))"

definition btree_apply_scan_entry :: "ckpt_entry \<Rightarrow> ckpt_scan \<Rightarrow> int + ckpt_scan" where
  "btree_apply_scan_entry ck s =
     ret_notfound_ok (scan_newest_start_durable_ts ck s) (\<lambda>s.
     ret_notfound_ok (scan_newest_stop_durable_ts ck s) (\<lambda>s.
     ret_notfound_ok (scan_prepare ck s) (\<lambda>s.
     ret_notfound_ok (scan_newest_txn ck s) (\<lambda>s.
     ret_notfound_ok (scan_addr ck s) Inr))))"

fun btree_apply_scan :: "ckpt_entry list \<Rightarrow> ckpt_scan \<Rightarrow> int + ckpt_scan" where
  "btree_apply_scan [] s = Inr s"
| "btree_apply_scan (ck # rest) s =
     (case btree_apply_scan_entry ck s of
        Inl ret \<Rightarrow> Inl ret
      | Inr s' \<Rightarrow> btree_apply_scan rest s')"

definition btree_apply_ckpt :: "rts_sys \<Rightarrow> file_config \<Rightarrow> int + ckpt_scan" where
  "btree_apply_ckpt sys config =
     (if cfg_checkpoint_ret config \<noteq> 0 then Inl (cfg_checkpoint_ret config)
      else btree_apply_scan (cfg_checkpoint config) (ckpt_scan_init sys))"

definition scan_max_durable_ts :: "ckpt_scan \<Rightarrow> wt_timestamp" where
  "scan_max_durable_ts s = max (sc_newest_start_durable_ts s) (sc_newest_stop_durable_ts s)"

subsection \<open>The state of the connection\<close>

text \<open>
  What the object driver and the top level act on: the history store, the tree behind
  each URI, the global stable and durable timestamps with their flags, the session's
  \<^verbatim>\<open>WT_SESSION_LOCKED_PASS\<close> and \<^verbatim>\<open>WT_SESSION_ROLLBACK_TO_STABLE\<close> flags, and a history
  of the calls made so far, which the code does not keep: it records the order of the
  calls of \<^verbatim>\<open>__rollback_to_stable_btree\<close> and
  \<^verbatim>\<open>__rollback_to_stable_btree_hs_truncate\<close>, of the assignment of the durable timestamp
  and of the checkpoint.
\<close>

datatype rts_event =
  EV_BTREE_RTS string
  | EV_HS_TRUNCATE "32 word"
  | EV_DURABLE_SET
  | EV_CHECKPOINT

record rts_state =
  st_hs :: hs_store
  st_btree :: "string \<Rightarrow> wt_btree"
  st_stable_timestamp :: wt_timestamp
  st_has_stable_timestamp :: bool
  st_durable_timestamp :: wt_timestamp
  st_has_durable_timestamp :: bool
  st_locked_pass :: bool
  st_rts_flag :: bool
  st_trace :: "rts_event list"

definition WT_HS_URI :: string where "WT_HS_URI = ''file:WiredTigerHS.wt''"
definition WT_METAFILE_URI :: string where "WT_METAFILE_URI = ''file:WiredTiger.wt''"

definition WT_PREFIX_MATCH :: "string \<Rightarrow> string \<Rightarrow> bool" where
  "WT_PREFIX_MATCH str pfx = (take (length pfx) str = pfx)"

subsection \<open>\<^verbatim>\<open>__rollback_to_stable_btree_apply\<close>\<close>

text \<open>The test under which the object is skipped during recovery and shutdown.\<close>

definition btree_apply_skip :: "rts_env \<Rightarrow> rts_state \<Rightarrow> ckpt_scan \<Rightarrow> bool" where
  "btree_apply_skip env st s =
     ((conn_recovering env \<or> conn_closing_timestamp env) \<and>
      (sc_addr_size s = 0 \<or>
       (st_stable_timestamp st = WT_TS_NONE \<and> scan_max_durable_ts s \<noteq> WT_TS_NONE)))"

text \<open>
  The test under which the tree is rolled back; \<open>perform_rts\<close> is the local variable of
  that name.
\<close>

definition btree_apply_process ::
  "rts_env \<Rightarrow> bool \<Rightarrow> ckpt_scan \<Rightarrow> wt_timestamp \<Rightarrow> bool" where
  "btree_apply_process env perform_rts s rollback_timestamp =
     (perform_rts \<or> rollback_timestamp < scan_max_durable_ts s \<or> sc_prepared_updates s \<or>
      \<not> sc_durable_ts_found s \<or> WT_CHECK_RECOVERY_FLAG_TXNID env (sc_rollback_txnid s))"

text \<open>
  The last statement before the label \<^verbatim>\<open>err\<close>: the truncation of the history store for
  the tree. It is reached when no tree was rolled back and when one was rolled back
  without error; \<open>dhandle_allocated\<close> tells which.
\<close>

definition btree_apply_truncate ::
  "rts_env \<Rightarrow> rts_state \<Rightarrow> string \<Rightarrow> file_config \<Rightarrow> bool \<Rightarrow> wt_timestamp \<Rightarrow> int \<times> rts_state" where
  "btree_apply_truncate env st uri config dhandle_allocated max_durable_ts =
     (if (\<not> dhandle_allocated \<or> \<not> btree_modified (st_btree st uri))
         \<and> max_durable_ts = WT_TS_NONE \<and> \<not> conn_in_memory env
      then
        (case cfg_id config of
           (ret, cval) \<Rightarrow>
             if ret \<noteq> 0 then (ret, st)
             else (case rollback_to_stable_btree_hs_truncate env (word_of_int (ci_val cval))
                          (st_hs st) of
                     (ret', hs') \<Rightarrow>
                       (ret', st\<lparr> st_hs := hs',
                                  st_trace := st_trace st
                                    @ [EV_HS_TRUNCATE (word_of_int (ci_val cval))] \<rparr>)))
      else (0, st))"

text \<open>
  The function returns the return code and the state. Releasing the data handle is
  taken not to fail.
\<close>

definition rollback_to_stable_btree_apply ::
  "rts_sys \<Rightarrow> rts_env \<Rightarrow> rts_state \<Rightarrow> string \<Rightarrow> file_config \<Rightarrow> wt_timestamp
     \<Rightarrow> int \<times> rts_state" where
  "rollback_to_stable_btree_apply sys env st uri config rollback_timestamp =
     (if \<not> WT_PREFIX_MATCH uri ''file:'' \<or> uri = WT_HS_URI \<or> uri = WT_METAFILE_URI
      then (0, st)
      else case btree_apply_ckpt sys config of
        Inl ret \<Rightarrow> (ret, st)
      | Inr s \<Rightarrow>
          if btree_apply_skip env st s then (0, st)
          else
            (let find_ret = conn_dhandle_find_ret sys uri;
                 perform_rts = (find_ret = 0 \<and> btree_modified (st_btree st uri))
             in if find_ret \<noteq> 0 \<and> find_ret \<noteq> WT_NOTFOUND then (find_ret, st)
                else if btree_apply_process env perform_rts s rollback_timestamp then
                  (if session_get_dhandle_ret sys uri \<noteq> 0
                   then (session_get_dhandle_ret sys uri, st)
                   else
                     (case rollback_to_stable_btree sys (env\<lparr> dhandle_is_hs := False \<rparr>)
                             (st_btree st uri) rollback_timestamp (st_hs st) of
                        (ret, btree', hs') \<Rightarrow>
                          (let st1 = st\<lparr> st_hs := hs',
                                         st_btree := (st_btree st)(uri := btree'),
                                         st_trace := st_trace st @ [EV_BTREE_RTS uri] \<rparr>
                           in if ret \<noteq> 0 then (ret, st1)
                              else btree_apply_truncate env st1 uri config True
                                     (scan_max_durable_ts s))))
                else btree_apply_truncate env st uri config False (scan_max_durable_ts s)))"

section \<open>All objects: \<^verbatim>\<open>__rollback_to_stable_btree_apply_all\<close>\<close>

subsection \<open>\<^verbatim>\<open>__rollback_to_stable_hs_final_pass\<close>\<close>

definition final_pass_scan_entry ::
  "ckpt_entry \<Rightarrow> wt_timestamp \<times> wt_timestamp \<Rightarrow> int + wt_timestamp \<times> wt_timestamp" where
  "final_pass_scan_entry ck acc =
     (case acc of
        (newest_stop_durable_ts, newest_stop_ts) \<Rightarrow>
          ret_notfound_ok
            (case ck_newest_stop_durable_ts ck of
               (ret, durableval) \<Rightarrow>
                 (ret, if ret = 0
                       then max newest_stop_durable_ts (word_of_int (ci_val durableval))
                       else newest_stop_durable_ts))
            (\<lambda>newest_stop_durable_ts'.
               ret_notfound_ok
                 (case ck_newest_stop_ts ck of
                    (ret, durableval) \<Rightarrow>
                      (ret, if ret = 0
                            then max newest_stop_ts (word_of_int (ci_val durableval))
                            else newest_stop_ts))
                 (\<lambda>newest_stop_ts'. Inr (newest_stop_durable_ts', newest_stop_ts'))))"

fun final_pass_scan ::
  "ckpt_entry list \<Rightarrow> wt_timestamp \<times> wt_timestamp \<Rightarrow> int + wt_timestamp \<times> wt_timestamp" where
  "final_pass_scan [] acc = Inr acc"
| "final_pass_scan (ck # rest) acc =
     (case final_pass_scan_entry ck acc of
        Inl ret \<Rightarrow> Inl ret
      | Inr acc' \<Rightarrow> final_pass_scan rest acc')"

definition rollback_to_stable_hs_final_pass ::
  "rts_sys \<Rightarrow> rts_env \<Rightarrow> rts_state \<Rightarrow> wt_timestamp \<Rightarrow> int \<times> rts_state" where
  "rollback_to_stable_hs_final_pass sys env st rollback_timestamp =
     (if metadata_search_hs_ret sys \<noteq> 0 then (metadata_search_hs_ret sys, st)
      else if cfg_checkpoint_ret (hs_config sys) \<noteq> 0
      then (cfg_checkpoint_ret (hs_config sys), st)
      else case final_pass_scan (cfg_checkpoint (hs_config sys)) (WT_TS_NONE, WT_TS_NONE) of
        Inl ret \<Rightarrow> (ret, st)
      | Inr (newest_stop_durable_ts, newest_stop_ts) \<Rightarrow>
          (let max_durable_ts = max newest_stop_ts newest_stop_durable_ts
           in if session_get_dhandle_ret sys WT_HS_URI \<noteq> 0
              then (session_get_dhandle_ret sys WT_HS_URI, st)
              else if rollback_timestamp < max_durable_ts then
                (case rollback_to_stable_btree sys (env\<lparr> dhandle_is_hs := True \<rparr>)
                        (st_btree st WT_HS_URI) rollback_timestamp (st_hs st) of
                   (ret, btree', hs') \<Rightarrow>
                     (ret, st\<lparr> st_hs := hs',
                               st_btree := (st_btree st)(WT_HS_URI := btree'),
                               st_trace := st_trace st @ [EV_BTREE_RTS WT_HS_URI] \<rparr>))
              else (0, st)))"

subsection \<open>\<^verbatim>\<open>__rollback_to_stable_btree_apply_all\<close>\<close>

text \<open>
  The loop over the metadata cursor. Failures \<^verbatim>\<open>ENOENT\<close>, and \<^verbatim>\<open>WT_ERROR\<close> when the
  connection has seen data corruption, are passed over; reading the key and the value
  from the cursor is taken not to fail.
\<close>

fun rollback_to_stable_btree_apply_all_loop ::
  "rts_sys \<Rightarrow> rts_env \<Rightarrow> wt_timestamp \<Rightarrow> (string \<times> file_config) list \<Rightarrow> rts_state
     \<Rightarrow> int \<times> rts_state" where
  "rollback_to_stable_btree_apply_all_loop sys env rollback_timestamp [] st = (0, st)"
| "rollback_to_stable_btree_apply_all_loop sys env rollback_timestamp ((uri, config) # rest) st =
     (case rollback_to_stable_btree_apply sys env st uri config rollback_timestamp of
        (ret, st') \<Rightarrow>
          if ret = ENOENT \<or> (ret = WT_ERROR \<and> conn_data_corruption sys)
          then rollback_to_stable_btree_apply_all_loop sys env rollback_timestamp rest st'
          else if ret \<noteq> 0 then (ret, st')
          else rollback_to_stable_btree_apply_all_loop sys env rollback_timestamp rest st')"

definition rollback_to_stable_btree_apply_all ::
  "rts_sys \<Rightarrow> rts_env \<Rightarrow> rts_state \<Rightarrow> wt_timestamp \<Rightarrow> int \<times> rts_state" where
  "rollback_to_stable_btree_apply_all sys env st rollback_timestamp =
     (if metadata_cursor_ret sys \<noteq> 0 then (metadata_cursor_ret sys, st)
      else case rollback_to_stable_btree_apply_all_loop sys env rollback_timestamp
                  (metadata sys) st of
        (ret, st') \<Rightarrow>
          if ret \<noteq> 0 then (ret, st')
          else if conn_recovering env
          then rollback_to_stable_hs_final_pass sys env st' rollback_timestamp
          else (0, st'))"

section \<open>The top level: \<^verbatim>\<open>__rollback_to_stable\<close>\<close>

definition WT_RTS_EVICT_MAX_RETRIES :: nat where
  "WT_RTS_EVICT_MAX_RETRIES = 2 * 60 * 1000"

text \<open>
  The wait for eviction to quiesce. The result is the value of \<^verbatim>\<open>retries\<close> when the loop
  is left and whether the session then holds the pass lock.
\<close>

function evict_quiesce :: "rts_sys \<Rightarrow> rts_env \<Rightarrow> nat \<Rightarrow> nat \<times> bool" where
  "evict_quiesce sys env retries =
     (if retries < WT_RTS_EVICT_MAX_RETRIES then
        (if conn_closing_timestamp env \<or> conn_in_memory env then (retries, False)
         else if \<not> fst (cache_evict_flags sys retries) then
           (if \<not> snd (cache_evict_flags sys retries) then (retries, True)
            else evict_quiesce sys env (Suc retries))
         else evict_quiesce sys env (Suc retries))
      else (retries, False))"
  by pat_completeness auto
termination
  by (relation "measure (\<lambda>(sys, env, retries). WT_RTS_EVICT_MAX_RETRIES - retries)") auto

declare evict_quiesce.simps [simp del]

definition rollback_to_stable_check :: "rts_sys \<Rightarrow> int" where
  "rollback_to_stable_check sys =
     (if txn_activity_check_ret sys = 0 \<and> txn_active sys then EINVAL
      else txn_activity_check_ret sys)"

text \<open>
  The label \<^verbatim>\<open>err\<close>: the pass lock is released if it is held and the session flag is
  cleared.
\<close>

definition rollback_to_stable_err :: "int \<Rightarrow> rts_state \<Rightarrow> int \<times> rts_state" where
  "rollback_to_stable_err ret st = (ret, st\<lparr> st_locked_pass := False, st_rts_flag := False \<rparr>)"

definition rollback_to_stable :: "rts_sys \<Rightarrow> rts_env \<Rightarrow> rts_state \<Rightarrow> bool \<Rightarrow> int \<times> rts_state" where
  "rollback_to_stable sys env st no_ckpt =
     (case evict_quiesce sys env 0 of
        (retries, locked) \<Rightarrow>
          (let st0 = st\<lparr> st_locked_pass := locked \<rparr>
           in if retries = WT_RTS_EVICT_MAX_RETRIES \<and> msg_ret sys \<noteq> 0
              then rollback_to_stable_err (msg_ret sys) st0
              else
                (let st1 = st0\<lparr> st_rts_flag := True \<rparr>
                 in if rollback_to_stable_check sys \<noteq> 0
                    then rollback_to_stable_err (rollback_to_stable_check sys) st1
                    else
                      (let st2 = st1\<lparr> st_locked_pass := False \<rparr>;
                           rollback_timestamp = st_stable_timestamp st2
                       in case rollback_to_stable_btree_apply_all sys env st2 rollback_timestamp of
                            (ret, st3) \<Rightarrow>
                              if ret \<noteq> 0 then rollback_to_stable_err ret st3
                              else
                                (let st4 = st3\<lparr> st_has_durable_timestamp :=
                                                  st_has_stable_timestamp st3,
                                                st_durable_timestamp := st_stable_timestamp st3,
                                                st_trace := st_trace st3 @ [EV_DURABLE_SET] \<rparr>
                                 in if \<not> conn_in_memory env \<and> \<not> no_ckpt
                                    then rollback_to_stable_err (checkpoint_ret sys)
                                           (st4\<lparr> st_trace := st_trace st4 @ [EV_CHECKPOINT] \<rparr>)
                                    else rollback_to_stable_err 0 st4)))))"

section \<open>Vocabulary of the specification\<close>

text \<open>
  The words of the specification's section 4.3, for stating what the chain editor does:
  an update is unstable when its durable timestamp is after the stable timestamp or it is
  prepared and unresolved; a stable update is one that is neither aborted nor unstable.
\<close>

definition upd_unstable :: "wt_timestamp \<Rightarrow> wt_update \<Rightarrow> bool" where
  "upd_unstable T upd = (T < upd_durable_ts upd \<or> upd_prepare_state upd = WT_PREPARE_INPROGRESS)"

definition upd_is_stable :: "wt_timestamp \<Rightarrow> wt_update \<Rightarrow> bool" where
  "upd_is_stable T upd = (upd_txnid upd \<noteq> WT_TXN_ABORTED \<and> \<not> upd_unstable T upd)"

text \<open>The position of the first stable update of a chain; the chain's length when it has none.\<close>

definition first_stable :: "wt_timestamp \<Rightarrow> upd_chain \<Rightarrow> nat" where
  "first_stable T chain = length (takeWhile (\<lambda>upd. \<not> upd_is_stable T upd) chain)"

text \<open>The part of a chain before its first stable update, after the editor has walked it.\<close>

definition chain_walked :: "wt_timestamp \<Rightarrow> upd_chain \<Rightarrow> upd_chain" where
  "chain_walked T chain =
     map (\<lambda>upd. if upd_txnid upd = WT_TXN_ABORTED then upd else upd_abort upd)
       (takeWhile (\<lambda>upd. \<not> upd_is_stable T upd) chain)"

text \<open>
  The anchor timestamp in the words of section 4.3: none when the chain has no stable
  update or the stable update does not carry the \<open>HS\<close> flag; for a stable tombstone the
  start timestamp of the next update that is not aborted, or the tombstone's own when
  there is none; else the stable update's start timestamp.
\<close>

definition rts_anchor_ts :: "wt_timestamp \<Rightarrow> upd_chain \<Rightarrow> wt_timestamp option" where
  "rts_anchor_ts T chain =
     (case dropWhile (\<lambda>upd. \<not> upd_is_stable T upd) chain of
        [] \<Rightarrow> None
      | stable_upd # rest \<Rightarrow>
          if WT_UPDATE_HS \<notin> upd_flags stable_upd then None
          else if upd_type stable_upd = WT_UPDATE_TOMBSTONE then
            (case dropWhile (\<lambda>upd. upd_txnid upd = WT_TXN_ABORTED) rest of
               [] \<Rightarrow> Some (upd_start_ts stable_upd)
             | successor # others \<Rightarrow> Some (upd_start_ts successor))
          else Some (upd_start_ts stable_upd))"

text \<open>No call into the history store cursor layer fails, nor a buffer call.\<close>

definition hs_no_faults :: "rts_env \<Rightarrow> bool" where
  "hs_no_faults env =
     (buf_ret env = 0 \<and> curhs_open_ret env = 0 \<and>
      (\<forall>e. curhs_get_ret env e = 0) \<and> (\<forall>e. curhs_remove_ret env e = 0))"

text \<open>
  The words of section 4.4 for the scan of the key fixer: a history store record is
  stable when its start transaction is visible and its durable timestamp is at or before
  the stable timestamp; it carries a stable tombstone when its stop transaction is
  visible and its stop durable timestamp is at or before the stable timestamp; and
  applying a record to \<open>full_value\<close> applies a modify as a delta and lets any other record
  replace the value, but only if the record starts at or before the on-disk cell or the
  cell is prepared.
\<close>

definition hs_entry_stable :: "rts_env \<Rightarrow> wt_timestamp \<Rightarrow> hs_entry \<Rightarrow> bool" where
  "hs_entry_stable env T e =
     (rollback_txn_visible_id env (tw_start_txn (hs_tw e)) \<and> hs_durable_ts e \<le> T)"

definition hs_tombstone_stable :: "rts_env \<Rightarrow> wt_timestamp \<Rightarrow> hs_entry \<Rightarrow> bool" where
  "hs_tombstone_stable env T e =
     (rollback_txn_visible_id env (tw_stop_txn (hs_tw e)) \<and> hs_stop_durable_ts e \<le> T)"

definition hs_apply :: "rts_env \<Rightarrow> wt_time_window \<Rightarrow> wt_item \<Rightarrow> hs_entry \<Rightarrow> wt_item" where
  "hs_apply env tw full_value e =
     (if hs_start_ts e \<le> tw_start_ts tw \<or> tw_prepare tw then
        (if hs_type e = WT_UPDATE_MODIFY then modify_apply_item env full_value (hs_value e)
         else hs_value e)
      else full_value)"

text \<open>
  The records the scan examines without stopping, and the value it has built when it
  ends: every record up to and including the first stable one is applied, in the
  cursor's order.
\<close>

definition hs_unstable_prefix :: "rts_env \<Rightarrow> wt_timestamp \<Rightarrow> hs_entry list \<Rightarrow> hs_entry list" where
  "hs_unstable_prefix env T vs = takeWhile (\<lambda>e. \<not> hs_entry_stable env T e) vs"

definition hs_full_value ::
  "rts_env \<Rightarrow> wt_time_window \<Rightarrow> wt_timestamp \<Rightarrow> hs_entry list \<Rightarrow> wt_item \<Rightarrow> wt_item" where
  "hs_full_value env tw T vs v =
     foldl (hs_apply env tw) v (take (Suc (length (hs_unstable_prefix env T vs))) vs)"

text \<open>No call the fixer functions make fails.\<close>

definition rts_no_faults :: "rts_env \<Rightarrow> bool" where
  "rts_no_faults env =
     (hs_no_faults env \<and> upd_alloc_ret env = 0 \<and> page_modify_init_ret env = 0 \<and>
      update_serial_ret env = 0 \<and> col_modify_ret env = 0)"

text \<open>
  The first two rows of the decision table of section 4.4: the on-disk cell of a data
  store key for which the fixer consults the history store.
\<close>

definition ondisk_needs_fixup :: "rts_env \<Rightarrow> wt_timestamp \<Rightarrow> wt_time_window \<Rightarrow> bool" where
  "ondisk_needs_fixup env T tw =
     (T < tw_durable_start_ts tw \<or> \<not> rollback_txn_visible_id env (tw_start_txn tw)
      \<or> (\<not> WT_TIME_WINDOW_HAS_STOP tw \<and> tw_prepare tw)
      \<or> (WT_TIME_WINDOW_HAS_STOP tw
          \<and> (T < tw_durable_stop_ts tw \<or> \<not> rollback_txn_visible_id env (tw_stop_txn tw)
              \<or> tw_prepare tw)
          \<and> tw_start_ts tw = tw_stop_ts tw \<and> tw_durable_start_ts tw = tw_durable_stop_ts tw
          \<and> tw_start_txn tw = tw_stop_txn tw))"

text \<open>
  The words of section 4.6 for \<^verbatim>\<open>__rollback_page_needs_abort\<close>: the time aggregate the
  function selects, in priority order.
\<close>

datatype selected_aggregate =
  SEL_REPLACE wt_time_aggregate
  | SEL_MULTI "wt_time_aggregate list"
  | SEL_ON_PAGE wt_time_aggregate
  | SEL_OFF_PAGE wt_time_aggregate
  | SEL_NONE

definition ref_addr_aggregate :: "wt_ref \<Rightarrow> selected_aggregate" where
  "ref_addr_aggregate ref =
     (case ref_addr ref of
        ADDR_ON_PAGE ta \<Rightarrow> SEL_ON_PAGE ta
      | ADDR_OFF_PAGE ta \<Rightarrow> SEL_OFF_PAGE ta
      | ADDR_NULL \<Rightarrow> SEL_NONE)"

definition ref_selected_aggregate :: "wt_ref \<Rightarrow> selected_aggregate" where
  "ref_selected_aggregate ref =
     (case ref_page_modify ref of
        None \<Rightarrow> ref_addr_aggregate ref
      | Some pmod \<Rightarrow>
          if mod_rec_result pmod = WT_PM_REC_REPLACE then SEL_REPLACE (mod_replace_ta pmod)
          else if mod_rec_result pmod = WT_PM_REC_MULTIBLOCK then SEL_MULTI (mod_multi_ta pmod)
          else ref_addr_aggregate ref)"

text \<open>
  The answer as the specification words it, the same three-way disjunction for whichever
  aggregate is selected: \<open>D > T\<close>, or prepared, or recovery is active and \<open>newest_txn\<close> is
  at or after the recovered checkpoint's snapshot minimum.
\<close>

definition ta_needs_abort_claimed :: "rts_env \<Rightarrow> wt_timestamp \<Rightarrow> wt_time_aggregate \<Rightarrow> bool" where
  "ta_needs_abort_claimed env T ta =
     (T < rollback_get_ref_max_durable_timestamp env ta \<or> ta_prepare ta
      \<or> (conn_recovering env \<and> recovery_ckpt_snap_min env \<le> ta_newest_txn ta))"

definition page_needs_abort_claimed :: "rts_env \<Rightarrow> wt_ref \<Rightarrow> wt_timestamp \<Rightarrow> bool" where
  "page_needs_abort_claimed env ref T =
     (case ref_selected_aggregate ref of
        SEL_REPLACE ta \<Rightarrow> ta_needs_abort_claimed env T ta
      | SEL_MULTI tas \<Rightarrow> (\<exists>ta\<in>set tas. ta_needs_abort_claimed env T ta)
      | SEL_ON_PAGE ta \<Rightarrow> ta_needs_abort_claimed env T ta
      | SEL_OFF_PAGE ta \<Rightarrow> ta_needs_abort_claimed env T ta
      | SEL_NONE \<Rightarrow> False)"

text \<open>
  The calls one run adds to the history of calls: what the state after the run records
  beyond the state before it.
\<close>

definition new_events :: "rts_state \<Rightarrow> rts_state \<Rightarrow> rts_event list" where
  "new_events st st' = drop (length (st_trace st)) (st_trace st')"

text \<open>
  The words of section 4.7 for one catalog object. The object is a file other than the
  metadata and the history store; the decision of step 4 to process it; and the
  \<open>id\<close> of its metadata, which is the tree's id in the history store.
\<close>

definition catalog_file :: "string \<Rightarrow> bool" where
  "catalog_file uri =
     (WT_PREFIX_MATCH uri ''file:'' \<and> uri \<noteq> WT_HS_URI \<and> uri \<noteq> WT_METAFILE_URI)"

definition decides_to_process ::
  "rts_sys \<Rightarrow> rts_env \<Rightarrow> rts_state \<Rightarrow> string \<Rightarrow> ckpt_scan \<Rightarrow> wt_timestamp \<Rightarrow> bool" where
  "decides_to_process sys env st uri s T =
     ((conn_dhandle_find_ret sys uri = 0 \<and> btree_modified (st_btree st uri))
      \<or> T < scan_max_durable_ts s \<or> sc_prepared_updates s \<or> \<not> sc_durable_ts_found s
      \<or> WT_CHECK_RECOVERY_FLAG_TXNID env (sc_rollback_txnid s))"

definition config_btree_id :: "file_config \<Rightarrow> 32 word" where
  "config_btree_id config = word_of_int (ci_val (snd (cfg_id config)))"

text \<open>
  The words of section 4.8: the per-object rollback work is the calls that roll a tree
  back and that truncate the history store of a tree.
\<close>

fun is_object_work :: "rts_event \<Rightarrow> bool" where
  "is_object_work (EV_BTREE_RTS uri) = True"
| "is_object_work (EV_HS_TRUNCATE bid) = True"
| "is_object_work EV_DURABLE_SET = False"
| "is_object_work EV_CHECKPOINT = False"

text \<open>
  A step from \<open>st\<close> to \<open>st'\<close> that does per-object work only: the history of calls grows
  by such calls, and the global timestamps and their flags are untouched.
\<close>

definition object_work_only :: "rts_state \<Rightarrow> rts_state \<Rightarrow> bool" where
  "object_work_only st st' =
     (take (length (st_trace st)) (st_trace st') = st_trace st
      \<and> list_all is_object_work (new_events st st')
      \<and> st_stable_timestamp st' = st_stable_timestamp st
      \<and> st_has_stable_timestamp st' = st_has_stable_timestamp st
      \<and> st_durable_timestamp st' = st_durable_timestamp st
      \<and> st_has_durable_timestamp st' = st_has_durable_timestamp st)"







section \<open>Example inputs\<close>

text \<open>
  A connection outside recovery with a working history store, B-tree 7. The chain of key
  \<open>k\<close>: an update at 150, a tombstone at 90 and a value at 80 that both have a copy in
  the history store, and an older update with a late durable timestamp. The history
  store holds versions of \<open>k\<close> at 50, 80, 90 and 120.
\<close>

definition ex_env :: rts_env where
  "ex_env = \<lparr>conn_recovering = False, conn_in_memory = False, conn_closing_timestamp = False,
     recovery_ckpt_snap_min = 0, recovery_ckpt_snap_max = 0, recovery_ckpt_snapshot = [],
     dhandle_is_hs = False, btree_id = 7, buf_ret = 0, curhs_open_ret = 0,
     curhs_get_ret = (\<lambda>e. 0), curhs_remove_ret = (\<lambda>e. 0), upd_alloc_ret = 0,
     page_modify_init_ret = 0, update_serial_ret = 0, col_modify_ret = 0,
     modify_apply_item = (\<lambda>b d. b @ d)\<rparr>"

definition ex_upd :: "wt_txnid \<Rightarrow> wt_timestamp \<Rightarrow> upd_type \<Rightarrow> upd_flag set \<Rightarrow> wt_update" where
  "ex_upd t d ty fl = \<lparr>upd_txnid = t, upd_durable_ts = d, upd_start_ts = d,
     upd_prepare_state = WT_PREPARE_INIT, upd_type = ty, upd_flags = fl, upd_data = ''v''\<rparr>"

definition ex_hs_entry :: "wt_timestamp \<Rightarrow> hs_entry" where
  "ex_hs_entry t = \<lparr>hs_btree_id = 7, hs_key = ''k'', hs_start_ts = t, hs_counter = 0,
     hs_stop_durable_ts = t + 10, hs_durable_ts = t, hs_type = WT_UPDATE_STANDARD,
     hs_value = ''old'',
     hs_tw = \<lparr>tw_start_ts = t, tw_durable_start_ts = t, tw_start_txn = 1, tw_stop_ts = t + 10,
              tw_durable_stop_ts = t + 10, tw_stop_txn = 2, tw_prepare = False\<rparr>\<rparr>"

definition ex_chain :: upd_chain where
  "ex_chain = [ex_upd 5 150 WT_UPDATE_STANDARD {}, ex_upd 4 90 WT_UPDATE_TOMBSTONE {WT_UPDATE_HS},
               ex_upd 3 80 WT_UPDATE_STANDARD {WT_UPDATE_HS}, ex_upd 2 200 WT_UPDATE_STANDARD {}]"

definition ex_chain_after :: upd_chain where
  "ex_chain_after =
     [\<lparr>upd_txnid = WT_TXN_ABORTED, upd_durable_ts = 0, upd_start_ts = 0,
       upd_prepare_state = WT_PREPARE_INIT, upd_type = WT_UPDATE_STANDARD, upd_flags = {},
       upd_data = ''v''\<rparr>,
      ex_upd 4 90 WT_UPDATE_TOMBSTONE {},
      ex_upd 3 80 WT_UPDATE_STANDARD {}, ex_upd 2 200 WT_UPDATE_STANDARD {}]"

text \<open>
  A chain of two updates that both carry the \<open>HS\<close> flag, written at 150 and at 80, and
  what the editor leaves of it for stable timestamp 100.
\<close>

definition ex_chain_hs :: upd_chain where
  "ex_chain_hs = [ex_upd 5 150 WT_UPDATE_STANDARD {WT_UPDATE_HS},
                  ex_upd 3 80 WT_UPDATE_STANDARD {WT_UPDATE_HS}]"

definition ex_chain_hs_after :: upd_chain where
  "ex_chain_hs_after =
     [\<lparr>upd_txnid = WT_TXN_ABORTED, upd_durable_ts = 0, upd_start_ts = 0,
       upd_prepare_state = WT_PREPARE_INIT, upd_type = WT_UPDATE_STANDARD,
       upd_flags = {WT_UPDATE_HS}, upd_data = ''v''\<rparr>,
      \<lparr>upd_txnid = 3, upd_durable_ts = 80, upd_start_ts = 80,
       upd_prepare_state = WT_PREPARE_INIT, upd_type = WT_UPDATE_STANDARD,
       upd_flags = {}, upd_data = ''v''\<rparr>]"

definition ex_hs :: hs_store where
  "ex_hs = [ex_hs_entry 50, ex_hs_entry 80, ex_hs_entry 90, ex_hs_entry 120]"

text \<open>
  A row-store key \<open>k\<close> whose on-disk value \<open>v3\<close> was written at 150, after the stable
  timestamp 100, and a history store for it: a version at 200, a full value \<open>new\<close> at 120,
  a modify \<open>+d\<close> at 90 that was stopped at 100, and an older version at 50.
\<close>

definition ex_key :: ondisk_key where
  "ex_key = \<lparr>key_is_row = True, key_item = ''k'',
     key_tw = \<lparr>tw_start_ts = 150, tw_durable_start_ts = 150, tw_start_txn = 9,
               tw_stop_ts = WT_TS_MAX, tw_durable_stop_ts = WT_TS_NONE, tw_stop_txn = WT_TXN_MAX,
               tw_prepare = False\<rparr>,
     key_value = ''v3'', key_upd = []\<rparr>"

definition ex_hs_modify :: hs_store where
  "ex_hs_modify =
     [ex_hs_entry 50, (ex_hs_entry 90)\<lparr>hs_type := WT_UPDATE_MODIFY, hs_value := ''+d''\<rparr>,
      (ex_hs_entry 120)\<lparr>hs_value := ''new''\<rparr>, ex_hs_entry 200]"

text \<open>
  A key whose on-disk value \<open>v1\<close> was written at 80 and removed at 150, after the stable
  timestamp 100.
\<close>

definition ex_key_removed :: ondisk_key where
  "ex_key_removed = \<lparr>key_is_row = True, key_item = ''k'',
     key_tw = \<lparr>tw_start_ts = 80, tw_durable_start_ts = 80, tw_start_txn = 3,
               tw_stop_ts = 150, tw_durable_stop_ts = 150, tw_stop_txn = 9,
               tw_prepare = False\<rparr>,
     key_value = ''v1'', key_upd = []\<rparr>"

text \<open>
  A connection in recovery whose recovered checkpoint has the snapshot minimum 50, and a
  ref whose page was reconciled to a replacement block with newest durable timestamps 90
  and 80, nothing prepared, and the newest transaction 60.
\<close>

definition ex_env_recovering :: rts_env where
  "ex_env_recovering = ex_env\<lparr>conn_recovering := True, recovery_ckpt_snap_min := 50,
     recovery_ckpt_snap_max := 100\<rparr>"

definition ex_ta :: wt_time_aggregate where
  "ex_ta = \<lparr>ta_newest_start_durable_ts = 90, ta_newest_stop_durable_ts = 80,
     ta_newest_stop_ts = 80, ta_newest_txn = 60, ta_prepare = False\<rparr>"

definition ex_ref_replace :: wt_ref where
  "ex_ref_replace = \<lparr>ref_state = WT_REF_MEM, ref_ft_info_del = None, ref_flag_internal = False,
     ref_page_modify = Some \<lparr>mod_rec_result = WT_PM_REC_REPLACE, mod_replace_ta = ex_ta,
                             mod_multi_ta = []\<rparr>,
     ref_addr = ADDR_NULL\<rparr>"

text \<open>
  The same time aggregate behind an on-page address cell and behind an off-page address
  of a ref whose page has no reconciliation result.
\<close>

definition ex_ref_on_page :: wt_ref where
  "ex_ref_on_page = \<lparr>ref_state = WT_REF_DISK, ref_ft_info_del = None, ref_flag_internal = False,
     ref_page_modify = None, ref_addr = ADDR_ON_PAGE ex_ta\<rparr>"

definition ex_ref_off_page :: wt_ref where
  "ex_ref_off_page = \<lparr>ref_state = WT_REF_DISK, ref_ft_info_del = None, ref_flag_internal = False,
     ref_page_modify = None, ref_addr = ADDR_OFF_PAGE ex_ta\<rparr>"

text \<open>
  Collaborators that do not fail: rolling a fast truncate back puts the ref on disk and
  drops its descriptor, the leaf page functions leave everything as it is, no data
  handle is cached, and the catalog holds one object.
\<close>

definition ex_ckpt_none :: "int \<times> config_item" where
  "ex_ckpt_none = (WT_NOTFOUND, \<lparr> ci_len = 0, ci_val = 0 \<rparr>)"

definition ex_ckpt_num :: "int \<Rightarrow> int \<times> config_item" where
  "ex_ckpt_num n = (0, \<lparr> ci_len = 1, ci_val = n \<rparr>)"

text \<open>A checkpoint of an object that records no durable timestamp at all.\<close>

definition ex_config :: file_config where
  "ex_config =
     \<lparr> cfg_checkpoint_ret = 0,
       cfg_checkpoint =
         [\<lparr> ck_newest_start_durable_ts = ex_ckpt_none, ck_newest_stop_durable_ts = ex_ckpt_none,
            ck_newest_stop_ts = ex_ckpt_none, ck_prepare = ex_ckpt_none,
            ck_newest_txn = ex_ckpt_none, ck_addr = ex_ckpt_num 1 \<rparr>],
       cfg_id = ex_ckpt_num 7 \<rparr>"


definition ex_sys :: rts_sys where
  "ex_sys =
     \<lparr> delete_page_rollback = (\<lambda>r. (0, r\<lparr> ref_state := WT_REF_DISK, ref_ft_info_del := None \<rparr>)),
       tree_walk_ret = (\<lambda>r. 0),
       abort_leaf_page = (\<lambda>r rollback_timestamp hs. (0, hs, False)),
       illegal_value_ret = EINVAL,
       conn_dhandle_find_ret = (\<lambda>uri. WT_NOTFOUND),
       session_get_dhandle_ret = (\<lambda>uri. 0),
       conn_data_corruption = False,
       metadata_cursor_ret = 0,
       metadata = [(''file:t.wt'', ex_config)],
       metadata_search_hs_ret = 0,
       hs_config = ex_config,
       txn_activity_check_ret = 0,
       txn_active = False,
       cache_evict_flags = (\<lambda>retries. (False, False)),
       msg_ret = 0,
       checkpoint_ret = 0,
       value_init = \<lparr> ci_len = 0, ci_val = 0 \<rparr> \<rparr>"

text \<open>
  A child ref in the deleted state whose fast truncate has durable timestamp \<open>t\<close>, the
  ref of an internal page, and a tree of one internal page with two such children, at
  130 and at 90.
\<close>

definition ex_child :: "wt_timestamp \<Rightarrow> wt_ref" where
  "ex_child t =
     \<lparr> ref_state = WT_REF_DELETED,
       ref_ft_info_del = Some \<lparr> del_txnid = 5, del_timestamp = t, del_durable_timestamp = t \<rparr>,
       ref_flag_internal = False, ref_page_modify = None, ref_addr = ADDR_NULL \<rparr>"

definition ex_children :: "wt_ref list" where
  "ex_children = [ex_child 130, ex_child 90]"

definition ex_internal :: wt_walk_ref where
  "ex_internal =
     \<lparr> walk_ref = \<lparr> ref_state = WT_REF_MEM, ref_ft_info_del = None, ref_flag_internal = True,
                    ref_page_modify = None, ref_addr = ADDR_NULL \<rparr>,
       walk_page_type = WT_PAGE_ROW_INT, walk_page_is_modified = False,
       walk_children = ex_children \<rparr>"

definition ex_btree :: wt_btree where
  "ex_btree =
     \<lparr> btree_modified = False, btree_immediately_durable = False,
       btree_checkpoint_handle = False, btree_refs = [ex_internal] \<rparr>"

text \<open>
  A connection whose stable timestamp is 100 and whose durable timestamp is 150, with
  the history store of the examples above (its records belong to tree 7).
\<close>

definition ex_state :: rts_state where
  "ex_state =
     \<lparr> st_hs = ex_hs, st_btree = (\<lambda>uri. ex_btree),
       st_stable_timestamp = 100, st_has_stable_timestamp = True,
       st_durable_timestamp = 150, st_has_durable_timestamp = True,
       st_locked_pass = False, st_rts_flag = False, st_trace = [] \<rparr>"




text \<open>
  A checkpoint of an object without timestamps: its durable timestamps are recorded and
  are 0.
\<close>

definition ex_config_zero :: file_config where
  "ex_config_zero =
     \<lparr> cfg_checkpoint_ret = 0,
       cfg_checkpoint =
         [\<lparr> ck_newest_start_durable_ts = ex_ckpt_num 0, ck_newest_stop_durable_ts = ex_ckpt_num 0,
            ck_newest_stop_ts = ex_ckpt_num 0, ck_prepare = ex_ckpt_num 0,
            ck_newest_txn = ex_ckpt_num 5, ck_addr = ex_ckpt_num 1 \<rparr>],
       cfg_id = ex_ckpt_num 7 \<rparr>"

text \<open>What the loop over that checkpoint leaves in the local variables.\<close>

definition ex_scan_zero :: ckpt_scan where
  "ex_scan_zero =
     \<lparr> sc_newest_start_durable_ts = 0, sc_newest_stop_durable_ts = 0,
       sc_durable_ts_found = True, sc_prepared_updates = False,
       sc_rollback_txnid = 5, sc_addr_size = 1, sc_value = \<lparr> ci_len = 1, ci_val = 1 \<rparr> \<rparr>"



section \<open>Properties of the history store deletion\<close>

lemmas ex_defs = ex_env_def ex_upd_def ex_hs_entry_def ex_chain_def ex_chain_after_def ex_hs_def
  ex_key_def ex_hs_modify_def ex_key_removed_def ex_env_recovering_def ex_ta_def
  ex_ref_replace_def

lemma delete_hs_loop_no_faults:
  "\<forall>e. curhs_get_ret env e = 0 \<Longrightarrow> \<forall>e. curhs_remove_ret env e = 0 \<Longrightarrow>
   rollback_delete_hs_loop env ts vs hs =
     (Inr (if \<exists>e\<in>set vs. hs_start_ts e < ts then 0 else WT_NOTFOUND),
      fold curhs_remove (takeWhile (\<lambda>e. \<not> hs_start_ts e < ts) vs) hs)"
  by (induction vs arbitrary: hs) auto

lemma mset_fold_curhs_remove:
  "mset (fold curhs_remove xs hs) = mset hs - mset xs"
  by (induction xs arbitrary: hs) (auto simp: curhs_remove_def)

text \<open>The cursor yields a key's versions newest first.\<close>

lemma search_before_desc:
  "sorted_wrt (\<lambda>a b. hs_start_ts b \<le> hs_start_ts a) (curhs_search_near_before bid key hs)"
proof -
  let ?k = "\<lambda>e. (hs_start_ts e, hs_counter e)"
  let ?xs = "sort_key ?k (filter (\<lambda>e. hs_btree_id e = bid \<and> hs_key e = key) hs)"
  have "sorted (map ?k ?xs)" by simp
  then have "sorted_wrt (\<lambda>a b. ?k a \<le> ?k b) ?xs"
    by (simp add: sorted_map)
  then have "sorted_wrt (\<lambda>a b. hs_start_ts a \<le> hs_start_ts b) ?xs"
    by (rule sorted_wrt_mono_rel[rotated]) (auto simp: less_eq_prod_def)
  then show ?thesis
    by (simp add: curhs_search_near_before_def sorted_wrt_rev)
qed

lemma takeWhile_desc_filter:
  "sorted_wrt (\<lambda>a b. hs_start_ts b \<le> hs_start_ts a) vs \<Longrightarrow>
   takeWhile (\<lambda>e. \<not> hs_start_ts e < ts) vs = filter (\<lambda>e. \<not> hs_start_ts e < ts) vs"
proof (induction vs)
  case Nil
  then show ?case by simp
next
  case (Cons a vs)
  show ?case
  proof (cases "hs_start_ts a < ts")
    case True
    with Cons.prems have "\<forall>x\<in>set vs. hs_start_ts x < ts" by auto
    then have "filter (\<lambda>e. \<not> hs_start_ts e < ts) vs = []"
      by (simp add: filter_empty_conv)
    with True show ?thesis by simp
  next
    case False
    with Cons show ?thesis by simp
  qed
qed

lemma mset_search_before:
  "mset (curhs_search_near_before bid key hs) =
     filter_mset (\<lambda>e. hs_btree_id e = bid \<and> hs_key e = key) (mset hs)"
  by (simp add: curhs_search_near_before_def)

lemma delete_hs_no_faults:
  assumes "hs_no_faults env"
  shows "\<exists>hs'. rollback_delete_hs env key ts hs = (0, hs') \<and>
     mset hs' = filter_mset
       (\<lambda>e. \<not> (hs_btree_id e = btree_id env \<and> hs_key e = key \<and> ts \<le> hs_start_ts e)) (mset hs)"
proof -
  let ?vs = "curhs_search_near_before (btree_id env) key hs"
  let ?hs' = "fold curhs_remove (takeWhile (\<lambda>e. \<not> hs_start_ts e < ts) ?vs) hs"
  have g: "\<forall>e. curhs_get_ret env e = 0" and r: "\<forall>e. curhs_remove_ret env e = 0"
    and o: "curhs_open_ret env = 0" "buf_ret env = 0"
    using assms by (auto simp: hs_no_faults_def)
  have 1: "rollback_delete_hs env key ts hs = (0, ?hs')"
    by (simp add: rollback_delete_hs_def o delete_hs_loop_no_faults[OF g r] notfound_ok_def)
  have "mset ?hs' = mset hs - mset (filter (\<lambda>e. \<not> hs_start_ts e < ts) ?vs)"
    by (simp add: mset_fold_curhs_remove takeWhile_desc_filter[OF search_before_desc])
  also have "\<dots> = mset hs - filter_mset
      (\<lambda>e. hs_btree_id e = btree_id env \<and> hs_key e = key \<and> ts \<le> hs_start_ts e) (mset hs)"
    by (simp add: mset_search_before not_less conj_ac filter_filter_mset)
  also have "\<dots> = filter_mset
      (\<lambda>e. \<not> (hs_btree_id e = btree_id env \<and> hs_key e = key \<and> ts \<le> hs_start_ts e)) (mset hs)"
    by (rule multiset_eqI) simp
  finally show ?thesis using 1 by blast
qed

lemma delete_hs_ret:
  "hs_no_faults env \<Longrightarrow> rollback_delete_hs env key ts hs = (ret, hs') \<Longrightarrow> ret = 0"
  using delete_hs_no_faults[of env key ts hs] by auto

section \<open>Properties of the update chain editor\<close>

lemma next_takeWhile:
  "rollback_abort_update_next chain =
     (takeWhile (\<lambda>upd. upd_txnid upd = WT_TXN_ABORTED) chain,
      dropWhile (\<lambda>upd. upd_txnid upd = WT_TXN_ABORTED) chain)"
  by (induction chain) auto

lemma scan_eq:
  "rollback_abort_update_scan T chain =
     (chain_walked T chain, dropWhile (\<lambda>upd. \<not> upd_is_stable T upd) chain)"
  by (induction chain) (auto simp: chain_walked_def upd_is_stable_def upd_unstable_def)

text \<open>
  The chain the editor leaves: the walked part, then the rest of the chain with the
  \<open>HS\<close> flag cleared on nothing, on the stable update, or on a stable tombstone and the
  first update after it that is not aborted.
\<close>

lemma abort_update_shape:
  assumes "rollback_abort_update env key chain T hs = (ret, chain', hs', found)"
  shows "\<exists>mid. chain' = chain_walked T chain @ mid \<and>
     (dropWhile (\<lambda>upd. \<not> upd_is_stable T upd) chain = mid \<or>
      (\<exists>s r. dropWhile (\<lambda>upd. \<not> upd_is_stable T upd) chain = s # r \<and>
         (mid = F_CLR s WT_UPDATE_HS # r \<or>
          (\<exists>s2 r2. upd_type s = WT_UPDATE_TOMBSTONE \<and>
              dropWhile (\<lambda>upd. upd_txnid upd = WT_TXN_ABORTED) r = s2 # r2 \<and>
              mid = F_CLR s WT_UPDATE_HS # takeWhile (\<lambda>upd. upd_txnid upd = WT_TXN_ABORTED) r
                      @ F_CLR s2 WT_UPDATE_HS # r2))))"
  using assms
  by (auto simp: rollback_abort_update_def scan_eq next_takeWhile
      split: prod.splits list.splits if_splits)

lemma abort_update_found:
  assumes "rollback_abort_update env key chain T hs = (ret, chain', hs', found)"
  shows "found = (ret = 0 \<and> (\<exists>upd\<in>set chain. upd_is_stable T upd))"
proof -
  have "found = (ret = 0 \<and> snd (rollback_abort_update_scan T chain) \<noteq> [])"
    using assms
    by (auto simp: rollback_abort_update_def split: prod.splits list.splits if_splits)
  then show ?thesis by (simp add: scan_eq)
qed

lemma abort_update_ret:
  assumes "rollback_abort_update env key chain T hs = (ret, chain', hs', found)" "hs_no_faults env"
  shows "ret = 0"
  using assms(1) delete_hs_ret[OF assms(2)]
  by (auto simp: rollback_abort_update_def split: prod.splits list.splits if_splits)

lemma chain_split:
  "chain = takeWhile (\<lambda>upd. \<not> upd_is_stable T upd) chain
             @ dropWhile (\<lambda>upd. \<not> upd_is_stable T upd) chain"
  by simp

lemma length_chain_split:
  "length chain = first_stable T chain + length (dropWhile (\<lambda>upd. \<not> upd_is_stable T upd) chain)"
  unfolding first_stable_def by (metis chain_split length_append)

lemma nth_rest:
  "first_stable T chain \<le> i \<Longrightarrow>
   dropWhile (\<lambda>upd. \<not> upd_is_stable T upd) chain ! (i - first_stable T chain) = chain ! i"
  unfolding first_stable_def
  by (metis (no_types, lifting) chain_split le_add_diff_inverse nth_append_length_plus)

lemma nth_walked:
  "i < first_stable T chain \<Longrightarrow>
   chain_walked T chain ! i =
     (if upd_txnid (chain ! i) = WT_TXN_ABORTED then chain ! i else upd_abort (chain ! i))"
  unfolding first_stable_def chain_walked_def
  by (simp add: takeWhile_nth)

lemma length_walked: "length (chain_walked T chain) = first_stable T chain"
  by (simp add: chain_walked_def first_stable_def)

lemma rest_hd_stable:
  "dropWhile (\<lambda>upd. \<not> upd_is_stable T upd) chain = s # r \<Longrightarrow> upd_is_stable T s"
  by (metis (mono_tags, lifting) hd_dropWhile list.sel(1) list.simps(3))

lemma first_stable_is_stable:
  "first_stable T chain < length chain \<Longrightarrow> upd_is_stable T (chain ! first_stable T chain)"
  using nth_length_takeWhile[of "\<lambda>upd. \<not> upd_is_stable T upd" chain]
  by (simp add: first_stable_def)

lemma before_first_stable:
  assumes "i < first_stable T chain"
  shows "\<not> upd_is_stable T (chain ! i)"
proof -
  let ?P = "\<lambda>upd. \<not> upd_is_stable T upd"
  have "takeWhile ?P chain ! i \<in> set (takeWhile ?P chain)"
    using assms by (simp add: first_stable_def)
  then have "?P (takeWhile ?P chain ! i)" by (rule set_takeWhileD[THEN conjunct2])
  moreover have "takeWhile ?P chain ! i = chain ! i"
    using assms by (simp add: first_stable_def takeWhile_nth)
  ultimately show ?thesis by simp
qed

lemma abort_update_length:
  assumes "rollback_abort_update env key chain T hs = (ret, chain', hs', found)"
  shows "length chain' = length chain"
proof -
  from abort_update_shape[OF assms] obtain mid where
    c: "chain' = chain_walked T chain @ mid" and
    m: "length mid = length (dropWhile (\<lambda>upd. \<not> upd_is_stable T upd) chain)"
    apply (elim exE conjE disjE)
      apply auto[2]
    subgoal for mid s r s2 r2
      using takeWhile_dropWhile_id[of "\<lambda>upd. upd_txnid upd = WT_TXN_ABORTED" r]
      by (metis length_Cons length_append)
    done
  with length_chain_split[of chain T] show ?thesis by (simp add: length_walked)
qed

lemma abort_update_prefix:
  assumes "rollback_abort_update env key chain T hs = (ret, chain', hs', found)"
    and "i < first_stable T chain"
  shows "chain' ! i = (if upd_txnid (chain ! i) = WT_TXN_ABORTED then chain ! i else upd_abort (chain ! i))"
  using abort_update_shape[OF assms(1)] assms(2)
  by (auto simp: nth_append length_walked nth_walked)

text \<open>The same with the three assignments written out.\<close>

lemma abort_update_prefix_fields:
  assumes "rollback_abort_update env key chain T hs = (ret, chain', hs', found)"
    and "i < first_stable T chain"
  shows "chain' ! i =
     (if upd_txnid (chain ! i) = WT_TXN_ABORTED then chain ! i
      else (chain ! i)\<lparr>upd_txnid := WT_TXN_ABORTED, upd_durable_ts := 0, upd_start_ts := 0\<rparr>)"
  using abort_update_prefix[OF assms] by (simp add: upd_abort_def WT_TS_NONE_def)

lemma clr_after_tombstone:
  fixes s :: wt_update
  assumes r: "dropWhile (\<lambda>upd. upd_txnid upd = WT_TXN_ABORTED) r = s2 # r2"
    and k: "k < Suc (length r)"
  defines "mid \<equiv> F_CLR s WT_UPDATE_HS # takeWhile (\<lambda>upd. upd_txnid upd = WT_TXN_ABORTED) r
                      @ F_CLR s2 WT_UPDATE_HS # r2"
  shows "mid ! k = (s # r) ! k \<or>
         mid ! k = F_CLR ((s # r) ! k) WT_UPDATE_HS \<and>
         (k = 0 \<or> upd_txnid ((s # r) ! k) \<noteq> WT_TXN_ABORTED \<and>
            (\<forall>j. 0 < j \<and> j < k \<longrightarrow> upd_txnid ((s # r) ! j) = WT_TXN_ABORTED))"
proof -
  let ?tw = "takeWhile (\<lambda>upd. upd_txnid upd = WT_TXN_ABORTED) r"
  have req: "r = ?tw @ s2 # r2" using r by (metis takeWhile_dropWhile_id)
  have s2: "upd_txnid s2 \<noteq> WT_TXN_ABORTED"
    using r by (metis (mono_tags, lifting) hd_dropWhile list.sel(1) list.simps(3))
  have tw: "\<And>j. j < length ?tw \<Longrightarrow> upd_txnid (r ! j) = WT_TXN_ABORTED"
    by (metis (mono_tags, lifting) nth_mem set_takeWhileD takeWhile_nth)
  consider "k = 0" | "0 < k" "k - 1 < length ?tw" | "0 < k" "k - 1 = length ?tw"
    | "0 < k" "length ?tw < k - 1"
    by linarith
  then show ?thesis
  proof cases
    case 1
    then show ?thesis by (simp add: mid_def)
  next
    case 2
    then have "mid ! k = ?tw ! (k - 1)" by (simp add: mid_def nth_Cons' nth_append)
    also have "\<dots> = r ! (k - 1)" using 2 by (simp add: takeWhile_nth)
    finally show ?thesis using 2 by (simp add: nth_Cons')
  next
    case 3
    then have k0: "0 < k" by simp
    have a: "mid ! k = F_CLR s2 WT_UPDATE_HS" using 3 k0 by (simp add: mid_def nth_Cons' nth_append)
    have b: "(s # r) ! k = s2" using 3 k0 req by (simp add: nth_Cons') (metis nth_append_length)
    have c: "\<forall>j. 0 < j \<and> j < k \<longrightarrow> upd_txnid ((s # r) ! j) = WT_TXN_ABORTED"
      using 3 tw by (auto simp: nth_Cons')
    show ?thesis using a b c s2 by simp
  next
    case 4
    then have "mid ! k = (s # ?tw @ s2 # r2) ! k"
      by (simp add: mid_def nth_Cons' nth_append)
    then show ?thesis using req by simp
  qed
qed

lemma abort_update_suffix:
  assumes run: "rollback_abort_update env key chain T hs = (ret, chain', hs', found)"
    and le: "first_stable T chain \<le> i" and lt: "i < length chain"
  shows "chain' ! i = chain ! i \<or>
         chain' ! i = F_CLR (chain ! i) WT_UPDATE_HS \<and> upd_txnid (chain ! i) \<noteq> WT_TXN_ABORTED \<and>
           (i = first_stable T chain \<or>
            upd_type (chain ! first_stable T chain) = WT_UPDATE_TOMBSTONE \<and>
            (\<forall>j. first_stable T chain < j \<and> j < i \<longrightarrow> upd_txnid (chain ! j) = WT_TXN_ABORTED))"
proof -
  let ?n = "first_stable T chain"
  let ?rest = "dropWhile (\<lambda>upd. \<not> upd_is_stable T upd) chain"
  have nth: "\<And>j. ?n \<le> j \<Longrightarrow> chain ! j = ?rest ! (j - ?n)"
    by (simp add: nth_rest)
  have len: "length chain = ?n + length ?rest"
    by (rule length_chain_split)
  from abort_update_shape[OF run] obtain mid where
    c: "chain' = chain_walked T chain @ mid" and
    m: "?rest = mid \<or>
      (\<exists>s r. ?rest = s # r \<and>
         (mid = F_CLR s WT_UPDATE_HS # r \<or>
          (\<exists>s2 r2. upd_type s = WT_UPDATE_TOMBSTONE \<and>
              dropWhile (\<lambda>upd. upd_txnid upd = WT_TXN_ABORTED) r = s2 # r2 \<and>
              mid = F_CLR s WT_UPDATE_HS # takeWhile (\<lambda>upd. upd_txnid upd = WT_TXN_ABORTED) r
                      @ F_CLR s2 WT_UPDATE_HS # r2)))"
    by blast
  have ci: "chain' ! i = mid ! (i - ?n)"
    using c le by (simp add: nth_append length_walked)
  from m consider (a) "?rest = mid"
    | (b) s r where "?rest = s # r" "mid = F_CLR s WT_UPDATE_HS # r"
    | (c) s r s2 r2 where "?rest = s # r" "upd_type s = WT_UPDATE_TOMBSTONE"
        "dropWhile (\<lambda>upd. upd_txnid upd = WT_TXN_ABORTED) r = s2 # r2"
        "mid = F_CLR s WT_UPDATE_HS # takeWhile (\<lambda>upd. upd_txnid upd = WT_TXN_ABORTED) r
                      @ F_CLR s2 WT_UPDATE_HS # r2"
    by blast
  then show ?thesis
  proof cases
    case a
    then show ?thesis using ci nth[OF le] by simp
  next
    case b
    have st: "upd_txnid s \<noteq> WT_TXN_ABORTED"
      using rest_hd_stable[OF b(1)] by (simp add: upd_is_stable_def)
    show ?thesis
    proof (cases "i = ?n")
      case True
      then show ?thesis using ci nth[OF le] b st by simp
    next
      case False
      then show ?thesis using ci nth[OF le] b le by (simp add: nth_Cons')
    qed
  next
    case c
    have st: "upd_txnid s \<noteq> WT_TXN_ABORTED"
      using rest_hd_stable[OF c(1)] by (simp add: upd_is_stable_def)
    have k: "i - ?n < Suc (length r)" using lt le len c(1) by simp
    have n0: "chain ! ?n = s" using nth[of ?n] c(1) by simp
    have nj: "\<And>j. ?n < j \<Longrightarrow> chain ! j = (s # r) ! (j - ?n)"
      using nth c(1) by simp
    from clr_after_tombstone[OF c(3) k, of s] c(4)
    have "mid ! (i - ?n) = (s # r) ! (i - ?n) \<or>
         mid ! (i - ?n) = F_CLR ((s # r) ! (i - ?n)) WT_UPDATE_HS \<and>
         (i - ?n = 0 \<or> upd_txnid ((s # r) ! (i - ?n)) \<noteq> WT_TXN_ABORTED \<and>
            (\<forall>j. 0 < j \<and> j < i - ?n \<longrightarrow> upd_txnid ((s # r) ! j) = WT_TXN_ABORTED))"
      by simp
    then show ?thesis
    proof (elim disjE conjE)
      assume "mid ! (i - ?n) = (s # r) ! (i - ?n)"
      then show ?thesis using ci nth[OF le] c(1) by simp
    next
      assume a: "mid ! (i - ?n) = F_CLR ((s # r) ! (i - ?n)) WT_UPDATE_HS" and "i - ?n = 0"
      then have "i = ?n" using le by simp
      then show ?thesis using a ci n0 st by simp
    next
      assume a: "mid ! (i - ?n) = F_CLR ((s # r) ! (i - ?n)) WT_UPDATE_HS"
        and b: "upd_txnid ((s # r) ! (i - ?n)) \<noteq> WT_TXN_ABORTED"
        and d: "\<forall>j. 0 < j \<and> j < i - ?n \<longrightarrow> upd_txnid ((s # r) ! j) = WT_TXN_ABORTED"
      have e: "chain ! i = (s # r) ! (i - ?n)" using nth[OF le] c(1) by simp
      have "\<forall>j. ?n < j \<and> j < i \<longrightarrow> upd_txnid (chain ! j) = WT_TXN_ABORTED"
      proof (intro allI impI)
        fix j assume j: "?n < j \<and> j < i"
        then have "0 < j - ?n \<and> j - ?n < i - ?n" by linarith
        with d have "upd_txnid ((s # r) ! (j - ?n)) = WT_TXN_ABORTED" by blast
        then show "upd_txnid (chain ! j) = WT_TXN_ABORTED" using nj j by simp
      qed
      then show ?thesis using a b e ci n0 c(2) by simp
    qed
  qed
qed

lemma abort_update_suffix_fields:
  assumes run: "rollback_abort_update env key chain T hs = (ret, chain', hs', found)"
    and i: "first_stable T chain \<le> i \<and> i < length chain"
  shows "upd_txnid (chain' ! i) = upd_txnid (chain ! i) \<and>
      upd_durable_ts (chain' ! i) = upd_durable_ts (chain ! i) \<and>
      upd_start_ts (chain' ! i) = upd_start_ts (chain ! i)"
proof -
  have "chain' ! i = chain ! i \<or> chain' ! i = F_CLR (chain ! i) WT_UPDATE_HS"
    using abort_update_suffix[OF run, of i] i by blast
  then show ?thesis by (auto simp: F_CLR_def)
qed

lemma ex_abort_update_run:
  "rollback_abort_update ex_env ''k'' ex_chain 100 ex_hs =
     (0, ex_chain_after, [ex_hs_entry 50], True)"
  by (simp add: rollback_abort_update_def ex_defs rollback_delete_hs_def
      curhs_search_near_before_def F_ISSET_def F_CLR_def WT_TXN_ABORTED_def upd_abort_def
      notfound_ok_def curhs_remove_def WT_NOTFOUND_def WT_TS_NONE_def)

lemma ex_first_stable: "first_stable 100 ex_chain = 1"
  by (simp add: first_stable_def upd_is_stable_def upd_unstable_def ex_defs WT_TXN_ABORTED_def)

lemma ex_no_faults: "hs_no_faults ex_env"
  by (simp add: hs_no_faults_def ex_env_def)

text \<open>
  C1. For every chain and stable timestamp \<open>T\<close> the editor leaves a chain of the same
  length in which, before the first stable update, an update already aborted is as it
  was and every other update (each of them has a durable timestamp after \<open>T\<close> or is
  prepared and unresolved) has its transaction id set to \<^verbatim>\<open>WT_TXN_ABORTED\<close> and its
  durable and start timestamps set to 0. The walk stops at the first stable update: from
  there on no update has these three fields changed. On a successful return the value
  stored through \<^verbatim>\<open>stable_update_found\<close> is true exactly when the chain has a stable
  update (a failed history store deletion returns its error before the store, so the
  value stays false); and the function succeeds whenever the history store cursor does.
\<close>

theorem rollback_abort_update_walk:
  "rollback_abort_update env key chain T hs = (ret, chain', hs', found) \<Longrightarrow>
   length chain' = length chain \<and>
   (\<forall>i < first_stable T chain.
      (upd_txnid (chain ! i) = WT_TXN_ABORTED \<longrightarrow> chain' ! i = chain ! i) \<and>
      (upd_txnid (chain ! i) \<noteq> WT_TXN_ABORTED \<longrightarrow>
         upd_unstable T (chain ! i) \<and>
         upd_txnid (chain' ! i) = WT_TXN_ABORTED \<and>
         upd_durable_ts (chain' ! i) = 0 \<and>
         upd_start_ts (chain' ! i) = 0 \<and>
         chain' ! i =
           (chain ! i)\<lparr>upd_txnid := WT_TXN_ABORTED, upd_durable_ts := 0, upd_start_ts := 0\<rparr>)) \<and>
   (first_stable T chain < length chain \<longrightarrow> upd_is_stable T (chain ! first_stable T chain)) \<and>
   (\<forall>i. first_stable T chain \<le> i \<and> i < length chain \<longrightarrow>
      upd_txnid (chain' ! i) = upd_txnid (chain ! i) \<and>
      upd_durable_ts (chain' ! i) = upd_durable_ts (chain ! i) \<and>
      upd_start_ts (chain' ! i) = upd_start_ts (chain ! i)) \<and>
   found = (ret = 0 \<and> (\<exists>upd\<in>set chain. upd_is_stable T upd)) \<and>
   (hs_no_faults env \<longrightarrow> ret = 0)"
proof -
  assume run: "rollback_abort_update env key chain T hs = (ret, chain', hs', found)"
  have 1: "length chain' = length chain" by (rule abort_update_length[OF run])
  have 2: "\<forall>i < first_stable T chain.
      (upd_txnid (chain ! i) = WT_TXN_ABORTED \<longrightarrow> chain' ! i = chain ! i) \<and>
      (upd_txnid (chain ! i) \<noteq> WT_TXN_ABORTED \<longrightarrow>
         upd_unstable T (chain ! i) \<and>
         upd_txnid (chain' ! i) = WT_TXN_ABORTED \<and>
         upd_durable_ts (chain' ! i) = 0 \<and>
         upd_start_ts (chain' ! i) = 0 \<and>
         chain' ! i =
           (chain ! i)\<lparr>upd_txnid := WT_TXN_ABORTED, upd_durable_ts := 0, upd_start_ts := 0\<rparr>)"
  proof (intro allI impI)
    fix i assume i: "i < first_stable T chain"
    show "(upd_txnid (chain ! i) = WT_TXN_ABORTED \<longrightarrow> chain' ! i = chain ! i) \<and>
      (upd_txnid (chain ! i) \<noteq> WT_TXN_ABORTED \<longrightarrow>
         upd_unstable T (chain ! i) \<and>
         upd_txnid (chain' ! i) = WT_TXN_ABORTED \<and>
         upd_durable_ts (chain' ! i) = 0 \<and>
         upd_start_ts (chain' ! i) = 0 \<and>
         chain' ! i =
           (chain ! i)\<lparr>upd_txnid := WT_TXN_ABORTED, upd_durable_ts := 0, upd_start_ts := 0\<rparr>)"
      using abort_update_prefix_fields[OF run i] before_first_stable[OF i]
      by (auto simp: upd_is_stable_def)
  qed
  have 3: "first_stable T chain < length chain \<longrightarrow> upd_is_stable T (chain ! first_stable T chain)"
    by (simp add: first_stable_is_stable)
  have 4: "\<forall>i. first_stable T chain \<le> i \<and> i < length chain \<longrightarrow>
      upd_txnid (chain' ! i) = upd_txnid (chain ! i) \<and>
      upd_durable_ts (chain' ! i) = upd_durable_ts (chain ! i) \<and>
      upd_start_ts (chain' ! i) = upd_start_ts (chain ! i)"
    using abort_update_suffix_fields[OF run] by blast
  have 5: "found = (ret = 0 \<and> (\<exists>upd\<in>set chain. upd_is_stable T upd))"
    by (rule abort_update_found[OF run])
  have 6: "hs_no_faults env \<longrightarrow> ret = 0"
    using abort_update_ret[OF run] by blast
  from 1 2 3 4 5 6 show ?thesis by (intro conjI)
qed

text \<open>
  The theorem at a chain of four updates and stable timestamp 100: the head, written at
  150, is aborted (transaction id \<^verbatim>\<open>WT_TXN_ABORTED\<close>, both timestamps 0, the rest of the
  update as it was); the second update is the first stable one; the last, written at 200
  behind it, keeps its timestamp.
\<close>

theorem rollback_abort_update_walk_witness:
  "rollback_abort_update ex_env ''k'' ex_chain 100 ex_hs = (0, ex_chain_after, [ex_hs_entry 50], True) \<and>
   first_stable 100 ex_chain = 1 \<and>
   length ex_chain_after = length ex_chain \<and>
   ex_chain ! 0 =
     \<lparr>upd_txnid = 5, upd_durable_ts = 150, upd_start_ts = 150,
      upd_prepare_state = WT_PREPARE_INIT, upd_type = WT_UPDATE_STANDARD, upd_flags = {},
      upd_data = ''v''\<rparr> \<and>
   upd_unstable 100 (ex_chain ! 0) \<and>
   ex_chain_after ! 0 =
     \<lparr>upd_txnid = WT_TXN_ABORTED, upd_durable_ts = 0, upd_start_ts = 0,
      upd_prepare_state = WT_PREPARE_INIT, upd_type = WT_UPDATE_STANDARD, upd_flags = {},
      upd_data = ''v''\<rparr> \<and>
   upd_txnid (ex_chain_after ! 0) = WT_TXN_ABORTED \<and>
   upd_durable_ts (ex_chain_after ! 0) = 0 \<and>
   upd_start_ts (ex_chain_after ! 0) = 0 \<and>
   upd_is_stable 100 (ex_chain ! 1) \<and>
   upd_durable_ts (ex_chain_after ! 3) = 200 \<and>
   hs_no_faults ex_env"
proof -
  note nf = ex_no_faults
  have ne: "upd_txnid (ex_chain ! 0) \<noteq> WT_TXN_ABORTED"
    by (simp add: ex_defs WT_TXN_ABORTED_def)
  have h: "ex_chain ! 0 =
     \<lparr>upd_txnid = 5, upd_durable_ts = 150, upd_start_ts = 150,
      upd_prepare_state = WT_PREPARE_INIT, upd_type = WT_UPDATE_STANDARD, upd_flags = {},
      upd_data = ''v''\<rparr>"
    by (simp add: ex_defs)
  have d: "upd_durable_ts (ex_chain ! 3) = 200" and len: "length ex_chain = 4"
    by (simp_all add: ex_defs)
  have i0: "(0::nat) < 1" and i3: "(1::nat) \<le> 3 \<and> 3 < length ex_chain"
    and i1: "(1::nat) < length ex_chain"
    by (simp_all add: len)
  note w = rollback_abort_update_walk[OF ex_abort_update_run, unfolded ex_first_stable]
  note l = w[THEN conjunct1]
  note a = w[THEN conjunct2, THEN conjunct1, rule_format, OF i0, THEN conjunct2, rule_format,
             OF ne]
  note s = w[THEN conjunct2, THEN conjunct2, THEN conjunct1, rule_format, OF i1]
  note f = w[THEN conjunct2, THEN conjunct2, THEN conjunct2, THEN conjunct1, rule_format, OF i3]
  have a5: "ex_chain_after ! 0 =
     \<lparr>upd_txnid = WT_TXN_ABORTED, upd_durable_ts = 0, upd_start_ts = 0,
      upd_prepare_state = WT_PREPARE_INIT, upd_type = WT_UPDATE_STANDARD, upd_flags = {},
      upd_data = ''v''\<rparr>"
    using a[THEN conjunct2, THEN conjunct2, THEN conjunct2, THEN conjunct2] by (simp add: h)
  have 3: "upd_durable_ts (ex_chain_after ! 3) = 200"
    using f[THEN conjunct2, THEN conjunct1] d by simp
  from ex_abort_update_run ex_first_stable l h a[THEN conjunct1] a5
    a[THEN conjunct2, THEN conjunct1]
    a[THEN conjunct2, THEN conjunct2, THEN conjunct1]
    a[THEN conjunct2, THEN conjunct2, THEN conjunct2, THEN conjunct1] s 3 nf
  show ?thesis by (intro conjI)
qed

lemma abort_update_hs_none:
  assumes "rollback_abort_update env key chain T hs = (ret, chain', hs', found)"
    and "rts_anchor_ts T chain = None"
  shows "hs' = hs"
  using assms
  by (auto simp: rollback_abort_update_def scan_eq next_takeWhile rts_anchor_ts_def F_ISSET_def
      simp del: dropWhile_eq_Nil_conv split: prod.splits list.splits if_splits)

lemma abort_update_hs_some:
  assumes "rollback_abort_update env key chain T hs = (ret, chain', hs', found)"
    and "rts_anchor_ts T chain = Some a"
  shows "rollback_delete_hs env key a hs = (ret, hs')"
  using assms
  by (auto simp: rollback_abort_update_def scan_eq next_takeWhile rts_anchor_ts_def F_ISSET_def
      simp del: dropWhile_eq_Nil_conv split: prod.splits list.splits if_splits)

lemma ex_anchor: "rts_anchor_ts 100 ex_chain = Some 80"
  by (simp add: rts_anchor_ts_def upd_is_stable_def upd_unstable_def ex_defs WT_TXN_ABORTED_def)

lemma ex_abort_update_no_stable:
  "rollback_abort_update ex_env ''k'' [ex_upd 5 150 WT_UPDATE_STANDARD {}] 100 ex_hs =
     (0, [upd_abort (ex_upd 5 150 WT_UPDATE_STANDARD {})], ex_hs, False)"
  by (simp add: rollback_abort_update_def ex_defs WT_TXN_ABORTED_def)

lemma ex_anchor_no_stable: "rts_anchor_ts 100 [ex_upd 5 150 WT_UPDATE_STANDARD {}] = None"
  by (simp add: rts_anchor_ts_def upd_is_stable_def upd_unstable_def ex_defs WT_TXN_ABORTED_def)

text \<open>
  C4. The editor deletes from the history store only through its stable update: when the
  chain has no stable update, or the stable update does not carry the \<open>HS\<close> flag, the
  history store is as it was. Otherwise, with a history store cursor that does not fail,
  the function succeeds and the records left are those of before without the records of
  this B-tree and key whose start timestamp is at or after the anchor: exactly these are
  deleted, and every record of the key that starts before the anchor, like every record
  of another key, is still there as often as before. The anchor is the start timestamp
  of the update that is not aborted after a stable tombstone, else the tombstone's, else
  the stable update's.
\<close>

theorem rollback_abort_update_hs_delete:
  "rollback_abort_update env key chain T hs = (ret, chain', hs', found) \<Longrightarrow>
   (rts_anchor_ts T chain = None \<longrightarrow> hs' = hs) \<and>
   (\<forall>a. hs_no_faults env \<and> rts_anchor_ts T chain = Some a \<longrightarrow>
      ret = 0 \<and>
      mset hs' = filter_mset
        (\<lambda>e. \<not> (hs_btree_id e = btree_id env \<and> hs_key e = key \<and> a \<le> hs_start_ts e)) (mset hs))"
proof -
  assume run: "rollback_abort_update env key chain T hs = (ret, chain', hs', found)"
  have 1: "rts_anchor_ts T chain = None \<longrightarrow> hs' = hs"
    using abort_update_hs_none[OF run] by blast
  have 2: "\<forall>a. hs_no_faults env \<and> rts_anchor_ts T chain = Some a \<longrightarrow>
      ret = 0 \<and>
      mset hs' = filter_mset
        (\<lambda>e. \<not> (hs_btree_id e = btree_id env \<and> hs_key e = key \<and> a \<le> hs_start_ts e)) (mset hs)"
  proof (intro allI impI)
    fix a assume a: "hs_no_faults env \<and> rts_anchor_ts T chain = Some a"
    then have d: "rollback_delete_hs env key a hs = (ret, hs')"
      using abort_update_hs_some[OF run] by blast
    from a delete_hs_no_faults[of env key a hs] d
    show "ret = 0 \<and>
      mset hs' = filter_mset
        (\<lambda>e. \<not> (hs_btree_id e = btree_id env \<and> hs_key e = key \<and> a \<le> hs_start_ts e)) (mset hs)"
      by auto
  qed
  from 1 2 show ?thesis by (intro conjI)
qed

theorem rollback_abort_update_hs_delete_witness:
  "rollback_abort_update ex_env ''k'' ex_chain 100 ex_hs =
     (0, ex_chain_after, [ex_hs_entry 50], True) \<and>
   hs_no_faults ex_env \<and> rts_anchor_ts 100 ex_chain = Some 80 \<and>
   mset [ex_hs_entry 50] = filter_mset
        (\<lambda>e. \<not> (hs_btree_id e = btree_id ex_env \<and> hs_key e = ''k'' \<and> 80 \<le> hs_start_ts e))
        (mset ex_hs) \<and>
   rollback_abort_update ex_env ''k'' [ex_upd 5 150 WT_UPDATE_STANDARD {}] 100 ex_hs =
     (0, [upd_abort (ex_upd 5 150 WT_UPDATE_STANDARD {})], ex_hs, False) \<and>
   rts_anchor_ts 100 [ex_upd 5 150 WT_UPDATE_STANDARD {}] = None"
  using rollback_abort_update_hs_delete[OF ex_abort_update_run, THEN conjunct2, rule_format, of 80]
    rollback_abort_update_hs_delete[OF ex_abort_update_no_stable, THEN conjunct1]
    ex_abort_update_run ex_no_faults ex_anchor ex_abort_update_no_stable ex_anchor_no_stable
  by simp

lemma abort_update_frame_at:
  assumes run: "rollback_abort_update env key chain T hs = (ret, chain', hs', found)"
    and i: "i < length chain"
  shows "upd_data (chain' ! i) = upd_data (chain ! i) \<and>
     upd_type (chain' ! i) = upd_type (chain ! i) \<and>
     upd_prepare_state (chain' ! i) = upd_prepare_state (chain ! i) \<and>
     (upd_flags (chain' ! i) = upd_flags (chain ! i) \<or>
      upd_flags (chain' ! i) = upd_flags (chain ! i) - {WT_UPDATE_HS}) \<and>
     (upd_txnid (chain ! i) = WT_TXN_ABORTED \<longrightarrow> chain' ! i = chain ! i) \<and>
     (i < first_stable T chain \<longrightarrow>
        upd_flags (chain' ! i) = upd_flags (chain ! i) \<and>
        (chain' ! i = chain ! i \<or>
         chain' ! i =
           (chain ! i)\<lparr>upd_txnid := WT_TXN_ABORTED, upd_durable_ts := 0, upd_start_ts := 0\<rparr>)) \<and>
     (first_stable T chain \<le> i \<longrightarrow>
        upd_txnid (chain' ! i) = upd_txnid (chain ! i) \<and>
        upd_durable_ts (chain' ! i) = upd_durable_ts (chain ! i) \<and>
        upd_start_ts (chain' ! i) = upd_start_ts (chain ! i) \<and>
        (chain' ! i = chain ! i \<or>
         chain' ! i = (chain ! i)\<lparr>upd_flags := upd_flags (chain ! i) - {WT_UPDATE_HS}\<rparr>)) \<and>
     (first_stable T chain < i \<and> chain' ! i \<noteq> chain ! i \<longrightarrow>
        upd_type (chain ! first_stable T chain) = WT_UPDATE_TOMBSTONE \<and>
        (\<forall>j. first_stable T chain < j \<and> j < i \<longrightarrow> upd_txnid (chain ! j) = WT_TXN_ABORTED))"
proof (cases "i < first_stable T chain")
  case True
  then show ?thesis
    using abort_update_prefix_fields[OF run True] by simp
next
  case False
  then have le: "first_stable T chain \<le> i" by simp
  show ?thesis
    using abort_update_suffix[OF run le i] False le
    by (auto simp: F_CLR_def)
qed

text \<open>
  C10. The editor unlinks nothing: the chain it leaves has the same length, and at every
  position the update has the value, the type and the prepare state it had, and the
  flags it had, at most without \<open>HS\<close>. An update that was already aborted is as it was.
  Before the first stable update an update keeps its flags, and is either as it was or
  is what it was with \<^verbatim>\<open>WT_TXN_ABORTED\<close> for its transaction id and 0 for its durable and
  start timestamps, and nothing else changed. From the first stable update on, an update
  keeps its transaction id and both timestamps, whatever its durable timestamp, and is
  either as it was or is what it was with \<open>HS\<close> taken out of its flags, and nothing else
  changed; and behind the first stable update the flag is cleared only on the first
  update that is not aborted after a stable tombstone.
\<close>

theorem rollback_abort_update_frame:
  "rollback_abort_update env key chain T hs = (ret, chain', hs', found) \<Longrightarrow>
   length chain' = length chain \<and>
   (\<forall>i < length chain.
     upd_data (chain' ! i) = upd_data (chain ! i) \<and>
     upd_type (chain' ! i) = upd_type (chain ! i) \<and>
     upd_prepare_state (chain' ! i) = upd_prepare_state (chain ! i) \<and>
     (upd_flags (chain' ! i) = upd_flags (chain ! i) \<or>
      upd_flags (chain' ! i) = upd_flags (chain ! i) - {WT_UPDATE_HS}) \<and>
     (upd_txnid (chain ! i) = WT_TXN_ABORTED \<longrightarrow> chain' ! i = chain ! i) \<and>
     (i < first_stable T chain \<longrightarrow>
        upd_flags (chain' ! i) = upd_flags (chain ! i) \<and>
        (chain' ! i = chain ! i \<or>
         chain' ! i =
           (chain ! i)\<lparr>upd_txnid := WT_TXN_ABORTED, upd_durable_ts := 0, upd_start_ts := 0\<rparr>)) \<and>
     (first_stable T chain \<le> i \<longrightarrow>
        upd_txnid (chain' ! i) = upd_txnid (chain ! i) \<and>
        upd_durable_ts (chain' ! i) = upd_durable_ts (chain ! i) \<and>
        upd_start_ts (chain' ! i) = upd_start_ts (chain ! i) \<and>
        (chain' ! i = chain ! i \<or>
         chain' ! i = (chain ! i)\<lparr>upd_flags := upd_flags (chain ! i) - {WT_UPDATE_HS}\<rparr>)) \<and>
     (first_stable T chain < i \<and> chain' ! i \<noteq> chain ! i \<longrightarrow>
        upd_type (chain ! first_stable T chain) = WT_UPDATE_TOMBSTONE \<and>
        (\<forall>j. first_stable T chain < j \<and> j < i \<longrightarrow> upd_txnid (chain ! j) = WT_TXN_ABORTED)))"
proof -
  assume run: "rollback_abort_update env key chain T hs = (ret, chain', hs', found)"
  have 1: "length chain' = length chain" by (rule abort_update_length[OF run])
  have 2: "\<forall>i < length chain.
     upd_data (chain' ! i) = upd_data (chain ! i) \<and>
     upd_type (chain' ! i) = upd_type (chain ! i) \<and>
     upd_prepare_state (chain' ! i) = upd_prepare_state (chain ! i) \<and>
     (upd_flags (chain' ! i) = upd_flags (chain ! i) \<or>
      upd_flags (chain' ! i) = upd_flags (chain ! i) - {WT_UPDATE_HS}) \<and>
     (upd_txnid (chain ! i) = WT_TXN_ABORTED \<longrightarrow> chain' ! i = chain ! i) \<and>
     (i < first_stable T chain \<longrightarrow>
        upd_flags (chain' ! i) = upd_flags (chain ! i) \<and>
        (chain' ! i = chain ! i \<or>
         chain' ! i =
           (chain ! i)\<lparr>upd_txnid := WT_TXN_ABORTED, upd_durable_ts := 0, upd_start_ts := 0\<rparr>)) \<and>
     (first_stable T chain \<le> i \<longrightarrow>
        upd_txnid (chain' ! i) = upd_txnid (chain ! i) \<and>
        upd_durable_ts (chain' ! i) = upd_durable_ts (chain ! i) \<and>
        upd_start_ts (chain' ! i) = upd_start_ts (chain ! i) \<and>
        (chain' ! i = chain ! i \<or>
         chain' ! i = (chain ! i)\<lparr>upd_flags := upd_flags (chain ! i) - {WT_UPDATE_HS}\<rparr>)) \<and>
     (first_stable T chain < i \<and> chain' ! i \<noteq> chain ! i \<longrightarrow>
        upd_type (chain ! first_stable T chain) = WT_UPDATE_TOMBSTONE \<and>
        (\<forall>j. first_stable T chain < j \<and> j < i \<longrightarrow> upd_txnid (chain ! j) = WT_TXN_ABORTED))"
    using abort_update_frame_at[OF run] by (intro allI impI)
  from 1 2 show ?thesis by (intro conjI)
qed

lemma ex_abort_update_run_hs:
  "rollback_abort_update ex_env ''k'' ex_chain_hs 100 ex_hs =
     (0, ex_chain_hs_after, [ex_hs_entry 50], True)"
  by (simp add: rollback_abort_update_def ex_defs ex_chain_hs_def ex_chain_hs_after_def
      rollback_delete_hs_def curhs_search_near_before_def F_ISSET_def F_CLR_def
      WT_TXN_ABORTED_def upd_abort_def notfound_ok_def curhs_remove_def WT_NOTFOUND_def
      WT_TS_NONE_def)

lemma ex_first_stable_hs: "first_stable 100 ex_chain_hs = 1"
  by (simp add: first_stable_def upd_is_stable_def upd_unstable_def ex_defs ex_chain_hs_def
      WT_TXN_ABORTED_def)

text \<open>
  The theorem at two chains and stable timestamp 100. In the first, the last update,
  written at 200 behind the first stable update, is as it was, and the \<open>HS\<close> flag is
  cleared on the update after the stable tombstone. In the second, the head is aborted
  and keeps its \<open>HS\<close> flag, and the stable update behind it loses the flag and nothing
  else.
\<close>

theorem rollback_abort_update_frame_witness:
  "rollback_abort_update ex_env ''k'' ex_chain 100 ex_hs =
     (0, ex_chain_after, [ex_hs_entry 50], True) \<and>
   length ex_chain_after = length ex_chain \<and>
   first_stable 100 ex_chain = 1 \<and>
   (3::nat) < length ex_chain \<and>
   100 < upd_durable_ts (ex_chain ! 3) \<and>
   upd_data (ex_chain_after ! 3) = upd_data (ex_chain ! 3) \<and>
   upd_type (ex_chain_after ! 3) = upd_type (ex_chain ! 3) \<and>
   upd_prepare_state (ex_chain_after ! 3) = upd_prepare_state (ex_chain ! 3) \<and>
   ex_chain_after ! 2 \<noteq> ex_chain ! 2 \<and>
   upd_type (ex_chain ! 1) = WT_UPDATE_TOMBSTONE \<and>
   rollback_abort_update ex_env ''k'' ex_chain_hs 100 ex_hs =
     (0, ex_chain_hs_after, [ex_hs_entry 50], True) \<and>
   first_stable 100 ex_chain_hs = 1 \<and>
   upd_flags (ex_chain_hs ! 0) = {WT_UPDATE_HS} \<and>
   upd_flags (ex_chain_hs_after ! 0) = upd_flags (ex_chain_hs ! 0) \<and>
   ex_chain_hs_after ! 0 =
     (ex_chain_hs ! 0)\<lparr>upd_txnid := WT_TXN_ABORTED, upd_durable_ts := 0, upd_start_ts := 0\<rparr> \<and>
   ex_chain_hs_after ! 1 =
     (ex_chain_hs ! 1)\<lparr>upd_flags := upd_flags (ex_chain_hs ! 1) - {WT_UPDATE_HS}\<rparr>"
proof -
  have len: "(3::nat) < length ex_chain" "(2::nat) < length ex_chain"
    and d: "100 < upd_durable_ts (ex_chain ! 3)"
    and ne: "ex_chain_after ! 2 \<noteq> ex_chain ! 2"
    by (simp_all add: ex_defs)
  note w = rollback_abort_update_frame[OF ex_abort_update_run, unfolded ex_first_stable]
  note w3 = w[THEN conjunct2, rule_format, OF len(1)]
  note w2 = w[THEN conjunct2, rule_format, OF len(2)]
  note a1 = w3[THEN conjunct1]
  note a2 = w3[THEN conjunct2, THEN conjunct1]
  note a3 = w3[THEN conjunct2, THEN conjunct2, THEN conjunct1]
  note b0 = w2[THEN conjunct2, THEN conjunct2, THEN conjunct2, THEN conjunct2, THEN conjunct2,
      THEN conjunct2, THEN conjunct2]
  have b: "upd_type (ex_chain ! 1) = WT_UPDATE_TOMBSTONE"
    using b0 ne by simp
  have hlen: "(0::nat) < length ex_chain_hs" "(1::nat) < length ex_chain_hs"
    and hf: "upd_flags (ex_chain_hs ! 0) = {WT_UPDATE_HS}"
    and hne0: "ex_chain_hs_after ! 0 \<noteq> ex_chain_hs ! 0"
    and hne1: "ex_chain_hs_after ! 1 \<noteq> ex_chain_hs ! 1"
    by (simp_all add: ex_defs ex_chain_hs_def ex_chain_hs_after_def WT_TXN_ABORTED_def)
  note v = rollback_abort_update_frame[OF ex_abort_update_run_hs, unfolded ex_first_stable_hs]
  note v0 = v[THEN conjunct2, rule_format, OF hlen(1), THEN conjunct2, THEN conjunct2,
      THEN conjunct2, THEN conjunct2, THEN conjunct2, THEN conjunct1, rule_format]
  note v1 = v[THEN conjunct2, rule_format, OF hlen(2), THEN conjunct2, THEN conjunct2,
      THEN conjunct2, THEN conjunct2, THEN conjunct2, THEN conjunct2, THEN conjunct1,
      rule_format]
  have c1: "upd_flags (ex_chain_hs_after ! 0) = upd_flags (ex_chain_hs ! 0)"
    using v0 by simp
  have c2: "ex_chain_hs_after ! 0 =
     (ex_chain_hs ! 0)\<lparr>upd_txnid := WT_TXN_ABORTED, upd_durable_ts := 0, upd_start_ts := 0\<rparr>"
    using v0 hne0 by simp
  have c3: "ex_chain_hs_after ! 1 =
     (ex_chain_hs ! 1)\<lparr>upd_flags := upd_flags (ex_chain_hs ! 1) - {WT_UPDATE_HS}\<rparr>"
    using v1 hne1 by simp
  from ex_abort_update_run w[THEN conjunct1] ex_first_stable len(1) d a1 a2 a3 ne b
    ex_abort_update_run_hs ex_first_stable_hs hf c1 c2 c3
  show ?thesis by (intro conjI)
qed

section \<open>Properties of the on-disk key fixer\<close>

lemma fixup_scan_no_faults:
  assumes "\<forall>e. curhs_get_ret env e = 0" "\<forall>e. curhs_remove_ret env e = 0"
  shows "rollback_ondisk_fixup_key_scan env tw T vs v hs =
     (Inr (find (hs_entry_stable env T) vs, hs_full_value env tw T vs v),
      fold curhs_remove (hs_unstable_prefix env T vs) hs)"
  using assms
  by (induction vs arbitrary: v hs)
     (auto simp: Let_def hs_full_value_def hs_unstable_prefix_def hs_apply_def hs_entry_stable_def)

lemma find_stable_unstable_prefix:
  "find (hs_entry_stable env T) vs = None \<Longrightarrow> hs_unstable_prefix env T vs = vs"
  by (induction vs) (auto simp: hs_unstable_prefix_def split: if_splits)

lemma rollback_modify_no_faults:
  "rts_no_faults env \<Longrightarrow> rollback_modify env k upds = (0, upds @ key_upd k)"
  by (simp add: rts_no_faults_def rollback_modify_def rollback_row_modify_def rollback_col_modify_def)

lemma unstable_prefix_unstable:
  "e \<in> set (hs_unstable_prefix env T vs) \<Longrightarrow> \<not> hs_entry_stable env T e"
  unfolding hs_unstable_prefix_def by (rule set_takeWhileD[THEN conjunct2])

lemma find_stable_split:
  "find (hs_entry_stable env T) vs = Some e \<Longrightarrow>
   hs_entry_stable env T e \<and>
   vs = hs_unstable_prefix env T vs @ e # drop (Suc (length (hs_unstable_prefix env T vs))) vs"
  by (induction vs) (auto simp: hs_unstable_prefix_def split: if_splits)

lemma fixup_key_no_faults:
  fixes k :: ondisk_key and hs :: hs_store
  assumes nf: "rts_no_faults env"
  defines "vs \<equiv> curhs_search_near_before (btree_id env) (key_item k) hs"
  shows "rollback_ondisk_fixup_key env k T hs =
     (case find (hs_entry_stable env T) vs of
        Some e \<Rightarrow>
          (0, (if hs_tombstone_stable env T e then [fixup_restored_tombstone env e] else [])
                @ fixup_restored_upd env e (hs_full_value env (key_tw k) T vs (key_value k))
                # key_upd k,
           curhs_remove e (fold curhs_remove (hs_unstable_prefix env T vs) hs))
      | None \<Rightarrow> (0, wt_upd_alloc_tombstone # key_upd k, fold curhs_remove vs hs))"
proof -
  have g: "\<forall>e. curhs_get_ret env e = 0" and r: "\<forall>e. curhs_remove_ret env e = 0"
    and o: "curhs_open_ret env = 0" "buf_ret env = 0" "upd_alloc_ret env = 0"
    using nf by (auto simp: rts_no_faults_def hs_no_faults_def)
  show ?thesis
  proof (cases "find (hs_entry_stable env T) vs")
    case None
    then show ?thesis
      using find_stable_unstable_prefix[OF None]
      by (simp add: rollback_ondisk_fixup_key_def o fixup_scan_no_faults[OF g r]
          rollback_modify_no_faults[OF nf] vs_def[symmetric])
  next
    case (Some e)
    then show ?thesis
      using r
      by (simp add: rollback_ondisk_fixup_key_def o fixup_scan_no_faults[OF g r]
          rollback_modify_no_faults[OF nf] vs_def[symmetric] Let_def hs_tombstone_stable_def)
  qed
qed

lemma ex_rts_no_faults: "rts_no_faults ex_env"
  by (simp add: rts_no_faults_def hs_no_faults_def ex_env_def)

lemma ex_search_modify:
  "curhs_search_near_before (btree_id ex_env) (key_item ex_key) ex_hs_modify =
     [ex_hs_entry 200, (ex_hs_entry 120)\<lparr>hs_value := ''new''\<rparr>,
      (ex_hs_entry 90)\<lparr>hs_type := WT_UPDATE_MODIFY, hs_value := ''+d''\<rparr>, ex_hs_entry 50]"
  by (simp add: curhs_search_near_before_def ex_defs)

lemma ex_stable_simps:
  "hs_entry_stable ex_env 100 (ex_hs_entry t) = (t \<le> 100)"
  "hs_entry_stable ex_env 100 ((ex_hs_entry t)\<lparr>hs_value := v\<rparr>) = (t \<le> 100)"
  "hs_entry_stable ex_env 100 ((ex_hs_entry t)\<lparr>hs_type := ty, hs_value := v\<rparr>) = (t \<le> 100)"
  by (simp_all add: hs_entry_stable_def rollback_txn_visible_id_def ex_env_def ex_hs_entry_def)

lemma ex_unstable_prefix:
  "hs_unstable_prefix ex_env 100
     [ex_hs_entry 200, (ex_hs_entry 120)\<lparr>hs_value := ''new''\<rparr>,
      (ex_hs_entry 90)\<lparr>hs_type := WT_UPDATE_MODIFY, hs_value := ''+d''\<rparr>, ex_hs_entry 50]
   = [ex_hs_entry 200, (ex_hs_entry 120)\<lparr>hs_value := ''new''\<rparr>]"
  by (simp add: hs_unstable_prefix_def ex_stable_simps)

lemma ex_find_stable:
  "find (hs_entry_stable ex_env 100)
     [ex_hs_entry 200, (ex_hs_entry 120)\<lparr>hs_value := ''new''\<rparr>,
      (ex_hs_entry 90)\<lparr>hs_type := WT_UPDATE_MODIFY, hs_value := ''+d''\<rparr>, ex_hs_entry 50]
   = Some ((ex_hs_entry 90)\<lparr>hs_type := WT_UPDATE_MODIFY, hs_value := ''+d''\<rparr>)"
  by (simp add: ex_stable_simps)

lemma ex_full_value:
  "hs_full_value ex_env (key_tw ex_key) 100
     [ex_hs_entry 200, (ex_hs_entry 120)\<lparr>hs_value := ''new''\<rparr>,
      (ex_hs_entry 90)\<lparr>hs_type := WT_UPDATE_MODIFY, hs_value := ''+d''\<rparr>, ex_hs_entry 50]
     (key_value ex_key) = ''new+d''"
  unfolding hs_full_value_def ex_unstable_prefix
  by (simp add: hs_apply_def ex_defs)

lemma ex_fixup_removed:
  "fold curhs_remove [ex_hs_entry 200, (ex_hs_entry 120)\<lparr>hs_value := ''new''\<rparr>] ex_hs_modify =
     [ex_hs_entry 50, (ex_hs_entry 90)\<lparr>hs_type := WT_UPDATE_MODIFY, hs_value := ''+d''\<rparr>]"
  by (simp add: curhs_remove_def ex_defs)

text \<open>
  C2. The scan of the key fixer, with a history store cursor that does not fail. The
  cursor yields the key's records newest first. A record changes \<open>full_value\<close> only if it
  starts at or before the on-disk cell or the cell is prepared; a modify is then applied
  as a delta and any other record replaces the value. The scan stops at the first record
  that is stable (start transaction visible, durable timestamp at or before the stable
  timestamp) and reports it, or reports none when no record is stable. \<open>full_value\<close> is
  built from the records up to and including that one, and the records before it, which
  are the ones examined that did not stop the scan, are the ones removed from the
  history store.
\<close>

theorem rollback_ondisk_fixup_key_scan_steps:
  "(\<forall>e. curhs_get_ret env e = 0) \<and> (\<forall>e. curhs_remove_ret env e = 0) \<Longrightarrow>
   vs = curhs_search_near_before (btree_id env) (key_item k) hs \<Longrightarrow>
   sorted_wrt (\<lambda>a b. hs_start_ts b \<le> hs_start_ts a) vs \<and>
   rollback_ondisk_fixup_key_scan env (key_tw k) T vs (key_value k) hs =
     (Inr (find (hs_entry_stable env T) vs, hs_full_value env (key_tw k) T vs (key_value k)),
      fold curhs_remove (hs_unstable_prefix env T vs) hs) \<and>
   mset (fold curhs_remove (hs_unstable_prefix env T vs) hs) =
     mset hs - mset (hs_unstable_prefix env T vs) \<and>
   (\<forall>e\<in>set (hs_unstable_prefix env T vs). \<not> hs_entry_stable env T e) \<and>
   (\<forall>e. find (hs_entry_stable env T) vs = Some e \<longrightarrow>
      hs_entry_stable env T e \<and>
      vs = hs_unstable_prefix env T vs @ e # drop (Suc (length (hs_unstable_prefix env T vs))) vs) \<and>
   (find (hs_entry_stable env T) vs = None \<longrightarrow> hs_unstable_prefix env T vs = vs) \<and>
   (\<forall>v e. hs_apply env (key_tw k) v e =
      (if hs_start_ts e \<le> tw_start_ts (key_tw k) \<or> tw_prepare (key_tw k) then
         (if hs_type e = WT_UPDATE_MODIFY then modify_apply_item env v (hs_value e)
          else hs_value e)
       else v))"
proof -
  assume nf: "(\<forall>e. curhs_get_ret env e = 0) \<and> (\<forall>e. curhs_remove_ret env e = 0)"
    and vs: "vs = curhs_search_near_before (btree_id env) (key_item k) hs"
  have 1: "sorted_wrt (\<lambda>a b. hs_start_ts b \<le> hs_start_ts a) vs"
    unfolding vs by (rule search_before_desc)
  have 2: "rollback_ondisk_fixup_key_scan env (key_tw k) T vs (key_value k) hs =
     (Inr (find (hs_entry_stable env T) vs, hs_full_value env (key_tw k) T vs (key_value k)),
      fold curhs_remove (hs_unstable_prefix env T vs) hs)"
    using nf by (intro fixup_scan_no_faults) simp_all
  have 3: "mset (fold curhs_remove (hs_unstable_prefix env T vs) hs) =
     mset hs - mset (hs_unstable_prefix env T vs)"
    by (rule mset_fold_curhs_remove)
  have 4: "\<forall>e\<in>set (hs_unstable_prefix env T vs). \<not> hs_entry_stable env T e"
    using unstable_prefix_unstable by blast
  have 5: "\<forall>e. find (hs_entry_stable env T) vs = Some e \<longrightarrow>
      hs_entry_stable env T e \<and>
      vs = hs_unstable_prefix env T vs @ e # drop (Suc (length (hs_unstable_prefix env T vs))) vs"
    using find_stable_split by blast
  have 6: "find (hs_entry_stable env T) vs = None \<longrightarrow> hs_unstable_prefix env T vs = vs"
    using find_stable_unstable_prefix by blast
  have 7: "\<forall>v e. hs_apply env (key_tw k) v e =
      (if hs_start_ts e \<le> tw_start_ts (key_tw k) \<or> tw_prepare (key_tw k) then
         (if hs_type e = WT_UPDATE_MODIFY then modify_apply_item env v (hs_value e)
          else hs_value e)
       else v)"
    by (simp add: hs_apply_def)
  from 1 2 3 4 5 6 7 show ?thesis by (intro conjI)
qed

theorem rollback_ondisk_fixup_key_scan_steps_witness:
  "(\<forall>e. curhs_get_ret ex_env e = 0) \<and> (\<forall>e. curhs_remove_ret ex_env e = 0) \<and>
   curhs_search_near_before (btree_id ex_env) (key_item ex_key) ex_hs_modify =
     [ex_hs_entry 200, (ex_hs_entry 120)\<lparr>hs_value := ''new''\<rparr>,
      (ex_hs_entry 90)\<lparr>hs_type := WT_UPDATE_MODIFY, hs_value := ''+d''\<rparr>, ex_hs_entry 50] \<and>
   rollback_ondisk_fixup_key_scan ex_env (key_tw ex_key) 100
     [ex_hs_entry 200, (ex_hs_entry 120)\<lparr>hs_value := ''new''\<rparr>,
      (ex_hs_entry 90)\<lparr>hs_type := WT_UPDATE_MODIFY, hs_value := ''+d''\<rparr>, ex_hs_entry 50]
     (key_value ex_key) ex_hs_modify =
     (Inr (Some ((ex_hs_entry 90)\<lparr>hs_type := WT_UPDATE_MODIFY, hs_value := ''+d''\<rparr>), ''new+d''),
      [ex_hs_entry 50, (ex_hs_entry 90)\<lparr>hs_type := WT_UPDATE_MODIFY, hs_value := ''+d''\<rparr>])"
proof -
  have nf: "(\<forall>e. curhs_get_ret ex_env e = 0) \<and> (\<forall>e. curhs_remove_ret ex_env e = 0)"
    by (simp add: ex_env_def)
  note w = rollback_ondisk_fixup_key_scan_steps[OF nf ex_search_modify[symmetric], of 100,
      THEN conjunct2, THEN conjunct1]
  note w' = w[unfolded ex_find_stable ex_full_value ex_unstable_prefix ex_fixup_removed]
  from nf[THEN conjunct1] nf[THEN conjunct2] ex_search_modify w' show ?thesis
    by (intro conjI)
qed

lemma mset_curhs_remove: "mset (curhs_remove e hs) = mset hs - {#e#}"
  by (simp add: curhs_remove_def)

lemma abort_ondisk_kv_in_memory:
  assumes "rts_no_faults env" "conn_in_memory env" "\<not> dhandle_is_hs env"
    "ondisk_needs_fixup env T (key_tw k)"
  shows "rollback_abort_ondisk_kv env k T hs = (0, wt_upd_alloc_tombstone # key_upd k, hs, False)"
  using assms rollback_modify_no_faults[OF assms(1), of k "[wt_upd_alloc_tombstone]"]
  by (auto simp: rollback_abort_ondisk_kv_def ondisk_needs_fixup_def Let_def
      abort_ondisk_kv_modify_def rts_no_faults_def)

text \<open>
  C3. The key fixer after its scan, when no call fails. If the scan found a stable
  record, a \<^verbatim>\<open>WT_UPDATE_STANDARD\<close> update with the built \<open>full_value\<close> goes in front of the
  key's chain, with durable timestamp, start timestamp and transaction id of the
  record's time window (transaction id \<^verbatim>\<open>WT_TXN_NONE\<close> in recovery) and the flag
  \<^verbatim>\<open>WT_UPDATE_RESTORED_FROM_HS\<close>; exactly when the record's stop durable timestamp is at
  or before the stable timestamp and its stop transaction is visible, a tombstone with
  the stop side of the time window and the same flag goes in front of that update; and
  the matched record is removed from the history store as well. If the scan found no
  stable record, a single fresh tombstone goes in front of the chain. On an in-memory
  connection the caller does not consult the history store at all: where it would call
  the fixer, it puts a single fresh tombstone in front of the chain.
\<close>

theorem rollback_ondisk_fixup_key_restore:
  "rts_no_faults env \<Longrightarrow>
   vs = curhs_search_near_before (btree_id env) (key_item k) hs \<Longrightarrow>
   (\<forall>e. find (hs_entry_stable env T) vs = Some e \<longrightarrow>
      rollback_ondisk_fixup_key env k T hs =
        (0, (if hs_tombstone_stable env T e then [fixup_restored_tombstone env e] else [])
              @ fixup_restored_upd env e (hs_full_value env (key_tw k) T vs (key_value k))
              # key_upd k,
         curhs_remove e (fold curhs_remove (hs_unstable_prefix env T vs) hs)) \<and>
      mset (curhs_remove e (fold curhs_remove (hs_unstable_prefix env T vs) hs)) =
        mset hs - mset (hs_unstable_prefix env T vs) - {#e#}) \<and>
   (find (hs_entry_stable env T) vs = None \<longrightarrow>
      rollback_ondisk_fixup_key env k T hs =
        (0, wt_upd_alloc_tombstone # key_upd k, fold curhs_remove vs hs) \<and>
      mset (fold curhs_remove vs hs) = mset hs - mset vs) \<and>
   (\<forall>e v. fixup_restored_upd env e v =
      \<lparr>upd_txnid = (if conn_recovering env then WT_TXN_NONE else tw_start_txn (hs_tw e)),
       upd_durable_ts = tw_durable_start_ts (hs_tw e), upd_start_ts = tw_start_ts (hs_tw e),
       upd_prepare_state = WT_PREPARE_INIT, upd_type = WT_UPDATE_STANDARD,
       upd_flags = {WT_UPDATE_RESTORED_FROM_HS}, upd_data = v\<rparr>) \<and>
   (\<forall>e. fixup_restored_tombstone env e =
      \<lparr>upd_txnid = (if conn_recovering env then WT_TXN_NONE else tw_stop_txn (hs_tw e)),
       upd_durable_ts = tw_durable_stop_ts (hs_tw e), upd_start_ts = tw_stop_ts (hs_tw e),
       upd_prepare_state = WT_PREPARE_INIT, upd_type = WT_UPDATE_TOMBSTONE,
       upd_flags = {WT_UPDATE_RESTORED_FROM_HS}, upd_data = []\<rparr>) \<and>
   upd_type wt_upd_alloc_tombstone = WT_UPDATE_TOMBSTONE \<and>
   (conn_in_memory env \<and> \<not> dhandle_is_hs env \<and> ondisk_needs_fixup env T (key_tw k) \<longrightarrow>
      rollback_abort_ondisk_kv env k T hs =
        (0, wt_upd_alloc_tombstone # key_upd k, hs, False))"
proof -
  assume nf: "rts_no_faults env"
    and vs: "vs = curhs_search_near_before (btree_id env) (key_item k) hs"
  note run = fixup_key_no_faults[OF nf, of k T hs, folded vs]
  have 1: "\<forall>e. find (hs_entry_stable env T) vs = Some e \<longrightarrow>
      rollback_ondisk_fixup_key env k T hs =
        (0, (if hs_tombstone_stable env T e then [fixup_restored_tombstone env e] else [])
              @ fixup_restored_upd env e (hs_full_value env (key_tw k) T vs (key_value k))
              # key_upd k,
         curhs_remove e (fold curhs_remove (hs_unstable_prefix env T vs) hs)) \<and>
      mset (curhs_remove e (fold curhs_remove (hs_unstable_prefix env T vs) hs)) =
        mset hs - mset (hs_unstable_prefix env T vs) - {#e#}"
    using run by (simp add: mset_curhs_remove mset_fold_curhs_remove)
  have 2: "find (hs_entry_stable env T) vs = None \<longrightarrow>
      rollback_ondisk_fixup_key env k T hs =
        (0, wt_upd_alloc_tombstone # key_upd k, fold curhs_remove vs hs) \<and>
      mset (fold curhs_remove vs hs) = mset hs - mset vs"
    using run by (simp add: mset_fold_curhs_remove)
  have 3: "\<forall>e v. fixup_restored_upd env e v =
      \<lparr>upd_txnid = (if conn_recovering env then WT_TXN_NONE else tw_start_txn (hs_tw e)),
       upd_durable_ts = tw_durable_start_ts (hs_tw e), upd_start_ts = tw_start_ts (hs_tw e),
       upd_prepare_state = WT_PREPARE_INIT, upd_type = WT_UPDATE_STANDARD,
       upd_flags = {WT_UPDATE_RESTORED_FROM_HS}, upd_data = v\<rparr>"
    by (simp add: fixup_restored_upd_def wt_upd_alloc_def F_SET_def)
  have 4: "\<forall>e. fixup_restored_tombstone env e =
      \<lparr>upd_txnid = (if conn_recovering env then WT_TXN_NONE else tw_stop_txn (hs_tw e)),
       upd_durable_ts = tw_durable_stop_ts (hs_tw e), upd_start_ts = tw_stop_ts (hs_tw e),
       upd_prepare_state = WT_PREPARE_INIT, upd_type = WT_UPDATE_TOMBSTONE,
       upd_flags = {WT_UPDATE_RESTORED_FROM_HS}, upd_data = []\<rparr>"
    by (simp add: fixup_restored_tombstone_def wt_upd_alloc_tombstone_def wt_upd_alloc_def F_SET_def)
  have 5: "upd_type wt_upd_alloc_tombstone = WT_UPDATE_TOMBSTONE"
    by (simp add: wt_upd_alloc_tombstone_def wt_upd_alloc_def)
  have 6: "conn_in_memory env \<and> \<not> dhandle_is_hs env \<and> ondisk_needs_fixup env T (key_tw k) \<longrightarrow>
      rollback_abort_ondisk_kv env k T hs =
        (0, wt_upd_alloc_tombstone # key_upd k, hs, False)"
    using abort_ondisk_kv_in_memory[OF nf] by blast
  from 1 2 3 4 5 6 show ?thesis by (intro conjI)
qed

lemma ex_tombstone_stable:
  "hs_tombstone_stable ex_env 100 ((ex_hs_entry 90)\<lparr>hs_type := WT_UPDATE_MODIFY, hs_value := ''+d''\<rparr>)"
  by (simp add: hs_tombstone_stable_def rollback_txn_visible_id_def ex_env_def ex_hs_entry_def)

lemma ex_fixup_matched_removed:
  "curhs_remove ((ex_hs_entry 90)\<lparr>hs_type := WT_UPDATE_MODIFY, hs_value := ''+d''\<rparr>)
     [ex_hs_entry 50, (ex_hs_entry 90)\<lparr>hs_type := WT_UPDATE_MODIFY, hs_value := ''+d''\<rparr>] =
   [ex_hs_entry 50]"
  by (simp add: curhs_remove_def ex_defs)

lemma ex_in_memory_no_faults: "rts_no_faults (ex_env\<lparr>conn_in_memory := True\<rparr>)"
  by (simp add: rts_no_faults_def hs_no_faults_def ex_env_def)

lemma ex_needs_fixup:
  "conn_in_memory (ex_env\<lparr>conn_in_memory := True\<rparr>) \<and>
   \<not> dhandle_is_hs (ex_env\<lparr>conn_in_memory := True\<rparr>) \<and>
   ondisk_needs_fixup (ex_env\<lparr>conn_in_memory := True\<rparr>) 100 (key_tw ex_key)"
  by (simp add: ondisk_needs_fixup_def ex_defs)

theorem rollback_ondisk_fixup_key_restore_witness:
  "rts_no_faults ex_env \<and>
   find (hs_entry_stable ex_env 100)
     (curhs_search_near_before (btree_id ex_env) (key_item ex_key) ex_hs_modify) =
     Some ((ex_hs_entry 90)\<lparr>hs_type := WT_UPDATE_MODIFY, hs_value := ''+d''\<rparr>) \<and>
   rollback_ondisk_fixup_key ex_env ex_key 100 ex_hs_modify =
     (0, [fixup_restored_tombstone ex_env
            ((ex_hs_entry 90)\<lparr>hs_type := WT_UPDATE_MODIFY, hs_value := ''+d''\<rparr>),
          fixup_restored_upd ex_env
            ((ex_hs_entry 90)\<lparr>hs_type := WT_UPDATE_MODIFY, hs_value := ''+d''\<rparr>) ''new+d''],
      [ex_hs_entry 50]) \<and>
   rts_no_faults (ex_env\<lparr>conn_in_memory := True\<rparr>) \<and>
   ondisk_needs_fixup (ex_env\<lparr>conn_in_memory := True\<rparr>) 100 (key_tw ex_key) \<and>
   rollback_abort_ondisk_kv (ex_env\<lparr>conn_in_memory := True\<rparr>) ex_key 100 ex_hs_modify =
     (0, [wt_upd_alloc_tombstone], ex_hs_modify, False)"
proof -
  note w = rollback_ondisk_fixup_key_restore[OF ex_rts_no_faults ex_search_modify[symmetric],
      of 100, THEN conjunct1, rule_format, OF ex_find_stable, THEN conjunct1]
  note w' = w[unfolded ex_full_value ex_unstable_prefix ex_fixup_removed
      ex_fixup_matched_removed]
  have a: "rollback_ondisk_fixup_key ex_env ex_key 100 ex_hs_modify =
     (0, [fixup_restored_tombstone ex_env
            ((ex_hs_entry 90)\<lparr>hs_type := WT_UPDATE_MODIFY, hs_value := ''+d''\<rparr>),
          fixup_restored_upd ex_env
            ((ex_hs_entry 90)\<lparr>hs_type := WT_UPDATE_MODIFY, hs_value := ''+d''\<rparr>) ''new+d''],
      [ex_hs_entry 50])"
    using w' ex_tombstone_stable by (simp add: ex_key_def)
  note m = rollback_ondisk_fixup_key_restore[where k = ex_key and T = 100 and hs = ex_hs_modify,
      OF ex_in_memory_no_faults refl]
  have b: "rollback_abort_ondisk_kv (ex_env\<lparr>conn_in_memory := True\<rparr>) ex_key 100 ex_hs_modify =
     (0, [wt_upd_alloc_tombstone], ex_hs_modify, False)"
    using m[THEN conjunct2, THEN conjunct2, THEN conjunct2, THEN conjunct2, THEN conjunct2,
        rule_format, OF ex_needs_fixup]
    by (simp add: ex_key_def)
  have f: "find (hs_entry_stable ex_env 100)
     (curhs_search_near_before (btree_id ex_env) (key_item ex_key) ex_hs_modify) =
     Some ((ex_hs_entry 90)\<lparr>hs_type := WT_UPDATE_MODIFY, hs_value := ''+d''\<rparr>)"
    unfolding ex_search_modify by (rule ex_find_stable)
  from ex_rts_no_faults f a ex_in_memory_no_faults
    ex_needs_fixup[THEN conjunct2, THEN conjunct2] b
  show ?thesis by (intro conjI)
qed

lemma abort_ondisk_kv_resurrect:
  assumes nf: "rts_no_faults env" and ds: "\<not> dhandle_is_hs env"
    and stop: "WT_TIME_WINDOW_HAS_STOP (key_tw k)"
    and unstable: "T < tw_durable_stop_ts (key_tw k)
        \<or> \<not> rollback_txn_visible_id env (tw_stop_txn (key_tw k)) \<or> tw_prepare (key_tw k)"
    and start: "tw_durable_start_ts (key_tw k) \<le> T
        \<and> rollback_txn_visible_id env (tw_start_txn (key_tw k))"
    and differ: "\<not> (tw_start_ts (key_tw k) = tw_stop_ts (key_tw k)
        \<and> tw_durable_start_ts (key_tw k) = tw_durable_stop_ts (key_tw k)
        \<and> tw_start_txn (key_tw k) = tw_stop_txn (key_tw k))"
  shows "rollback_abort_ondisk_kv env k T hs = (0, ondisk_restored_upd env k # key_upd k, hs, False)"
proof -
  have o: "buf_ret env = 0" "upd_alloc_ret env = 0"
    using nf by (auto simp: rts_no_faults_def hs_no_faults_def)
  have s: "\<not> T < tw_durable_start_ts (key_tw k)" using start by (simp add: not_less)
  show ?thesis
    unfolding rollback_abort_ondisk_kv_def Let_def abort_ondisk_kv_modify_def
    using ds stop unstable start differ s o
      rollback_modify_no_faults[OF nf, of k "[ondisk_restored_upd env k]"]
    by auto
qed

text \<open>
  C8. On a data store key whose on-disk time window has a stop side that is unstable
  (stop durable timestamp after the stable timestamp, or stop transaction not visible,
  or prepared) while its start side is stable, and whose start and stop sides are not
  identical, the function, when no call fails, puts in front of the key's chain one
  \<^verbatim>\<open>WT_UPDATE_STANDARD\<close> update with the on-disk value, the on-disk start timestamp,
  durable start timestamp and start transaction id (\<^verbatim>\<open>WT_TXN_NONE\<close> in recovery) and the
  flag \<^verbatim>\<open>WT_UPDATE_RESTORED_FROM_DS\<close>; it leaves the history store alone.
\<close>

theorem rollback_abort_ondisk_kv_undo_removal:
  "rts_no_faults env \<and> \<not> dhandle_is_hs env \<Longrightarrow>
   WT_TIME_WINDOW_HAS_STOP (key_tw k) \<and>
   (T < tw_durable_stop_ts (key_tw k)
      \<or> \<not> rollback_txn_visible_id env (tw_stop_txn (key_tw k)) \<or> tw_prepare (key_tw k)) \<Longrightarrow>
   tw_durable_start_ts (key_tw k) \<le> T \<and> rollback_txn_visible_id env (tw_start_txn (key_tw k)) \<Longrightarrow>
   \<not> (tw_start_ts (key_tw k) = tw_stop_ts (key_tw k)
        \<and> tw_durable_start_ts (key_tw k) = tw_durable_stop_ts (key_tw k)
        \<and> tw_start_txn (key_tw k) = tw_stop_txn (key_tw k)) \<Longrightarrow>
   rollback_abort_ondisk_kv env k T hs = (0, ondisk_restored_upd env k # key_upd k, hs, False) \<and>
   ondisk_restored_upd env k =
     \<lparr>upd_txnid = (if conn_recovering env then WT_TXN_NONE else tw_start_txn (key_tw k)),
      upd_durable_ts = tw_durable_start_ts (key_tw k), upd_start_ts = tw_start_ts (key_tw k),
      upd_prepare_state = WT_PREPARE_INIT, upd_type = WT_UPDATE_STANDARD,
      upd_flags = {WT_UPDATE_RESTORED_FROM_DS}, upd_data = key_value k\<rparr>"
proof -
  assume a: "rts_no_faults env \<and> \<not> dhandle_is_hs env"
    and b: "WT_TIME_WINDOW_HAS_STOP (key_tw k) \<and>
   (T < tw_durable_stop_ts (key_tw k)
      \<or> \<not> rollback_txn_visible_id env (tw_stop_txn (key_tw k)) \<or> tw_prepare (key_tw k))"
    and c: "tw_durable_start_ts (key_tw k) \<le> T \<and> rollback_txn_visible_id env (tw_start_txn (key_tw k))"
    and d: "\<not> (tw_start_ts (key_tw k) = tw_stop_ts (key_tw k)
        \<and> tw_durable_start_ts (key_tw k) = tw_durable_stop_ts (key_tw k)
        \<and> tw_start_txn (key_tw k) = tw_stop_txn (key_tw k))"
  have 1: "rollback_abort_ondisk_kv env k T hs =
      (0, ondisk_restored_upd env k # key_upd k, hs, False)"
    by (rule abort_ondisk_kv_resurrect[OF a[THEN conjunct1] a[THEN conjunct2]
          b[THEN conjunct1] b[THEN conjunct2] c d])
  have 2: "ondisk_restored_upd env k =
     \<lparr>upd_txnid = (if conn_recovering env then WT_TXN_NONE else tw_start_txn (key_tw k)),
      upd_durable_ts = tw_durable_start_ts (key_tw k), upd_start_ts = tw_start_ts (key_tw k),
      upd_prepare_state = WT_PREPARE_INIT, upd_type = WT_UPDATE_STANDARD,
      upd_flags = {WT_UPDATE_RESTORED_FROM_DS}, upd_data = key_value k\<rparr>"
    by (simp add: ondisk_restored_upd_def wt_upd_alloc_def F_SET_def)
  from 1 2 show ?thesis by (intro conjI)
qed

theorem rollback_abort_ondisk_kv_undo_removal_witness:
  "rts_no_faults ex_env \<and> \<not> dhandle_is_hs ex_env \<and>
   WT_TIME_WINDOW_HAS_STOP (key_tw ex_key_removed) \<and>
   100 < tw_durable_stop_ts (key_tw ex_key_removed) \<and>
   tw_durable_start_ts (key_tw ex_key_removed) \<le> 100 \<and>
   rollback_txn_visible_id ex_env (tw_start_txn (key_tw ex_key_removed)) \<and>
   tw_start_ts (key_tw ex_key_removed) \<noteq> tw_stop_ts (key_tw ex_key_removed) \<and>
   rollback_abort_ondisk_kv ex_env ex_key_removed 100 ex_hs =
     (0, [\<lparr>upd_txnid = 3, upd_durable_ts = 80, upd_start_ts = 80,
           upd_prepare_state = WT_PREPARE_INIT, upd_type = WT_UPDATE_STANDARD,
           upd_flags = {WT_UPDATE_RESTORED_FROM_DS}, upd_data = ''v1''\<rparr>], ex_hs, False)"
proof -
  have a: "rts_no_faults ex_env \<and> \<not> dhandle_is_hs ex_env"
    using ex_rts_no_faults by (simp add: ex_env_def)
  have b1: "WT_TIME_WINDOW_HAS_STOP (key_tw ex_key_removed)"
    and b2: "100 < tw_durable_stop_ts (key_tw ex_key_removed)"
    and c1: "tw_durable_start_ts (key_tw ex_key_removed) \<le> 100"
    and c2: "rollback_txn_visible_id ex_env (tw_start_txn (key_tw ex_key_removed))"
    and d: "tw_start_ts (key_tw ex_key_removed) \<noteq> tw_stop_ts (key_tw ex_key_removed)"
    by (simp_all add: WT_TIME_WINDOW_HAS_STOP_def WT_TXN_MAX_def WT_TS_MAX_def
        rollback_txn_visible_id_def ex_defs)
  have b: "WT_TIME_WINDOW_HAS_STOP (key_tw ex_key_removed) \<and>
   (100 < tw_durable_stop_ts (key_tw ex_key_removed)
      \<or> \<not> rollback_txn_visible_id ex_env (tw_stop_txn (key_tw ex_key_removed))
      \<or> tw_prepare (key_tw ex_key_removed))"
    using b1 b2 by simp
  have d': "\<not> (tw_start_ts (key_tw ex_key_removed) = tw_stop_ts (key_tw ex_key_removed)
        \<and> tw_durable_start_ts (key_tw ex_key_removed) = tw_durable_stop_ts (key_tw ex_key_removed)
        \<and> tw_start_txn (key_tw ex_key_removed) = tw_stop_txn (key_tw ex_key_removed))"
    using d by simp
  note w = rollback_abort_ondisk_kv_undo_removal[OF a b conjI[OF c1 c2] d', of ex_hs]
  have r: "rollback_abort_ondisk_kv ex_env ex_key_removed 100 ex_hs =
     (0, [\<lparr>upd_txnid = 3, upd_durable_ts = 80, upd_start_ts = 80,
           upd_prepare_state = WT_PREPARE_INIT, upd_type = WT_UPDATE_STANDARD,
           upd_flags = {WT_UPDATE_RESTORED_FROM_DS}, upd_data = ''v1''\<rparr>], ex_hs, False)"
    using w by (simp add: ex_key_removed_def ex_env_def)
  from a[THEN conjunct1] a[THEN conjunct2] b1 b2 c1 c2 d r show ?thesis by (intro conjI)
qed

section \<open>Properties of the page test\<close>

lemma page_needs_abort_multi_fst:
  "(T < fst (page_needs_abort_multi env tas (d, p))) =
     (T < d \<or> (\<exists>ta\<in>set tas. T < rollback_get_ref_max_durable_timestamp env ta))"
  by (induction tas arbitrary: d p) (auto simp: less_max_iff_disj)

lemma page_needs_abort_multi_snd:
  "snd (page_needs_abort_multi env tas (d, p)) = (p \<or> (\<exists>ta\<in>set tas. ta_prepare ta))"
  by (induction tas arbitrary: d p) auto

lemma ts_none_least: "\<not> T < WT_TS_NONE"
  by (simp add: WT_TS_NONE_def)

text \<open>
  What the function computes, branch by branch: for a replacement address and for
  multi-block addresses the durable timestamps and the prepared flags only; for an
  on-page cell and an off-page address also the test of the newest transaction id during
  recovery; false when there is none of them.
\<close>

lemma page_needs_abort_branches:
  "rollback_page_needs_abort env ref T =
     (case ref_selected_aggregate ref of
        SEL_REPLACE ta \<Rightarrow>
          T < rollback_get_ref_max_durable_timestamp env ta \<or> ta_prepare ta
      | SEL_MULTI tas \<Rightarrow>
          (\<exists>ta\<in>set tas. T < rollback_get_ref_max_durable_timestamp env ta)
          \<or> (\<exists>ta\<in>set tas. ta_prepare ta)
      | SEL_ON_PAGE ta \<Rightarrow>
          T < rollback_get_ref_max_durable_timestamp env ta \<or> ta_prepare ta
          \<or> (conn_recovering env \<and> recovery_ckpt_snap_min env \<le> ta_newest_txn ta)
      | SEL_OFF_PAGE ta \<Rightarrow>
          T < rollback_get_ref_max_durable_timestamp env ta \<or> ta_prepare ta
          \<or> (conn_recovering env \<and> recovery_ckpt_snap_min env \<le> ta_newest_txn ta)
      | SEL_NONE \<Rightarrow> False)
   \<and> (\<forall>ta. rollback_get_ref_max_durable_timestamp env ta =
         (if dhandle_is_hs env then max (ta_newest_stop_durable_ts ta) (ta_newest_stop_ts ta)
          else max (ta_newest_start_durable_ts ta) (ta_newest_stop_durable_ts ta)))"
proof -
  have addr: "page_needs_abort_by_addr env ref T =
     (case ref_addr_aggregate ref of
        SEL_ON_PAGE ta \<Rightarrow>
          T < rollback_get_ref_max_durable_timestamp env ta \<or> ta_prepare ta
          \<or> (conn_recovering env \<and> recovery_ckpt_snap_min env \<le> ta_newest_txn ta)
      | SEL_OFF_PAGE ta \<Rightarrow>
          T < rollback_get_ref_max_durable_timestamp env ta \<or> ta_prepare ta
          \<or> (conn_recovering env \<and> recovery_ckpt_snap_min env \<le> ta_newest_txn ta)
      | _ \<Rightarrow> False)"
    by (simp add: page_needs_abort_by_addr_def ref_addr_aggregate_def page_needs_abort_addr_def
        WT_CHECK_RECOVERY_FLAG_TXNID_def Let_def split: ref_addr.splits)
  have addr_shape: "ref_addr_aggregate ref = SEL_NONE \<or> (\<exists>ta. ref_addr_aggregate ref = SEL_ON_PAGE ta)
      \<or> (\<exists>ta. ref_addr_aggregate ref = SEL_OFF_PAGE ta)"
    by (simp add: ref_addr_aggregate_def split: ref_addr.splits)
  have multi: "\<And>tas. (case page_needs_abort_multi env tas (WT_TS_NONE, False) of
               (durable_ts, prepared) \<Rightarrow> T < durable_ts \<or> prepared) =
        ((\<exists>ta\<in>set tas. T < rollback_get_ref_max_durable_timestamp env ta)
          \<or> (\<exists>ta\<in>set tas. ta_prepare ta))"
    using page_needs_abort_multi_fst[of T env _ WT_TS_NONE False]
      page_needs_abort_multi_snd[of env _ WT_TS_NONE False]
    by (simp add: case_prod_unfold ts_none_least)
  have 1: "rollback_page_needs_abort env ref T =
     (case ref_selected_aggregate ref of
        SEL_REPLACE ta \<Rightarrow>
          T < rollback_get_ref_max_durable_timestamp env ta \<or> ta_prepare ta
      | SEL_MULTI tas \<Rightarrow>
          (\<exists>ta\<in>set tas. T < rollback_get_ref_max_durable_timestamp env ta)
          \<or> (\<exists>ta\<in>set tas. ta_prepare ta)
      | SEL_ON_PAGE ta \<Rightarrow>
          T < rollback_get_ref_max_durable_timestamp env ta \<or> ta_prepare ta
          \<or> (conn_recovering env \<and> recovery_ckpt_snap_min env \<le> ta_newest_txn ta)
      | SEL_OFF_PAGE ta \<Rightarrow>
          T < rollback_get_ref_max_durable_timestamp env ta \<or> ta_prepare ta
          \<or> (conn_recovering env \<and> recovery_ckpt_snap_min env \<le> ta_newest_txn ta)
      | SEL_NONE \<Rightarrow> False)"
    using addr_shape
    by (auto simp: rollback_page_needs_abort_def ref_selected_aggregate_def addr multi Let_def
        split: option.splits)
  have 2: "\<forall>ta. rollback_get_ref_max_durable_timestamp env ta =
         (if dhandle_is_hs env then max (ta_newest_stop_durable_ts ta) (ta_newest_stop_ts ta)
          else max (ta_newest_start_durable_ts ta) (ta_newest_stop_durable_ts ta))"
    by (simp add: rollback_get_ref_max_durable_timestamp_def)
  from 1 2 show ?thesis by (intro conjI)
qed

text \<open>
  For an on-page cell and an off-page address the function returns what the
  specification says: the three-way disjunction over the selected aggregate.
\<close>

lemma page_needs_abort_addr_as_claimed:
  assumes "ref_selected_aggregate ref = SEL_ON_PAGE ta \<or> ref_selected_aggregate ref = SEL_OFF_PAGE ta"
  shows "rollback_page_needs_abort env ref T = page_needs_abort_claimed env ref T"
  using assms page_needs_abort_branches[of env ref T, THEN conjunct1]
  by (auto simp: page_needs_abort_claimed_def ta_needs_abort_claimed_def)

text \<open>
  Claim C5. The function is to return true iff \<open>D > T\<close>, or the selected aggregate is
  prepared, or recovery is active and the aggregate's newest transaction id is at or
  after the recovered snapshot minimum; the comment at the head of the function says
  the same of all four aggregates. The replace branch (like the multi-block branch) does
  not read \<^verbatim>\<open>newest_txn\<close>. Here recovery is active with snapshot minimum 50, the stable
  timestamp is 100, and the aggregate has \<open>D = 90\<close>, nothing prepared and newest
  transaction id 60: behind a replacement block the function returns false where the
  claim says true, and behind an on-page cell or an off-page address the same aggregate
  makes it return true.
\<close>

theorem rollback_page_needs_abort_replace_in_recovery:
  "rollback_page_needs_abort ex_env_recovering ex_ref_replace 100 = False \<and>
   page_needs_abort_claimed ex_env_recovering ex_ref_replace 100 = True \<and>
   ref_selected_aggregate ex_ref_replace = SEL_REPLACE ex_ta \<and>
   conn_recovering ex_env_recovering \<and>
   recovery_ckpt_snap_min ex_env_recovering = 50 \<and>
   ta_newest_txn ex_ta = 60 \<and>
   rollback_get_ref_max_durable_timestamp ex_env_recovering ex_ta = 90 \<and>
   ta_prepare ex_ta = False \<and>
   ref_selected_aggregate ex_ref_on_page = SEL_ON_PAGE ex_ta \<and>
   rollback_page_needs_abort ex_env_recovering ex_ref_on_page 100 = True \<and>
   ref_selected_aggregate ex_ref_off_page = SEL_OFF_PAGE ex_ta \<and>
   rollback_page_needs_abort ex_env_recovering ex_ref_off_page 100 = True"
  by (simp add: rollback_page_needs_abort_def page_needs_abort_claimed_def
      ref_selected_aggregate_def ref_addr_aggregate_def ta_needs_abort_claimed_def
      page_needs_abort_by_addr_def page_needs_abort_addr_def WT_CHECK_RECOVERY_FLAG_TXNID_def
      rollback_get_ref_max_durable_timestamp_def ex_defs ex_ref_on_page_def
      ex_ref_off_page_def Let_def)

section \<open>Properties of the fast truncate rollback\<close>






lemma ex_fast_truncate_run:
  "rollback_abort_fast_truncate ex_sys 100 ex_children
     = (0, [(ex_child 130)\<lparr> ref_state := WT_REF_DISK, ref_ft_info_del := None \<rparr>, ex_child 90])"
  by (simp add: ex_children_def ex_child_def ex_sys_def fast_truncate_unstable_def)







section \<open>Properties of the object driver\<close>

lemma hs_truncate_loop_cases:
  "(case rollback_to_stable_btree_hs_truncate_loop env es hs of
      (Inl ret, hs') \<Rightarrow> ret \<noteq> 0
    | (Inr ret, hs') \<Rightarrow> ret = WT_NOTFOUND \<and> hs' = fold curhs_remove es hs)"
proof (induction es arbitrary: hs)
  case Nil
  show ?case by simp
next
  case (Cons a es)
  from Cons[of "curhs_remove a hs"] show ?case
    by (auto split: prod.splits sum.splits)
qed

lemma hs_truncate_loop_result:
  "rollback_to_stable_btree_hs_truncate_loop env es hs = (r, hs')
     \<Longrightarrow> (case r of Inl ret \<Rightarrow> ret \<noteq> 0
                   | Inr ret \<Rightarrow> ret = WT_NOTFOUND \<and> hs' = fold curhs_remove es hs)"
  using hs_truncate_loop_cases[where env = env and es = es and hs = hs]
  by (simp split: sum.splits)

lemma mset_search_after:
  "mset (curhs_search_near_after bid hs) = filter_mset (\<lambda>e. hs_btree_id e = bid) (mset hs)"
  by (simp add: curhs_search_near_after_def)

lemma hs_truncate_success:
  assumes "rollback_to_stable_btree_hs_truncate env bid hs = (0, hs')"
  shows "mset hs' = filter_mset (\<lambda>e. hs_btree_id e \<noteq> bid) (mset hs)"
proof -
  obtain r h where l: "rollback_to_stable_btree_hs_truncate_loop env
                         (curhs_search_near_after bid hs) hs = (r, h)"
    by (cases "rollback_to_stable_btree_hs_truncate_loop env (curhs_search_near_after bid hs) hs")
  from hs_truncate_loop_result[OF l] assms l
  have "hs' = fold curhs_remove (curhs_search_near_after bid hs) hs"
    by (auto simp: rollback_to_stable_btree_hs_truncate_def split: if_splits sum.splits)
  then have "mset hs' = mset hs - filter_mset (\<lambda>e. hs_btree_id e = bid) (mset hs)"
    by (simp add: mset_fold_curhs_remove mset_search_after)
  also have "\<dots> = filter_mset (\<lambda>e. hs_btree_id e \<noteq> bid) (mset hs)"
    by (rule multiset_eqI) simp
  finally show ?thesis .
qed

lemma hs_truncate_loop_no_faults:
  "\<forall>e. curhs_get_ret env e = 0 \<Longrightarrow> \<forall>e. curhs_remove_ret env e = 0 \<Longrightarrow>
   rollback_to_stable_btree_hs_truncate_loop env es hs = (Inr WT_NOTFOUND, fold curhs_remove es hs)"
  by (induction es arbitrary: hs) auto

lemma hs_truncate_no_faults:
  assumes "hs_no_faults env"
  shows "fst (rollback_to_stable_btree_hs_truncate env bid hs) = 0"
proof -
  have g: "\<forall>e. curhs_get_ret env e = 0" and r: "\<forall>e. curhs_remove_ret env e = 0"
    and o: "curhs_open_ret env = 0" "buf_ret env = 0"
    using assms by (auto simp: hs_no_faults_def)
  show ?thesis
    by (simp add: rollback_to_stable_btree_hs_truncate_def o
        hs_truncate_loop_no_faults[OF g r] notfound_ok_def)
qed

lemma btree_apply_truncate_result:
  assumes "btree_apply_truncate env st0 uri config da D = (0, st')"
  shows "st_btree st' = st_btree st0
       \<and> ((\<not> da \<or> \<not> btree_modified (st_btree st0 uri)) \<and> D = WT_TS_NONE \<and> \<not> conn_in_memory env
            \<longrightarrow> st_trace st' = st_trace st0 @ [EV_HS_TRUNCATE (config_btree_id config)]
              \<and> mset (st_hs st')
                  = filter_mset (\<lambda>e. hs_btree_id e \<noteq> config_btree_id config) (mset (st_hs st0)))
       \<and> (\<not> ((\<not> da \<or> \<not> btree_modified (st_btree st0 uri)) \<and> D = WT_TS_NONE
               \<and> \<not> conn_in_memory env)
            \<longrightarrow> st' = st0)"
proof (cases "(\<not> da \<or> \<not> btree_modified (st_btree st0 uri)) \<and> D = WT_TS_NONE
               \<and> \<not> conn_in_memory env")
  case False
  with assms have "st' = st0" by (auto simp: btree_apply_truncate_def)
  with False show ?thesis by simp
next
  case True
  obtain ret cval where c: "cfg_id config = (ret, cval)" by (cases "cfg_id config")
  obtain r h where t: "rollback_to_stable_btree_hs_truncate env (word_of_int (ci_val cval))
                         (st_hs st0) = (r, h)"
    by (cases "rollback_to_stable_btree_hs_truncate env (word_of_int (ci_val cval)) (st_hs st0)")
  from assms True c t have r0: "r = 0" and ret0: "ret = 0"
    and st': "st' = st0\<lparr> st_hs := h,
                         st_trace := st_trace st0 @ [EV_HS_TRUNCATE (word_of_int (ci_val cval))] \<rparr>"
    by (auto simp: btree_apply_truncate_def split: if_splits)
  have i: "config_btree_id config = word_of_int (ci_val cval)"
    by (simp add: config_btree_id_def c)
  from hs_truncate_success[OF t[unfolded r0]] st' i True show ?thesis by simp
qed


lemma btree_apply_shape:
  fixes sys env st uri config T s st'
  assumes F: "catalog_file uri"
      and P: "btree_apply_ckpt sys config = Inr s"
      and K: "\<not> btree_apply_skip env st s"
      and R: "rollback_to_stable_btree_apply sys env st uri config T = (0, st')"
  defines "proc \<equiv> decides_to_process sys env st uri s T"
  defines "trunc \<equiv> (scan_max_durable_ts s = WT_TS_NONE \<and> \<not> conn_in_memory env
                      \<and> (\<not> proc \<or> \<not> btree_modified (st_btree st' uri)))"
  shows "new_events st st'
           = (if proc then [EV_BTREE_RTS uri] else [])
             @ (if trunc then [EV_HS_TRUNCATE (config_btree_id config)] else [])"
    and "trunc \<Longrightarrow> \<forall>e\<in>set (st_hs st'). hs_btree_id e \<noteq> config_btree_id config"
    and "\<not> proc \<Longrightarrow> trunc \<Longrightarrow>
           mset (st_hs st')
             = filter_mset (\<lambda>e. hs_btree_id e \<noteq> config_btree_id config) (mset (st_hs st))"
    and "\<not> proc \<Longrightarrow> \<not> trunc \<Longrightarrow> st' = st"
proof -
  let ?D = "scan_max_durable_ts s"
  let ?id = "config_btree_id config"
  have dp: "btree_apply_process env
              (conn_dhandle_find_ret sys uri = 0 \<and> btree_modified (st_btree st uri)) s T = proc"
    by (simp add: btree_apply_process_def decides_to_process_def proc_def)
  from F have F': "\<not> (\<not> WT_PREFIX_MATCH uri ''file:'' \<or> uri = WT_HS_URI \<or> uri = WT_METAFILE_URI)"
    by (simp add: catalog_file_def)
  have set_hs: "set (st_hs st') \<subseteq> {e. hs_btree_id e \<noteq> ?id}"
    if "mset (st_hs st') = filter_mset (\<lambda>e. hs_btree_id e \<noteq> ?id) (mset h)" for h
  proof -
    have "set (st_hs st') = set_mset (mset (st_hs st'))" by simp
    also have "\<dots> = set_mset (filter_mset (\<lambda>e. hs_btree_id e \<noteq> ?id) (mset h))"
      by (simp only: that)
    finally show ?thesis by auto
  qed
  have "new_events st st'
           = (if proc then [EV_BTREE_RTS uri] else [])
             @ (if trunc then [EV_HS_TRUNCATE ?id] else [])
      \<and> (trunc \<longrightarrow> (\<forall>e\<in>set (st_hs st'). hs_btree_id e \<noteq> ?id))
      \<and> (\<not> proc \<longrightarrow> trunc \<longrightarrow>
           mset (st_hs st') = filter_mset (\<lambda>e. hs_btree_id e \<noteq> ?id) (mset (st_hs st)))
      \<and> (\<not> proc \<longrightarrow> \<not> trunc \<longrightarrow> st' = st)"
  proof (cases proc)
    case False
    from R F' P K False dp
    have t: "btree_apply_truncate env st uri config False ?D = (0, st')"
      by (simp add: rollback_to_stable_btree_apply_def Let_def split: if_splits)
    note tr = btree_apply_truncate_result[OF t]
    have tc: "trunc = ((\<not> False \<or> \<not> btree_modified (st_btree st uri)) \<and> ?D = WT_TS_NONE
                        \<and> \<not> conn_in_memory env)"
      using False by (simp add: trunc_def)
    show ?thesis
    proof (cases trunc)
      case True
      with tc tr have tr': "st_trace st' = st_trace st @ [EV_HS_TRUNCATE ?id]"
        and m: "mset (st_hs st') = filter_mset (\<lambda>e. hs_btree_id e \<noteq> ?id) (mset (st_hs st))"
        by simp_all
      from set_hs[OF m] have "\<forall>e\<in>set (st_hs st'). hs_btree_id e \<noteq> ?id" by auto
      with tr' m True False show ?thesis by (simp add: new_events_def)
    next
      case no: False
      with tc tr have "st' = st" by simp
      with no False show ?thesis by (simp add: new_events_def)
    qed
  next
    case True
    obtain r bt' hs1 where b: "rollback_to_stable_btree sys (env\<lparr> dhandle_is_hs := False \<rparr>)
                                 (st_btree st uri) T (st_hs st) = (r, bt', hs1)"
      by (cases "rollback_to_stable_btree sys (env\<lparr> dhandle_is_hs := False \<rparr>)
                   (st_btree st uri) T (st_hs st)")
    define st1 where "st1 = st\<lparr> st_hs := hs1, st_btree := (st_btree st)(uri := bt'),
                                 st_trace := st_trace st @ [EV_BTREE_RTS uri] \<rparr>"
    from R F' P K True dp b
    have t: "btree_apply_truncate env st1 uri config True ?D = (0, st')"
      by (simp add: rollback_to_stable_btree_apply_def Let_def st1_def split: if_splits)
    note tr = btree_apply_truncate_result[OF t]
    from tr have bt: "st_btree st' = st_btree st1" by simp
    have tc: "trunc = ((\<not> True \<or> \<not> btree_modified (st_btree st1 uri)) \<and> ?D = WT_TS_NONE
                        \<and> \<not> conn_in_memory env)"
      using True by (auto simp: trunc_def bt)
    have t1: "st_trace st1 = st_trace st @ [EV_BTREE_RTS uri]" by (simp add: st1_def)
    show ?thesis
    proof (cases trunc)
      case yes: True
      with tc tr have tr': "st_trace st' = st_trace st1 @ [EV_HS_TRUNCATE ?id]"
        and m: "mset (st_hs st') = filter_mset (\<lambda>e. hs_btree_id e \<noteq> ?id) (mset (st_hs st1))"
        by simp_all
      from set_hs[OF m] have "\<forall>e\<in>set (st_hs st'). hs_btree_id e \<noteq> ?id" by auto
      with tr' t1 yes True show ?thesis by (simp add: new_events_def)
    next
      case no: False
      with tc tr have "st' = st1" by simp
      with t1 no True show ?thesis by (simp add: new_events_def)
    qed
  qed
  then show "new_events st st'
           = (if proc then [EV_BTREE_RTS uri] else [])
             @ (if trunc then [EV_HS_TRUNCATE (config_btree_id config)] else [])"
    and "trunc \<Longrightarrow> \<forall>e\<in>set (st_hs st'). hs_btree_id e \<noteq> config_btree_id config"
    and "\<not> proc \<Longrightarrow> trunc \<Longrightarrow>
           mset (st_hs st')
             = filter_mset (\<lambda>e. hs_btree_id e \<noteq> config_btree_id config) (mset (st_hs st))"
    and "\<not> proc \<Longrightarrow> \<not> trunc \<Longrightarrow> st' = st"
    by simp_all
qed


text \<open>
  Claim C7, as amended. \<^verbatim>\<open>__rollback_to_stable_btree_apply\<close> on a catalog object that is a
  file other than the metadata and the history store, whose checkpoint list parses, that
  is not skipped for recovery or shutdown, when the call returns 0. The tree is rolled
  back exactly when step 4 decides to process it. Whether or not it was, the history
  store is truncated for the object's id exactly when the checkpoint's newest durable
  timestamp is 0, the connection is not in-memory, and the tree was not processed or is
  not modified after it was. When it is truncated, no record of the history store bears
  that id any more; and when the tree was not processed, the history store has lost
  exactly the records with that id.
\<close>

theorem rollback_to_stable_btree_apply_hs_truncate:
  assumes F: "catalog_file uri"
      and P: "btree_apply_ckpt sys config = Inr s"
      and K: "\<not> btree_apply_skip env st s"
      and R: "rollback_to_stable_btree_apply sys env st uri config T = (0, st')"
  shows "(EV_BTREE_RTS uri \<in> set (new_events st st')) = decides_to_process sys env st uri s T
       \<and> (EV_HS_TRUNCATE (config_btree_id config) \<in> set (new_events st st'))
           = (scan_max_durable_ts s = WT_TS_NONE \<and> \<not> conn_in_memory env
              \<and> (\<not> decides_to_process sys env st uri s T
                   \<or> \<not> btree_modified (st_btree st' uri)))
       \<and> (EV_HS_TRUNCATE (config_btree_id config) \<in> set (new_events st st')
            \<longrightarrow> (\<forall>e\<in>set (st_hs st'). hs_btree_id e \<noteq> config_btree_id config))
       \<and> (\<not> decides_to_process sys env st uri s T
            \<and> EV_HS_TRUNCATE (config_btree_id config) \<in> set (new_events st st')
            \<longrightarrow> mset (st_hs st')
                  = filter_mset (\<lambda>e. hs_btree_id e \<noteq> config_btree_id config) (mset (st_hs st)))"
proof -
  let ?proc = "decides_to_process sys env st uri s T"
  let ?trunc = "scan_max_durable_ts s = WT_TS_NONE \<and> \<not> conn_in_memory env
                  \<and> (\<not> ?proc \<or> \<not> btree_modified (st_btree st' uri))"
  let ?id = "config_btree_id config"
  note sh = btree_apply_shape[OF F P K R]
  have ev: "new_events st st'
           = (if ?proc then [EV_BTREE_RTS uri] else [])
             @ (if ?trunc then [EV_HS_TRUNCATE ?id] else [])"
    by (rule sh(1))
  have 1: "(EV_BTREE_RTS uri \<in> set (new_events st st')) = ?proc"
    unfolding ev by simp
  have 2: "(EV_HS_TRUNCATE ?id \<in> set (new_events st st')) = ?trunc"
    unfolding ev by simp
  have 3: "EV_HS_TRUNCATE ?id \<in> set (new_events st st')
            \<longrightarrow> (\<forall>e\<in>set (st_hs st'). hs_btree_id e \<noteq> ?id)"
    unfolding 2 using sh(2) by (intro impI)
  have 4: "\<not> ?proc \<and> EV_HS_TRUNCATE ?id \<in> set (new_events st st')
            \<longrightarrow> mset (st_hs st')
                  = filter_mset (\<lambda>e. hs_btree_id e \<noteq> ?id) (mset (st_hs st))"
    unfolding 2
  proof (intro impI)
    assume a: "\<not> ?proc \<and> ?trunc"
    from sh(3)[OF a[THEN conjunct1] a[THEN conjunct2]]
    show "mset (st_hs st') = filter_mset (\<lambda>e. hs_btree_id e \<noteq> ?id) (mset (st_hs st))" .
  qed
  from 1 2 3 4 show ?thesis by (intro conjI)
qed

lemma ex_search_after: "curhs_search_near_after 7 ex_hs = ex_hs"
  by (simp add: curhs_search_near_after_def ex_hs_def ex_hs_entry_def)

lemma ex_hs_truncate: "rollback_to_stable_btree_hs_truncate ex_env 7 ex_hs = (0, [])"
  unfolding rollback_to_stable_btree_hs_truncate_def ex_search_after
  by (simp add: ex_env_def ex_hs_def curhs_remove_def notfound_ok_def)

lemma ex_ckpt_zero:
  "btree_apply_ckpt ex_sys ex_config_zero = Inr ex_scan_zero"
  by (simp add: ex_scan_zero_def btree_apply_ckpt_def ex_config_zero_def ex_ckpt_num_def btree_apply_scan_entry_def
      ret_notfound_ok_def scan_newest_start_durable_ts_def scan_newest_stop_durable_ts_def
      scan_prepare_def scan_newest_txn_def scan_addr_def ckpt_scan_init_def WT_TS_NONE_def
      ex_sys_def)

lemma ex_ckpt_none_found:
  "btree_apply_ckpt ex_sys ex_config =
     Inr \<lparr> sc_newest_start_durable_ts = 0, sc_newest_stop_durable_ts = 0,
           sc_durable_ts_found = False, sc_prepared_updates = False,
           sc_rollback_txnid = 0, sc_addr_size = 1, sc_value = \<lparr> ci_len = 1, ci_val = 1 \<rparr> \<rparr>"
  by (simp add: btree_apply_ckpt_def ex_config_def ex_ckpt_num_def ex_ckpt_none_def
      btree_apply_scan_entry_def WT_NOTFOUND_def
      ret_notfound_ok_def scan_newest_start_durable_ts_def scan_newest_stop_durable_ts_def
      scan_prepare_def scan_newest_txn_def scan_addr_def ckpt_scan_init_def WT_TS_NONE_def
      ex_sys_def)

lemma ex_env_flags:
  "\<not> conn_recovering ex_env" "\<not> conn_closing_timestamp ex_env" "\<not> conn_in_memory ex_env"
  by (simp_all add: ex_env_def)

lemma ex_sys_handles:
  "conn_dhandle_find_ret ex_sys uri = WT_NOTFOUND" "session_get_dhandle_ret ex_sys uri = 0"
  by (simp_all add: ex_sys_def)

lemma ex_apply_zero:
  "rollback_to_stable_btree_apply ex_sys ex_env ex_state ''file:t.wt'' ex_config_zero 100
     = (0, ex_state\<lparr> st_hs := [], st_trace := [EV_HS_TRUNCATE 7] \<rparr>)"
proof -
  have h: "st_hs ex_state = ex_hs" "st_trace ex_state = []" by (simp_all add: ex_state_def)
  have i: "cfg_id ex_config_zero = (0, \<lparr> ci_len = 1, ci_val = 7 \<rparr>)"
    by (simp add: ex_config_zero_def ex_ckpt_num_def)
  show ?thesis
    unfolding rollback_to_stable_btree_apply_def ex_ckpt_zero btree_apply_truncate_def i
    by (simp add: h ex_scan_zero_def ex_hs_truncate WT_PREFIX_MATCH_def WT_HS_URI_def WT_METAFILE_URI_def
        btree_apply_skip_def btree_apply_process_def scan_max_durable_ts_def
        WT_CHECK_RECOVERY_FLAG_TXNID_def WT_NOTFOUND_def WT_TS_NONE_def ex_env_flags
        ex_sys_handles)
qed

lemma ex_walk:
  "rollback_to_stable_btree ex_sys (ex_env\<lparr> dhandle_is_hs := False \<rparr>) ex_btree 100 ex_hs
     = (0, ex_btree\<lparr> btree_refs :=
              [ex_internal\<lparr> walk_children :=
                 [(ex_child 130)\<lparr> ref_state := WT_REF_DISK, ref_ft_info_del := None \<rparr>,
                  ex_child 90] \<rparr>] \<rparr>, ex_hs)"
proof -
  have b: "btree_refs ex_btree = [ex_internal]" "\<not> btree_immediately_durable ex_btree"
    "\<not> btree_checkpoint_handle ex_btree" "\<not> btree_modified ex_btree"
    by (simp_all add: ex_btree_def)
  have i: "ref_state (walk_ref ex_internal) = WT_REF_MEM" "ref_flag_internal (walk_ref ex_internal)"
    "walk_children ex_internal = ex_children"
    by (simp_all add: ex_internal_def)
  have s: "tree_walk_ret ex_sys ex_internal = 0" by (simp add: ex_sys_def)
  show ?thesis
    unfolding rollback_to_stable_btree_def b
    by (simp add: wt_rts_page_skip_def i s ex_fast_truncate_run) (simp add: ex_btree_def)
qed


lemma ex_apply_none_found:
  "rollback_to_stable_btree_apply ex_sys ex_env ex_state ''file:t.wt'' ex_config 100
     = (0, ex_state\<lparr> st_hs := [],
              st_btree := (st_btree ex_state)(''file:t.wt'' :=
                ex_btree\<lparr> btree_refs :=
                  [ex_internal\<lparr> walk_children :=
                     [(ex_child 130)\<lparr> ref_state := WT_REF_DISK, ref_ft_info_del := None \<rparr>,
                      ex_child 90] \<rparr>] \<rparr>),
              st_trace := [EV_BTREE_RTS ''file:t.wt'', EV_HS_TRUNCATE 7] \<rparr>)"
proof -
  have h: "st_hs ex_state = ex_hs" "st_trace ex_state = []" "st_btree ex_state uri = ex_btree"
    for uri by (simp_all add: ex_state_def)
  have i: "cfg_id ex_config = (0, \<lparr> ci_len = 1, ci_val = 7 \<rparr>)"
    by (simp add: ex_config_def ex_ckpt_num_def)
  have m: "\<not> btree_modified ex_btree" by (simp add: ex_btree_def)
  show ?thesis
    unfolding rollback_to_stable_btree_apply_def ex_ckpt_none_found btree_apply_truncate_def i
    by (simp add: h m ex_walk ex_hs_truncate WT_PREFIX_MATCH_def WT_HS_URI_def WT_METAFILE_URI_def
        btree_apply_skip_def btree_apply_process_def scan_max_durable_ts_def
        WT_CHECK_RECOVERY_FLAG_TXNID_def WT_NOTFOUND_def WT_TS_NONE_def ex_env_flags
        ex_sys_handles)
qed

text \<open>
  The theorem at an object without timestamps that step 4 does not process: its four
  history store records are removed and no tree is rolled back.
\<close>

theorem rollback_to_stable_btree_apply_hs_truncate_witness:
  "catalog_file ''file:t.wt''
   \<and> btree_apply_ckpt ex_sys ex_config_zero = Inr ex_scan_zero
   \<and> \<not> btree_apply_skip ex_env ex_state ex_scan_zero
   \<and> rollback_to_stable_btree_apply ex_sys ex_env ex_state ''file:t.wt'' ex_config_zero 100
       = (0, ex_state\<lparr> st_hs := [], st_trace := [EV_HS_TRUNCATE 7] \<rparr>)
   \<and> \<not> decides_to_process ex_sys ex_env ex_state ''file:t.wt'' ex_scan_zero 100
   \<and> EV_BTREE_RTS ''file:t.wt''
       \<notin> set (new_events ex_state (ex_state\<lparr> st_hs := [], st_trace := [EV_HS_TRUNCATE 7] \<rparr>))
   \<and> EV_HS_TRUNCATE 7
       \<in> set (new_events ex_state (ex_state\<lparr> st_hs := [], st_trace := [EV_HS_TRUNCATE 7] \<rparr>))
   \<and> mset (st_hs (ex_state\<lparr> st_hs := [], st_trace := [EV_HS_TRUNCATE 7] \<rparr>))
       = filter_mset (\<lambda>e. hs_btree_id e \<noteq> 7) (mset (st_hs ex_state))"
proof -
  let ?st' = "ex_state\<lparr> st_hs := [], st_trace := [EV_HS_TRUNCATE 7] \<rparr>"
  have F: "catalog_file ''file:t.wt''"
    by (simp add: catalog_file_def WT_PREFIX_MATCH_def WT_HS_URI_def WT_METAFILE_URI_def)
  have K: "\<not> btree_apply_skip ex_env ex_state ex_scan_zero"
    by (simp add: btree_apply_skip_def ex_env_flags)
  have D: "\<not> decides_to_process ex_sys ex_env ex_state ''file:t.wt'' ex_scan_zero 100"
    by (simp add: decides_to_process_def ex_sys_handles WT_NOTFOUND_def ex_scan_zero_def
        scan_max_durable_ts_def WT_CHECK_RECOVERY_FLAG_TXNID_def ex_env_flags)
  have i: "config_btree_id ex_config_zero = 7"
    by (simp add: config_btree_id_def ex_config_zero_def ex_ckpt_num_def)
  have c: "scan_max_durable_ts ex_scan_zero = WT_TS_NONE \<and> \<not> conn_in_memory ex_env
           \<and> (\<not> decides_to_process ex_sys ex_env ex_state ''file:t.wt'' ex_scan_zero 100
                \<or> \<not> btree_modified (st_btree ?st' ''file:t.wt''))"
    using D by (simp add: scan_max_durable_ts_def ex_scan_zero_def WT_TS_NONE_def ex_env_flags)
  note w = rollback_to_stable_btree_apply_hs_truncate[OF F ex_ckpt_zero K ex_apply_zero,
             unfolded i]
  from w[THEN conjunct1] D
  have 1: "EV_BTREE_RTS ''file:t.wt'' \<notin> set (new_events ex_state ?st')" by simp
  from w[THEN conjunct2, THEN conjunct1] c
  have 2: "EV_HS_TRUNCATE 7 \<in> set (new_events ex_state ?st')" by simp
  from w[THEN conjunct2, THEN conjunct2, THEN conjunct2, rule_format, OF conjI[OF D 2]]
  have 3: "mset (st_hs ?st') = filter_mset (\<lambda>e. hs_btree_id e \<noteq> 7) (mset (st_hs ex_state))" .
  from F ex_ckpt_zero K ex_apply_zero D 1 2 3 show ?thesis by (intro conjI)
qed

text \<open>
  Claim C7 as it is written makes the truncation the alternative to processing the tree.
  For an object whose checkpoint records no durable timestamp, step 4 decides to process;
  the tree is rolled back, is not modified by it, and the history store is truncated in
  the same call.
\<close>

theorem rollback_to_stable_btree_apply_counterexample:
  "fst (rollback_to_stable_btree_apply ex_sys ex_env ex_state ''file:t.wt'' ex_config 100) = 0
   \<and> new_events ex_state
         (snd (rollback_to_stable_btree_apply ex_sys ex_env ex_state ''file:t.wt'' ex_config 100))
       = [EV_BTREE_RTS ''file:t.wt'', EV_HS_TRUNCATE 7]
   \<and> st_hs ex_state = [ex_hs_entry 50, ex_hs_entry 80, ex_hs_entry 90, ex_hs_entry 120]
   \<and> st_hs (snd (rollback_to_stable_btree_apply ex_sys ex_env ex_state ''file:t.wt'' ex_config 100))
       = []"
  unfolding ex_apply_none_found
  by (simp add: new_events_def ex_state_def ex_hs_def)

section \<open>Properties of the top level\<close>

lemma object_work_only_refl: "object_work_only st st"
  by (simp add: object_work_only_def new_events_def)

lemma object_work_only_append:
  assumes "list_all is_object_work evs"
  shows "object_work_only st (st\<lparr> st_hs := h, st_btree := b, st_trace := st_trace st @ evs \<rparr>)"
  using assms by (simp add: object_work_only_def new_events_def)

lemma object_work_only_trans:
  assumes a: "object_work_only st st1" and b: "object_work_only st1 st2"
  shows "object_work_only st st2"
proof -
  from a have t1: "st_trace st1 = st_trace st @ new_events st st1"
    by (metis append_take_drop_id new_events_def object_work_only_def)
  from b have t2: "st_trace st2 = st_trace st1 @ new_events st1 st2"
    by (metis append_take_drop_id new_events_def object_work_only_def)
  from t1 t2 have t: "st_trace st2 = st_trace st @ (new_events st st1 @ new_events st1 st2)"
    by simp
  have n: "new_events st st2 = new_events st st1 @ new_events st1 st2"
    unfolding new_events_def[of st st2] t by simp
  have p: "take (length (st_trace st)) (st_trace st2) = st_trace st"
    unfolding t by simp
  from a b have l: "list_all is_object_work (new_events st st1 @ new_events st1 st2)"
    by (simp add: object_work_only_def)
  from a b p l show ?thesis by (simp add: object_work_only_def n)
qed

lemma btree_apply_truncate_work:
  "btree_apply_truncate env st uri config da D = (r, st') \<Longrightarrow> object_work_only st st'"
  by (auto simp: btree_apply_truncate_def object_work_only_def new_events_def
           split: if_splits prod.splits)

lemma btree_apply_work:
  assumes "rollback_to_stable_btree_apply sys env st uri config T = (r, st')"
  shows "object_work_only st st'"
proof -
  obtain rb bt' hs1 where b: "rollback_to_stable_btree sys (env\<lparr> dhandle_is_hs := False \<rparr>)
                                 (st_btree st uri) T (st_hs st) = (rb, bt', hs1)"
    by (cases "rollback_to_stable_btree sys (env\<lparr> dhandle_is_hs := False \<rparr>)
                   (st_btree st uri) T (st_hs st)")
  define st1 where "st1 = st\<lparr> st_hs := hs1, st_btree := (st_btree st)(uri := bt'),
                               st_trace := st_trace st @ [EV_BTREE_RTS uri] \<rparr>"
  have w1: "object_work_only st st1"
    unfolding st1_def by (rule object_work_only_append) simp
  from assms b
  consider "st' = st" | "st' = st1"
    | s where "btree_apply_truncate env st1 uri config True (scan_max_durable_ts s) = (r, st')"
    | s where "btree_apply_truncate env st uri config False (scan_max_durable_ts s) = (r, st')"
    by (auto simp: rollback_to_stable_btree_apply_def Let_def st1_def
             split: if_splits sum.splits)
  then show ?thesis
  proof cases
    case 1
    then show ?thesis by (simp add: object_work_only_refl)
  next
    case 2
    with w1 show ?thesis by simp
  next
    case 3
    from object_work_only_trans[OF w1 btree_apply_truncate_work[OF 3]] show ?thesis .
  next
    case 4
    from btree_apply_truncate_work[OF 4] show ?thesis .
  qed
qed

lemma hs_final_pass_work:
  assumes "rollback_to_stable_hs_final_pass sys env st T = (r, st')"
  shows "object_work_only st st'"
proof -
  obtain rb bt' hs1 where b: "rollback_to_stable_btree sys (env\<lparr> dhandle_is_hs := True \<rparr>)
                                 (st_btree st WT_HS_URI) T (st_hs st) = (rb, bt', hs1)"
    by (cases "rollback_to_stable_btree sys (env\<lparr> dhandle_is_hs := True \<rparr>)
                   (st_btree st WT_HS_URI) T (st_hs st)")
  from assms b
  consider "st' = st"
    | "st' = st\<lparr> st_hs := hs1, st_btree := (st_btree st)(WT_HS_URI := bt'),
                 st_trace := st_trace st @ [EV_BTREE_RTS WT_HS_URI] \<rparr>"
    by (auto simp: rollback_to_stable_hs_final_pass_def Let_def
             split: if_splits sum.splits prod.splits)
  then show ?thesis
  proof cases
    case 1
    then show ?thesis by (simp add: object_work_only_refl)
  next
    case 2
    show ?thesis unfolding 2 by (rule object_work_only_append) simp
  qed
qed

lemma apply_all_loop_work:
  "rollback_to_stable_btree_apply_all_loop sys env T objs st = (r, st')
     \<Longrightarrow> object_work_only st st'"
proof (induction objs arbitrary: st)
  case Nil
  then show ?case by (simp add: object_work_only_refl)
next
  case (Cons obj objs)
  obtain uri config where o: "obj = (uri, config)" by (cases obj)
  obtain r1 st1 where a: "rollback_to_stable_btree_apply sys env st uri config T = (r1, st1)"
    by (cases "rollback_to_stable_btree_apply sys env st uri config T")
  note w1 = btree_apply_work[OF a]
  from Cons.prems o a
  consider "st' = st1"
    | "rollback_to_stable_btree_apply_all_loop sys env T objs st1 = (r, st')"
    by (auto split: if_splits)
  then show ?case
  proof cases
    case 1
    with w1 show ?thesis by simp
  next
    case 2
    from object_work_only_trans[OF w1 Cons.IH[OF 2]] show ?thesis .
  qed
qed

lemma apply_all_work:
  assumes "rollback_to_stable_btree_apply_all sys env st T = (r, st')"
  shows "object_work_only st st'"
proof -
  obtain r1 st1 where l: "rollback_to_stable_btree_apply_all_loop sys env T (metadata sys) st
                            = (r1, st1)"
    by (cases "rollback_to_stable_btree_apply_all_loop sys env T (metadata sys) st")
  note w1 = apply_all_loop_work[OF l]
  from assms l
  consider "st' = st" | "st' = st1"
    | "rollback_to_stable_hs_final_pass sys env st1 T = (r, st')"
    by (auto simp: rollback_to_stable_btree_apply_all_def split: if_splits)
  then show ?thesis
  proof cases
    case 1
    then show ?thesis by (simp add: object_work_only_refl)
  next
    case 2
    with w1 show ?thesis by simp
  next
    case 3
    from object_work_only_trans[OF w1 hs_final_pass_work[OF 3]] show ?thesis .
  qed
qed

text \<open>
  Claim C6. When \<^verbatim>\<open>__rollback_to_stable\<close> returns 0, the global durable timestamp equals
  the global stable timestamp and the flag \<^verbatim>\<open>has_durable_timestamp\<close> equals
  \<^verbatim>\<open>has_stable_timestamp\<close>, the stable timestamp and its flag being those of the start.
  \<^verbatim>\<open>__rollback_to_stable_btree_apply_all\<close> has returned 0, and the calls of the run are,
  in this order: the per-object work of \<^verbatim>\<open>__rollback_to_stable_btree_apply_all\<close> (tree
  rollbacks and history store truncations only), then the assignment of the durable
  timestamp, then the forced checkpoint, which is there exactly when the connection is
  not in-memory and the caller did not ask for no checkpoint.
\<close>

theorem rollback_to_stable_durable_timestamp:
  assumes R: "rollback_to_stable sys env st no_ckpt = (0, st')"
  shows "st_durable_timestamp st' = st_stable_timestamp st'
       \<and> st_has_durable_timestamp st' = st_has_stable_timestamp st'
       \<and> st_stable_timestamp st' = st_stable_timestamp st
       \<and> st_has_stable_timestamp st' = st_has_stable_timestamp st
       \<and> fst (rollback_to_stable_btree_apply_all sys env
                (st\<lparr> st_locked_pass := False, st_rts_flag := True \<rparr>) (st_stable_timestamp st)) = 0
       \<and> list_all is_object_work
           (new_events st
              (snd (rollback_to_stable_btree_apply_all sys env
                      (st\<lparr> st_locked_pass := False, st_rts_flag := True \<rparr>)
                      (st_stable_timestamp st))))
       \<and> new_events st st'
           = new_events st
               (snd (rollback_to_stable_btree_apply_all sys env
                       (st\<lparr> st_locked_pass := False, st_rts_flag := True \<rparr>)
                       (st_stable_timestamp st)))
             @ [EV_DURABLE_SET]
             @ (if \<not> conn_in_memory env \<and> \<not> no_ckpt then [EV_CHECKPOINT] else [])"
proof -
  define st2 where "st2 = st\<lparr> st_locked_pass := False, st_rts_flag := True \<rparr>"
  define ck where "ck = (if \<not> conn_in_memory env \<and> \<not> no_ckpt then [EV_CHECKPOINT] else [])"
  obtain q l where q: "evict_quiesce sys env 0 = (q, l)" by (cases "evict_quiesce sys env 0")
  obtain ra st3 where a: "rollback_to_stable_btree_apply_all sys env st2 (st_stable_timestamp st)
                            = (ra, st3)"
    by (cases "rollback_to_stable_btree_apply_all sys env st2 (st_stable_timestamp st)")
  have st2': "st\<lparr> st_locked_pass := l, st_rts_flag := True, st_locked_pass := False \<rparr> = st2"
    by (simp add: st2_def)
  have t2: "st_trace st2 = st_trace st" "st_stable_timestamp st2 = st_stable_timestamp st"
    "st_has_stable_timestamp st2 = st_has_stable_timestamp st"
    by (simp_all add: st2_def)
  from R have ra: "ra = 0"
    and st': "st' = st3\<lparr> st_has_durable_timestamp := st_has_stable_timestamp st3,
                         st_durable_timestamp := st_stable_timestamp st3,
                         st_trace := st_trace st3 @ [EV_DURABLE_SET] @ ck,
                         st_locked_pass := False, st_rts_flag := False \<rparr>"
    unfolding rollback_to_stable_def q
    by (auto simp: Let_def rollback_to_stable_err_def st2' t2 a ck_def split: if_splits)
  have w: "object_work_only st2 st3" by (rule apply_all_work[OF a])
  from w have p: "st_trace st3 = st_trace st @ new_events st st3"
    by (metis append_take_drop_id new_events_def object_work_only_def t2(1))
  have 1: "st_durable_timestamp st' = st_stable_timestamp st'"
    and 2: "st_has_durable_timestamp st' = st_has_stable_timestamp st'"
    by (simp_all add: st')
  have 3: "st_stable_timestamp st' = st_stable_timestamp st"
    and 4: "st_has_stable_timestamp st' = st_has_stable_timestamp st"
    using w by (simp_all add: st' object_work_only_def t2)
  have 5: "fst (rollback_to_stable_btree_apply_all sys env st2 (st_stable_timestamp st)) = 0"
    by (simp add: a ra)
  have 6: "list_all is_object_work
             (new_events st (snd (rollback_to_stable_btree_apply_all sys env st2
                                    (st_stable_timestamp st))))"
    using w by (simp add: a object_work_only_def new_events_def t2)
  have "st_trace st' = st_trace st @ (new_events st st3 @ [EV_DURABLE_SET] @ ck)"
    using p by (simp add: st')
  then have "new_events st st' = new_events st st3 @ [EV_DURABLE_SET] @ ck"
    unfolding new_events_def[of st st'] by simp
  then have 7: "new_events st st'
           = new_events st (snd (rollback_to_stable_btree_apply_all sys env st2
                                   (st_stable_timestamp st)))
             @ [EV_DURABLE_SET] @ ck"
    by (simp add: a)
  from 1 2 3 4 5 6 7 show ?thesis unfolding st2_def ck_def by (intro conjI)
qed

lemma ex_apply_all:
  assumes h: "st_hs st = ex_hs" and b: "st_btree st ''file:t.wt'' = ex_btree"
  shows "fst (rollback_to_stable_btree_apply_all ex_sys ex_env st 100) = 0
       \<and> st_trace (snd (rollback_to_stable_btree_apply_all ex_sys ex_env st 100))
           = st_trace st @ [EV_BTREE_RTS ''file:t.wt'', EV_HS_TRUNCATE 7]"
proof -
  have i: "cfg_id ex_config = (0, \<lparr> ci_len = 1, ci_val = 7 \<rparr>)"
    by (simp add: ex_config_def ex_ckpt_num_def)
  have m: "\<not> btree_modified ex_btree" by (simp add: ex_btree_def)
  have a: "rollback_to_stable_btree_apply ex_sys ex_env st ''file:t.wt'' ex_config 100
     = (0, st\<lparr> st_hs := [],
              st_btree := (st_btree st)(''file:t.wt'' :=
                ex_btree\<lparr> btree_refs :=
                  [ex_internal\<lparr> walk_children :=
                     [(ex_child 130)\<lparr> ref_state := WT_REF_DISK, ref_ft_info_del := None \<rparr>,
                      ex_child 90] \<rparr>] \<rparr>),
              st_trace := st_trace st @ [EV_BTREE_RTS ''file:t.wt'', EV_HS_TRUNCATE 7] \<rparr>)"
    unfolding rollback_to_stable_btree_apply_def ex_ckpt_none_found btree_apply_truncate_def i
    by (simp add: h b m ex_walk ex_hs_truncate WT_PREFIX_MATCH_def WT_HS_URI_def
        WT_METAFILE_URI_def btree_apply_skip_def btree_apply_process_def scan_max_durable_ts_def
        WT_CHECK_RECOVERY_FLAG_TXNID_def WT_NOTFOUND_def WT_TS_NONE_def ex_env_flags
        ex_sys_handles)
  have s: "metadata ex_sys = [(''file:t.wt'', ex_config)]" "metadata_cursor_ret ex_sys = 0"
    by (simp_all add: ex_sys_def)
  show ?thesis
    unfolding rollback_to_stable_btree_apply_all_def s
    by (simp add: a ex_env_flags)
qed

lemma ex_quiesce_sys: "evict_quiesce ex_sys ex_env 0 = (0, True)"
  by (subst evict_quiesce.simps)
     (simp add: WT_RTS_EVICT_MAX_RETRIES_def ex_env_flags ex_sys_def)

lemma ex_rts_ret: "fst (rollback_to_stable ex_sys ex_env ex_state False) = 0"
proof -
  have s: "msg_ret ex_sys = 0" "rollback_to_stable_check ex_sys = 0" "checkpoint_ret ex_sys = 0"
    by (simp_all add: ex_sys_def rollback_to_stable_check_def)
  have t: "st_stable_timestamp ex_state = 100" "st_hs ex_state = ex_hs"
    "st_btree ex_state ''file:t.wt'' = ex_btree"
    by (simp_all add: ex_state_def)
  show ?thesis
    unfolding rollback_to_stable_def ex_quiesce_sys
    by (simp add: s t ex_apply_all[THEN conjunct1] ex_env_flags rollback_to_stable_err_def
        Let_def case_prod_beta)
qed

text \<open>
  The theorem at a connection with stable timestamp 100 and durable timestamp 150, whose
  catalog holds one object: the run succeeds, the durable timestamp is 100 afterwards,
  and the object's work comes before the assignment and the checkpoint.
\<close>

theorem rollback_to_stable_durable_timestamp_witness:
  "rollback_to_stable ex_sys ex_env ex_state False
     = (0, snd (rollback_to_stable ex_sys ex_env ex_state False))
   \<and> st_durable_timestamp ex_state = 150
   \<and> st_stable_timestamp (snd (rollback_to_stable ex_sys ex_env ex_state False)) = 100
   \<and> st_durable_timestamp (snd (rollback_to_stable ex_sys ex_env ex_state False)) = 100
   \<and> new_events ex_state (snd (rollback_to_stable ex_sys ex_env ex_state False))
       = [EV_BTREE_RTS ''file:t.wt'', EV_HS_TRUNCATE 7, EV_DURABLE_SET, EV_CHECKPOINT]"
proof -
  let ?st' = "snd (rollback_to_stable ex_sys ex_env ex_state False)"
  have R: "rollback_to_stable ex_sys ex_env ex_state False = (0, ?st')"
    using ex_rts_ret by (simp add: prod_eq_iff)
  note w = rollback_to_stable_durable_timestamp[OF R]
  have t: "st_stable_timestamp ex_state = 100" and d: "st_durable_timestamp ex_state = 150"
    by (simp_all add: ex_state_def)
  from w[THEN conjunct2, THEN conjunct2, THEN conjunct1] t
  have 1: "st_stable_timestamp ?st' = 100" by simp
  from w[THEN conjunct1] 1 have 2: "st_durable_timestamp ?st' = 100" by simp
  have a: "new_events ex_state
             (snd (rollback_to_stable_btree_apply_all ex_sys ex_env
                     (ex_state\<lparr> st_locked_pass := False, st_rts_flag := True \<rparr>) 100))
           = [EV_BTREE_RTS ''file:t.wt'', EV_HS_TRUNCATE 7]"
    unfolding new_events_def
    using ex_apply_all[of "ex_state\<lparr> st_locked_pass := False, st_rts_flag := True \<rparr>"]
    by (simp add: ex_state_def)
  from w[THEN conjunct2, THEN conjunct2, THEN conjunct2, THEN conjunct2, THEN conjunct2,
         THEN conjunct2]
  have 3: "new_events ex_state ?st'
       = [EV_BTREE_RTS ''file:t.wt'', EV_HS_TRUNCATE 7, EV_DURABLE_SET, EV_CHECKPOINT]"
    unfolding t a by (simp add: ex_env_flags)
  from R d 1 2 3 show ?thesis by (intro conjI)
qed

section \<open>Fast truncates after rollback to stable\<close>


























text \<open>
  Two things the third part leaves out. A page that the walk skips keeps its children
  whatever their timestamps.
\<close>

lemma walk_skipped_page_untouched:
  assumes "wt_rts_page_skip env (walk_ref r) T"
  shows "hd (fst (snd (rollback_to_stable_btree_walk sys env T (r # rest) hs m))) = r"
  using assms by (simp add: case_prod_beta)

text \<open>
  And the return code of \<^verbatim>\<open>__rollback_abort_fast_truncate\<close> does not reach the caller of
  the walk: with a rollback of a fast truncate that fails, the walk of the tree of the
  examples returns 0 and the child truncated at 130 is as it was.
\<close>

lemma ex_walk_drops_rollback_error:
  "rollback_to_stable_btree (ex_sys\<lparr> delete_page_rollback := (\<lambda>r. (EINVAL, r)) \<rparr>) ex_env
     ex_btree 100 ex_hs = (0, ex_btree, ex_hs)"
  by (simp add: rollback_to_stable_btree_def wt_rts_page_skip_def ex_btree_def ex_internal_def
      ex_children_def ex_child_def ex_sys_def fast_truncate_unstable_def EINVAL_def)

end
